(* ===== verification/Common.thy ===== *)
theory Common
  imports Prelude
begin

text \<open>
  The shared types of \<^verbatim>\<open>crates/common\<close>: \<^verbatim>\<open>AppError\<close> with its retry classification
  (\<^verbatim>\<open>error.rs\<close>), the delivery status and its database text (\<^verbatim>\<open>log.rs\<close>), the three
  delivery-mode enumerations (\<^verbatim>\<open>event.rs\<close>) and the AMQP-URL scrubber
  (\<^verbatim>\<open>amqp_util.rs\<close>). The text of an error that a library produces
  (\<^verbatim>\<open>sqlx::Error\<close>, \<^verbatim>\<open>serde_json::Error\<close>) is carried as a string.
\<close>

section \<open>error.rs\<close>

datatype MailerKind = Transient | Permanent

datatype AppError =
    Database string
  | Mailer string MailerKind
  | Template string
  | RateLimited string
  | BlockedError string
  | Queue string
  | Deserialize string
  | NotFound string
  | DuplicateError string
  | UnknownStatus string

definition permanent_mailer :: "string \<Rightarrow> AppError" where
  "permanent_mailer msg = Mailer msg Permanent"

definition transient_mailer :: "string \<Rightarrow> AppError" where
  "transient_mailer msg = Mailer msg Transient"

fun is_permanent_mailer :: "AppError \<Rightarrow> bool" where
  "is_permanent_mailer (Mailer _ Permanent) = True"
| "is_permanent_mailer _ = False"

text \<open>The \<^verbatim>\<open>Display\<close> that \<^verbatim>\<open>thiserror\<close> derives from the \<^verbatim>\<open>#[error]\<close> attributes.\<close>

fun app_error_to_string :: "AppError \<Rightarrow> string" where
  "app_error_to_string (Database e) = ''database error: '' @ e"
| "app_error_to_string (Mailer m _) = ''mailer error: '' @ m"
| "app_error_to_string (Template m) = ''template error: '' @ m"
| "app_error_to_string (RateLimited m) = ''rate limited by mail provider: '' @ m"
| "app_error_to_string (BlockedError m) = ''recipient blocked: '' @ m"
| "app_error_to_string (Queue m) = ''queue error: '' @ m"
| "app_error_to_string (Deserialize m) = ''deserialization error: '' @ m"
| "app_error_to_string (NotFound m) = ''not found: '' @ m"
| "app_error_to_string (DuplicateError m) = ''duplicate event (already processed): '' @ m"
| "app_error_to_string (UnknownStatus m) =
     ''unknown email status value in database: '' @ CHR 0x27 # m @ [CHR 0x27]"

section \<open>log.rs: the delivery status\<close>

datatype NotificationStatus = Pending | Sent | Failed | Blocked | Skipped

fun status_as_str :: "NotificationStatus \<Rightarrow> string" where
  "status_as_str Pending = ''PENDING''"
| "status_as_str Sent = ''SENT''"
| "status_as_str Failed = ''FAILED''"
| "status_as_str Blocked = ''BLOCKED''"
| "status_as_str Skipped = ''SKIPPED''"

definition status_try_from :: "string \<Rightarrow> AppError + NotificationStatus" where
  "status_try_from s =
     (if s = ''PENDING'' then Ok Pending
      else if s = ''SENT'' then Ok Sent
      else if s = ''FAILED'' then Ok Failed
      else if s = ''BLOCKED'' then Ok Blocked
      else if s = ''SKIPPED'' then Ok Skipped
      else Err (UnknownStatus s))"

section \<open>event.rs: delivery modes\<close>

datatype SendMode = SendIndividual | SendGroup

datatype GroupRetryMode = RetryWhole | RetryIndividual

datatype RetryPolicy = Retry | NoRetry

fun send_mode_as_str :: "SendMode \<Rightarrow> string" where
  "send_mode_as_str SendIndividual = ''individual''"
| "send_mode_as_str SendGroup = ''group''"

fun group_retry_mode_as_str :: "GroupRetryMode \<Rightarrow> string" where
  "group_retry_mode_as_str RetryWhole = ''whole''"
| "group_retry_mode_as_str RetryIndividual = ''individual''"

definition group_retry_mode_try_from :: "string \<Rightarrow> AppError + GroupRetryMode" where
  "group_retry_mode_try_from s =
     (if s = ''whole'' then Ok RetryWhole
      else if s = ''individual'' then Ok RetryIndividual
      else Err (UnknownStatus (''unknown group_retry_mode: '' @ s)))"

section \<open>amqp\_util.rs\<close>

definition scrub_amqp_url :: "string \<Rightarrow> string" where
  "scrub_amqp_url url =
     (case rsplit_once (CHR ''@'') url of
        Some (_, after_at) \<Rightarrow>
          (case find_str ''://'' url of
             Some scheme_end \<Rightarrow> take (scheme_end + 3) url @ ''[redacted]@'' @ after_at
           | None \<Rightarrow>
               ''[redacted '' @ em_dash @ '' unrecognised URL format containing ''
                 @ [CHR 0x27, CHR ''@'', CHR 0x27] @ '']'')
      | None \<Rightarrow> url)"

section \<open>Lemmas\<close>

text \<open>A logged broker URL does not depend on the credentials in it, whatever they hold.\<close>

lemma find_scheme_end: "CHR '':'' \<notin> set scheme \<Longrightarrow> find_str ''://'' (scheme @ ''://'' @ rest) = Some (length scheme)"
  by (induction scheme) (auto simp: starts_with_iff)

lemma scrub_hides_credentials:
  assumes "CHR '':'' \<notin> set scheme" "CHR ''@'' \<notin> set host"
  shows "scrub_amqp_url (scheme @ ''://'' @ credentials @ ''@'' @ host) = scheme @ ''://[redacted]@'' @ host"
proof -
  have "rsplit_once (CHR ''@'') (scheme @ ''://'' @ credentials @ ''@'' @ host) = Some (scheme @ ''://'' @ credentials, host)"
    using assms(2) by (simp add: rsplit_once_Some)
  then show ?thesis
    using find_scheme_end [OF assms(1), of "credentials @ ''@'' @ host"] by (simp add: scrub_amqp_url_def)
qed

lemma is_permanent_mailer_iff: "is_permanent_mailer e \<longleftrightarrow> (\<exists>m. e = Mailer m Permanent)"
  by (cases e rule: is_permanent_mailer.cases) auto

lemma is_permanent_mailer_simps [simp]:
  "is_permanent_mailer (permanent_mailer m)" "\<not> is_permanent_mailer (transient_mailer m)"
  by (simp_all add: permanent_mailer_def transient_mailer_def)

lemma status_try_from_as_str [simp]: "status_try_from (status_as_str s) = Ok s"
  by (cases s) (simp_all add: status_try_from_def)

lemma status_try_from_Ok: "status_try_from t = Ok s \<longleftrightarrow> t = status_as_str s"
  by (cases s) (auto simp: status_try_from_def split: if_splits)

lemma status_as_str_inject [simp]: "status_as_str s = status_as_str t \<longleftrightarrow> s = t"
  by (metis status_try_from_Ok sum.inject(2))

lemma group_retry_mode_round_trip [simp]:
  "group_retry_mode_try_from (group_retry_mode_as_str m) = Ok m"
  by (cases m) (simp_all add: group_retry_mode_try_from_def)

lemma find_str_Some: "find_str n s = Some i \<Longrightarrow> \<exists>r. s = take i s @ n @ r"
proof (induction s arbitrary: i)
  case Nil
  then show ?case by (simp split: if_splits)
next
  case (Cons c s)
  show ?case
  proof (cases "starts_with n (c # s)")
    case True
    with Cons.prems show ?thesis by (auto simp: starts_with_iff)
  next
    case False
    with Cons.prems obtain j where j: "find_str n s = Some j" "i = Suc j" by auto
    from Cons.IH [OF j(1)] j(2) show ?thesis by auto
  qed
qed

end
