(* ===== verification/Json.thy ===== *)
theory Json
  imports Common
begin

text \<open>
  JSON values (\<^verbatim>\<open>serde_json::Value\<close>) and the decoding rules of serde's derived
  \<^verbatim>\<open>Deserialize\<close>, as far as the events use them: a struct is read from an object by field
  name (aliases share one slot, a repeated slot is an error, unknown keys are ignored) or from
  an array by position; a unit enum from its name or from an object with that one key and
  \<^verbatim>\<open>null\<close>. An object is an association list in the order of the text. Parsing text into a
  value is the library's and is a parameter of the components that need it.
\<close>

datatype json =
    JNull
  | JBool bool
  | JInt int
  | JFloat string
  | JStr string
  | JArr "json list"
  | JObj "(string \<times> json) list"

datatype de_error =
    MissingField string
  | DuplicateField string
  | InvalidLength
  | InvalidType
  | UnknownVariant string
  | InvalidValue string

datatype field_slot = AbsentInMap | AbsentInSeq | Present json

text \<open>\<^verbatim>\<open>Value::get\<close> with a string key.\<close>

fun json_get :: "string \<Rightarrow> json \<Rightarrow> json option" where
  "json_get k (JObj kvs) = map_of kvs k"
| "json_get k _ = None"

fun json_as_str :: "json \<Rightarrow> string option" where
  "json_as_str (JStr s) = Some s"
| "json_as_str _ = None"

section \<open>Derived decoding\<close>

definition map_slot :: "(string \<times> json) list \<Rightarrow> string list \<Rightarrow> de_error + field_slot" where
  "map_slot kvs names =
     (case filter (\<lambda>kv. fst kv \<in> set names) kvs of
        [] \<Rightarrow> Ok AbsentInMap
      | [kv] \<Rightarrow> Ok (Present (snd kv))
      | _ \<Rightarrow> Err (DuplicateField (hd names)))"

fun struct_slots :: "string list list \<Rightarrow> json \<Rightarrow> de_error + field_slot list" where
  "struct_slots fs (JObj kvs) = collect_results (map_slot kvs) fs"
| "struct_slots fs (JArr vs) =
     (if length vs > length fs then Err InvalidLength
      else Ok (map Present vs @ replicate (length fs - length vs) AbsentInSeq))"
| "struct_slots fs _ = Err InvalidType"

fun required :: "(json \<Rightarrow> de_error + 'a) \<Rightarrow> field_slot \<Rightarrow> de_error + 'a" where
  "required dec (Present j) = dec j"
| "required dec AbsentInMap = Err (MissingField [])"
| "required dec AbsentInSeq = Err InvalidLength"

text \<open>An \<^verbatim>\<open>Option\<close> field without \<^verbatim>\<open>#[serde(default)]\<close>: absent is \<^verbatim>\<open>None\<close> in an object only.\<close>

fun optional :: "(json \<Rightarrow> de_error + 'a option) \<Rightarrow> field_slot \<Rightarrow> de_error + 'a option" where
  "optional dec (Present j) = dec j"
| "optional dec AbsentInMap = Ok None"
| "optional dec AbsentInSeq = Err InvalidLength"

fun with_default :: "'a \<Rightarrow> (json \<Rightarrow> de_error + 'a) \<Rightarrow> field_slot \<Rightarrow> de_error + 'a" where
  "with_default d dec (Present j) = dec j"
| "with_default d dec _ = Ok d"

fun dec_string :: "json \<Rightarrow> de_error + string" where
  "dec_string (JStr s) = Ok s"
| "dec_string _ = Err InvalidType"

fun dec_option :: "(json \<Rightarrow> de_error + 'a) \<Rightarrow> json \<Rightarrow> de_error + 'a option" where
  "dec_option dec JNull = Ok None"
| "dec_option dec j = (case dec j of Inl e \<Rightarrow> Inl e | Inr a \<Rightarrow> Inr (Some a))"

fun dec_vec :: "(json \<Rightarrow> de_error + 'a) \<Rightarrow> json \<Rightarrow> de_error + 'a list" where
  "dec_vec dec (JArr vs) = collect_results dec vs"
| "dec_vec dec _ = Err InvalidType"

fun dec_uint :: "nat \<Rightarrow> json \<Rightarrow> de_error + nat" where
  "dec_uint w (JInt i) = (if 0 \<le> i \<and> i < 2 ^ w then Ok (nat i) else Err (InvalidValue (int_to_string i)))"
| "dec_uint w _ = Err InvalidType"

fun dec_unit_enum :: "(string \<times> 'a) list \<Rightarrow> json \<Rightarrow> de_error + 'a" where
  "dec_unit_enum vs (JStr s) =
     (case map_of vs s of Some a \<Rightarrow> Ok a | None \<Rightarrow> Err (UnknownVariant s))"
| "dec_unit_enum vs (JObj [(s, v)]) =
     (case map_of vs s of
        Some a \<Rightarrow> if v = JNull then Ok a else Err InvalidType
      | None \<Rightarrow> Err (UnknownVariant s))"
| "dec_unit_enum vs _ = Err InvalidType"

fun enc_option :: "('a \<Rightarrow> json) \<Rightarrow> 'a option \<Rightarrow> json" where
  "enc_option enc None = JNull"
| "enc_option enc (Some a) = enc a"

definition enc_vec :: "('a \<Rightarrow> json) \<Rightarrow> 'a list \<Rightarrow> json" where
  "enc_vec enc xs = JArr (map enc xs)"

text \<open>Sequencing of decoders: the first error is the result.\<close>

definition and_then :: "'e + 'a \<Rightarrow> ('a \<Rightarrow> 'e + 'b) \<Rightarrow> 'e + 'b" where
  "and_then r f = (case r of Inl e \<Rightarrow> Inl e | Inr a \<Rightarrow> f a)"

lemma and_then_simps [simp]: "and_then (Inr a) f = f a" "and_then (Inl e) f = Inl e"
  by (simp_all add: and_then_def)

lemma and_then_Inr_iff: "and_then r f = Inr b \<longleftrightarrow> (\<exists>a. r = Inr a \<and> f a = Inr b)"
  by (cases r) auto

section \<open>Codecs\<close>

text \<open>
  A codec is an encoder with a decoder that inverts it and an encoding that is never
  \<^verbatim>\<open>null\<close>, which is what makes the optional and the list version invert too.
\<close>

locale json_codec =
  fixes enc :: "'a \<Rightarrow> json" and dec :: "json \<Rightarrow> de_error + 'a"
  assumes dec_enc: "dec (enc x) = Ok x"
    and enc_not_null: "enc x \<noteq> JNull"
begin

lemma option_round_trip: "dec_option dec (enc_option enc m) = Ok m"
proof (cases m)
  case (Some x)
  with enc_not_null [of x] dec_enc [of x] show ?thesis by (cases "enc x") auto
qed simp

lemma vec_round_trip: "dec_vec dec (enc_vec enc xs) = Ok xs"
  by (simp add: enc_vec_def)
    (induction xs, auto simp: dec_enc)

lemma enc_inject: "enc x = enc y \<Longrightarrow> x = y"
  by (metis dec_enc sum.inject(2))

end

interpretation string_codec: json_codec JStr dec_string
  by unfold_locales simp_all

lemma uint_round_trip: "n < 2 ^ w \<Longrightarrow> dec_uint w (JInt (int n)) = Ok n"
  by (simp flip: of_nat_power)

lemma map_slot_Cons_hit:
  "k \<in> set names \<Longrightarrow> (\<forall>kv \<in> set kvs. fst kv \<notin> set names) \<Longrightarrow> map_slot ((k, v) # kvs) names = Ok (Present v)"
  by (simp add: map_slot_def filter_empty_conv)

lemma map_slot_Cons_miss:
  "k \<notin> set names \<Longrightarrow> map_slot ((k, v) # kvs) names = map_slot kvs names"
  by (simp add: map_slot_def)

end
