(* ===== verification/Events.thy ===== *)
theory Events
  imports Json
begin

text \<open>
  \<^verbatim>\<open>crates/common/src/event.rs\<close>: the event envelope, its email options and their wire
  format, the legacy envelope and its promotion, and the attachment metadata check. Parsing of
  UUID and timestamp texts (crates \<^verbatim>\<open>uuid\<close> and \<^verbatim>\<open>chrono\<close>) and the rendering of a
  timestamp are parameters.
\<close>

record Recipient =
  r_email :: string
  r_name :: "string option"

record FromOverride =
  fo_email :: string
  fo_name :: "string option"

record Metadata =
  md_source :: "string option"

record AttachmentRef =
  a_url :: string
  a_filename :: string
  a_content_type :: string
  a_fetch_token :: "string option"
  a_max_age_secs :: "u64 option"

record EmailOptions =
  eo_send_mode :: SendMode
  eo_group_retry_mode :: GroupRetryMode
  eo_retry_policy :: RetryPolicy
  eo_recipients :: "Recipient list"
  eo_cc :: "Recipient list"
  eo_bcc :: "Recipient list"
  eo_from_override :: "FromOverride option"
  eo_attachments :: "AttachmentRef list"
  eo_sender_account :: "string option"
  eo_send_at :: "datetime option"
  eo_priority :: "u32 option"

record ChannelOverrides =
  co_email :: "EmailOptions option"

record NotificationEvent =
  ne_event_id :: uuid
  ne_timestamp :: datetime
  ne_event_type :: string
  ne_payload :: json
  ne_metadata :: Metadata
  ne_channel_overrides :: ChannelOverrides

record EmailEvent =
  ee_event_id :: uuid
  ee_timestamp :: datetime
  ee_event_type :: string
  ee_recipients :: "Recipient list"
  ee_payload :: json
  ee_from_override :: "FromOverride option"
  ee_metadata :: Metadata
  ee_cc :: "Recipient list"
  ee_bcc :: "Recipient list"
  ee_attachments :: "AttachmentRef list"
  ee_sender_account :: "string option"

text \<open>The libraries' text formats.\<close>

record text_formats =
  parse_uuid :: "string \<Rightarrow> uuid option"
  parse_datetime :: "string \<Rightarrow> datetime option"
  format_datetime :: "datetime \<Rightarrow> string"

definition into_notification_event :: "EmailEvent \<Rightarrow> NotificationEvent" where
  "into_notification_event self =
     \<lparr>ne_event_id = ee_event_id self,
      ne_timestamp = ee_timestamp self,
      ne_event_type = ee_event_type self,
      ne_payload = ee_payload self,
      ne_metadata = ee_metadata self,
      ne_channel_overrides = \<lparr>co_email = Some
        \<lparr>eo_send_mode = SendIndividual,
         eo_group_retry_mode = RetryWhole,
         eo_retry_policy = Retry,
         eo_recipients = ee_recipients self,
         eo_cc = ee_cc self,
         eo_bcc = ee_bcc self,
         eo_from_override = ee_from_override self,
         eo_attachments = ee_attachments self,
         eo_sender_account = ee_sender_account self,
         eo_send_at = None,
         eo_priority = None\<rparr>\<rparr>\<rparr>"

text \<open>
  \<^verbatim>\<open>AttachmentRef::validate\<close>. The age in whole seconds is clamped at zero before the
  conversion to \<^verbatim>\<open>u64\<close>, so a timestamp in the future counts as age zero.
\<close>

definition attachment_validate :: "AttachmentRef \<Rightarrow> datetime \<Rightarrow> datetime \<Rightarrow> string + unit" where
  "attachment_validate self event_timestamp check_time =
     (if a_url self = [] then Err ''permanent: attachment url must not be empty''
      else if \<not> starts_with ''http://'' (a_url self) \<and> \<not> starts_with ''https://'' (a_url self)
      then Err (''permanent: attachment url '' @ CHR 0x27 # a_url self @ CHR 0x27 # '' must start with http:// or https://'')
      else if a_filename self = [] then Err ''permanent: attachment filename must not be empty''
      else if CHR ''/'' \<in> set (a_filename self) \<or> CHR 0x5C \<in> set (a_filename self)
      then Err (''permanent: attachment filename '' @ CHR 0x27 # a_filename self @ CHR 0x27 # '' must not contain path separators'')
      else if CHR ''/'' \<notin> set (a_content_type self)
      then Err (''permanent: attachment content_type '' @ CHR 0x27 # a_content_type self @ CHR 0x27 # '' is not a valid MIME type'')
      else case a_max_age_secs self of
             None \<Rightarrow> Ok ()
           | Some max_age \<Rightarrow>
               let age = (word_of_int (max 0 (num_seconds (check_time - event_timestamp))) :: u64)
               in if age > max_age
                  then Err (''permanent: attachment '' @ CHR 0x27 # a_filename self @ CHR 0x27 # '' URL has expired (max_age_secs=''
                            @ nat_to_string (unat max_age) @ '', age='' @ nat_to_string (unat age) @ ''s)'')
                  else Ok ())"

section \<open>Wire format\<close>

definition dec_recipient :: "json \<Rightarrow> de_error + Recipient" where
  "dec_recipient j =
     and_then (struct_slots [[''email''], [''name'']] j) (\<lambda>fs.
     and_then (required dec_string (fs ! 0)) (\<lambda>email.
     and_then (with_default None (dec_option dec_string) (fs ! 1)) (\<lambda>name.
       Ok \<lparr>r_email = email, r_name = name\<rparr>)))"

definition enc_recipient :: "Recipient \<Rightarrow> json" where
  "enc_recipient r = JObj [(''email'', JStr (r_email r)), (''name'', enc_option JStr (r_name r))]"

definition dec_from_override :: "json \<Rightarrow> de_error + FromOverride" where
  "dec_from_override j =
     and_then (struct_slots [[''email''], [''name'']] j) (\<lambda>fs.
     and_then (required dec_string (fs ! 0)) (\<lambda>email.
     and_then (optional (dec_option dec_string) (fs ! 1)) (\<lambda>name.
       Ok \<lparr>fo_email = email, fo_name = name\<rparr>)))"

definition enc_from_override :: "FromOverride \<Rightarrow> json" where
  "enc_from_override f = JObj [(''email'', JStr (fo_email f)), (''name'', enc_option JStr (fo_name f))]"

definition dec_metadata :: "json \<Rightarrow> de_error + Metadata" where
  "dec_metadata j =
     and_then (struct_slots [[''source'']] j) (\<lambda>fs.
     and_then (with_default None (dec_option dec_string) (fs ! 0)) (\<lambda>src.
       Ok \<lparr>md_source = src\<rparr>))"

definition enc_metadata :: "Metadata \<Rightarrow> json" where
  "enc_metadata m = JObj [(''source'', enc_option JStr (md_source m))]"

definition dec_u64 :: "json \<Rightarrow> de_error + u64" where
  "dec_u64 j = and_then (dec_uint 64 j) (\<lambda>n. Ok (of_nat n))"

definition dec_u32 :: "json \<Rightarrow> de_error + u32" where
  "dec_u32 j = and_then (dec_uint 32 j) (\<lambda>n. Ok (of_nat n))"

definition dec_attachment :: "json \<Rightarrow> de_error + AttachmentRef" where
  "dec_attachment j =
     and_then (struct_slots [[''url''], [''filename''], [''content_type''], [''fetch_token''], [''max_age_secs'']] j) (\<lambda>fs.
     and_then (required dec_string (fs ! 0)) (\<lambda>url.
     and_then (required dec_string (fs ! 1)) (\<lambda>filename.
     and_then (required dec_string (fs ! 2)) (\<lambda>content_type.
     and_then (with_default None (dec_option dec_string) (fs ! 3)) (\<lambda>fetch_token.
     and_then (with_default None (dec_option dec_u64) (fs ! 4)) (\<lambda>max_age.
       Ok \<lparr>a_url = url, a_filename = filename, a_content_type = content_type,
           a_fetch_token = fetch_token, a_max_age_secs = max_age\<rparr>))))))"

definition enc_u64 :: "u64 \<Rightarrow> json" where
  "enc_u64 w = JInt (int (unat w))"

definition enc_u32 :: "u32 \<Rightarrow> json" where
  "enc_u32 w = JInt (int (unat w))"

definition enc_attachment :: "AttachmentRef \<Rightarrow> json" where
  "enc_attachment a =
     JObj [(''url'', JStr (a_url a)), (''filename'', JStr (a_filename a)),
           (''content_type'', JStr (a_content_type a)),
           (''fetch_token'', enc_option JStr (a_fetch_token a)),
           (''max_age_secs'', enc_option enc_u64 (a_max_age_secs a))]"

text \<open>
  \<^verbatim>\<open>deserialize_recipients\<close>: an array of recipients or one recipient object. An array is
  always the list form here, an object always the single form; anything else is an error.
\<close>

fun deserialize_recipients :: "json \<Rightarrow> de_error + Recipient list" where
  "deserialize_recipients (JArr vs) = collect_results dec_recipient vs"
| "deserialize_recipients (JObj kvs) = and_then (dec_recipient (JObj kvs)) (\<lambda>r. Ok [r])"
| "deserialize_recipients _ = Err InvalidType"

definition send_mode_variants :: "(string \<times> SendMode) list" where
  "send_mode_variants = [(''individual'', SendIndividual), (''group'', SendGroup)]"

definition group_retry_mode_variants :: "(string \<times> GroupRetryMode) list" where
  "group_retry_mode_variants = [(''whole'', RetryWhole), (''individual'', RetryIndividual)]"

definition retry_policy_variants :: "(string \<times> RetryPolicy) list" where
  "retry_policy_variants = [(''retry'', Retry), (''no_retry'', NoRetry)]"

fun retry_policy_name :: "RetryPolicy \<Rightarrow> string" where
  "retry_policy_name Retry = ''retry''"
| "retry_policy_name NoRetry = ''no_retry''"

definition dec_datetime :: "text_formats \<Rightarrow> json \<Rightarrow> de_error + datetime" where
  "dec_datetime tf j =
     and_then (dec_string j) (\<lambda>s. case parse_datetime tf s of Some d \<Rightarrow> Ok d | None \<Rightarrow> Err (InvalidValue s))"

definition enc_datetime :: "text_formats \<Rightarrow> datetime \<Rightarrow> json" where
  "enc_datetime tf d = JStr (format_datetime tf d)"

definition dec_uuid :: "text_formats \<Rightarrow> json \<Rightarrow> de_error + uuid" where
  "dec_uuid tf j =
     and_then (dec_string j) (\<lambda>s. case parse_uuid tf s of Some u \<Rightarrow> Ok u | None \<Rightarrow> Err (InvalidValue s))"

definition email_options_fields :: "string list list" where
  "email_options_fields =
     [[''send_mode''], [''group_retry_mode''], [''retry_policy''], [''recipients'', ''recipient''],
      [''cc''], [''bcc''], [''from_override''], [''attachments''], [''sender_account''], [''send_at''],
      [''priority'']]"

definition dec_email_options :: "text_formats \<Rightarrow> json \<Rightarrow> de_error + EmailOptions" where
  "dec_email_options tf j =
     and_then (struct_slots email_options_fields j) (\<lambda>fs.
     and_then (with_default SendIndividual (dec_unit_enum send_mode_variants) (fs ! 0)) (\<lambda>mode.
     and_then (with_default RetryWhole (dec_unit_enum group_retry_mode_variants) (fs ! 1)) (\<lambda>grm.
     and_then (with_default Retry (dec_unit_enum retry_policy_variants) (fs ! 2)) (\<lambda>pol.
     and_then (required deserialize_recipients (fs ! 3)) (\<lambda>rcpts.
     and_then (with_default [] (dec_vec dec_recipient) (fs ! 4)) (\<lambda>cc.
     and_then (with_default [] (dec_vec dec_recipient) (fs ! 5)) (\<lambda>bcc.
     and_then (with_default None (dec_option dec_from_override) (fs ! 6)) (\<lambda>fo.
     and_then (with_default [] (dec_vec dec_attachment) (fs ! 7)) (\<lambda>atts.
     and_then (with_default None (dec_option dec_string) (fs ! 8)) (\<lambda>acct.
     and_then (with_default None (dec_option (dec_datetime tf)) (fs ! 9)) (\<lambda>send_at.
     and_then (with_default None (dec_option dec_u32) (fs ! 10)) (\<lambda>prio.
       Ok \<lparr>eo_send_mode = mode, eo_group_retry_mode = grm, eo_retry_policy = pol,
           eo_recipients = rcpts, eo_cc = cc, eo_bcc = bcc, eo_from_override = fo,
           eo_attachments = atts, eo_sender_account = acct, eo_send_at = send_at,
           eo_priority = prio\<rparr>))))))))))))"

definition enc_email_options :: "text_formats \<Rightarrow> EmailOptions \<Rightarrow> json" where
  "enc_email_options tf o' =
     JObj [(''send_mode'', JStr (send_mode_as_str (eo_send_mode o'))),
           (''group_retry_mode'', JStr (group_retry_mode_as_str (eo_group_retry_mode o'))),
           (''retry_policy'', JStr (retry_policy_name (eo_retry_policy o'))),
           (''recipients'', enc_vec enc_recipient (eo_recipients o')),
           (''cc'', enc_vec enc_recipient (eo_cc o')),
           (''bcc'', enc_vec enc_recipient (eo_bcc o')),
           (''from_override'', enc_option enc_from_override (eo_from_override o')),
           (''attachments'', enc_vec enc_attachment (eo_attachments o')),
           (''sender_account'', enc_option JStr (eo_sender_account o')),
           (''send_at'', enc_option (enc_datetime tf) (eo_send_at o')),
           (''priority'', enc_option enc_u32 (eo_priority o'))]"

definition dec_channel_overrides :: "text_formats \<Rightarrow> json \<Rightarrow> de_error + ChannelOverrides" where
  "dec_channel_overrides tf j =
     and_then (struct_slots [[''email'']] j) (\<lambda>fs.
     and_then (with_default None (dec_option (dec_email_options tf)) (fs ! 0)) (\<lambda>e.
       Ok \<lparr>co_email = e\<rparr>))"

definition enc_channel_overrides :: "text_formats \<Rightarrow> ChannelOverrides \<Rightarrow> json" where
  "enc_channel_overrides tf c = JObj [(''email'', enc_option (enc_email_options tf) (co_email c))]"

definition notification_event_fields :: "string list list" where
  "notification_event_fields =
     [[''event_id''], [''timestamp''], [''event_type''], [''payload''], [''metadata''], [''channel_overrides'']]"

definition dec_event :: "text_formats \<Rightarrow> json \<Rightarrow> de_error + NotificationEvent" where
  "dec_event tf j =
     and_then (struct_slots notification_event_fields j) (\<lambda>fs.
     and_then (required (dec_uuid tf) (fs ! 0)) (\<lambda>eid.
     and_then (required (dec_datetime tf) (fs ! 1)) (\<lambda>ts.
     and_then (required dec_string (fs ! 2)) (\<lambda>ty.
     and_then (required Ok (fs ! 3)) (\<lambda>payload.
     and_then (with_default \<lparr>md_source = None\<rparr> dec_metadata (fs ! 4)) (\<lambda>md.
     and_then (with_default \<lparr>co_email = None\<rparr> (dec_channel_overrides tf) (fs ! 5)) (\<lambda>co.
       Ok \<lparr>ne_event_id = eid, ne_timestamp = ts, ne_event_type = ty, ne_payload = payload,
           ne_metadata = md, ne_channel_overrides = co\<rparr>)))))))"

definition email_event_fields :: "string list list" where
  "email_event_fields =
     [[''event_id''], [''timestamp''], [''event_type''], [''recipients'', ''recipient''], [''payload''],
      [''from_override''], [''metadata''], [''cc''], [''bcc''], [''attachments''], [''sender_account'']]"

definition dec_email_event :: "text_formats \<Rightarrow> json \<Rightarrow> de_error + EmailEvent" where
  "dec_email_event tf j =
     and_then (struct_slots email_event_fields j) (\<lambda>fs.
     and_then (required (dec_uuid tf) (fs ! 0)) (\<lambda>eid.
     and_then (required (dec_datetime tf) (fs ! 1)) (\<lambda>ts.
     and_then (required dec_string (fs ! 2)) (\<lambda>ty.
     and_then (required deserialize_recipients (fs ! 3)) (\<lambda>rcpts.
     and_then (required Ok (fs ! 4)) (\<lambda>payload.
     and_then (with_default None (dec_option dec_from_override) (fs ! 5)) (\<lambda>fo.
     and_then (with_default \<lparr>md_source = None\<rparr> dec_metadata (fs ! 6)) (\<lambda>md.
     and_then (with_default [] (dec_vec dec_recipient) (fs ! 7)) (\<lambda>cc.
     and_then (with_default [] (dec_vec dec_recipient) (fs ! 8)) (\<lambda>bcc.
     and_then (with_default [] (dec_vec dec_attachment) (fs ! 9)) (\<lambda>atts.
     and_then (with_default None (dec_option dec_string) (fs ! 10)) (\<lambda>acct.
       Ok \<lparr>ee_event_id = eid, ee_timestamp = ts, ee_event_type = ty, ee_recipients = rcpts, ee_payload = payload,
           ee_from_override = fo, ee_metadata = md, ee_cc = cc, ee_bcc = bcc, ee_attachments = atts,
           ee_sender_account = acct\<rparr>))))))))))))"

definition enc_event :: "text_formats \<Rightarrow> NotificationEvent \<Rightarrow> json" where
  "enc_event tf e =
     JObj [(''event_id'', JStr (ne_event_id e)),
           (''timestamp'', enc_datetime tf (ne_timestamp e)),
           (''event_type'', JStr (ne_event_type e)),
           (''payload'', ne_payload e),
           (''metadata'', enc_metadata (ne_metadata e)),
           (''channel_overrides'', enc_channel_overrides tf (ne_channel_overrides e))]"

section \<open>Codecs\<close>

lemmas codec_defs = and_then_def map_slot_def

interpretation recipient_codec: json_codec enc_recipient dec_recipient
  by unfold_locales
    (simp_all add: enc_recipient_def dec_recipient_def map_slot_def string_codec.option_round_trip)

interpretation from_override_codec: json_codec enc_from_override dec_from_override
  by unfold_locales
    (simp_all add: enc_from_override_def dec_from_override_def map_slot_def string_codec.option_round_trip)

interpretation metadata_codec: json_codec enc_metadata dec_metadata
  by unfold_locales
    (simp_all add: enc_metadata_def dec_metadata_def map_slot_def string_codec.option_round_trip)

interpretation u64_codec: json_codec enc_u64 dec_u64
  by unfold_locales
    (use unsigned_less [where 'a = int and 'b = 64] in \<open>auto simp: enc_u64_def dec_u64_def\<close>)

interpretation u32_codec: json_codec enc_u32 dec_u32
  by unfold_locales
    (use unsigned_less [where 'a = int and 'b = 32] in \<open>auto simp: enc_u32_def dec_u32_def\<close>)

interpretation attachment_codec: json_codec enc_attachment dec_attachment
  by unfold_locales
    (simp_all add: enc_attachment_def dec_attachment_def map_slot_def string_codec.option_round_trip
      u64_codec.option_round_trip)

text \<open>The timestamps an event carries survive the library's text format.\<close>

definition datetime_text_ok :: "text_formats \<Rightarrow> datetime \<Rightarrow> bool" where
  "datetime_text_ok tf d \<longleftrightarrow> parse_datetime tf (format_datetime tf d) = Some d"

definition event_text_ok :: "text_formats \<Rightarrow> NotificationEvent \<Rightarrow> bool" where
  "event_text_ok tf e \<longleftrightarrow>
     parse_uuid tf (ne_event_id e) = Some (ne_event_id e) \<and> datetime_text_ok tf (ne_timestamp e) \<and>
     (case co_email (ne_channel_overrides e) of
        None \<Rightarrow> True
      | Some eo \<Rightarrow> (case eo_send_at eo of None \<Rightarrow> True | Some d \<Rightarrow> datetime_text_ok tf d))"

lemma datetime_round_trip: "datetime_text_ok tf d \<Longrightarrow> dec_datetime tf (enc_datetime tf d) = Ok d"
  by (simp add: datetime_text_ok_def dec_datetime_def enc_datetime_def)

lemma datetime_option_round_trip:
  "(case m of None \<Rightarrow> True | Some d \<Rightarrow> datetime_text_ok tf d) \<Longrightarrow>
   dec_option (dec_datetime tf) (enc_option (enc_datetime tf) m) = Ok m"
  by (cases m) (simp_all add: datetime_text_ok_def dec_datetime_def enc_datetime_def)

lemma send_mode_lookup [simp]: "map_of send_mode_variants (send_mode_as_str m) = Some m"
  by (cases m) (simp_all add: send_mode_variants_def)

lemma group_retry_mode_lookup [simp]:
  "map_of group_retry_mode_variants (group_retry_mode_as_str g) = Some g"
  by (cases g) (simp_all add: group_retry_mode_variants_def)

lemma retry_policy_lookup [simp]: "map_of retry_policy_variants (retry_policy_name p) = Some p"
  by (cases p) (simp_all add: retry_policy_variants_def)

lemma deserialize_recipients_array:
  "deserialize_recipients (enc_vec enc_recipient rs) = Ok rs"
  using recipient_codec.vec_round_trip [of rs] by (simp add: enc_vec_def)

lemmas option_vec_round_trips =
  string_codec.option_round_trip from_override_codec.option_round_trip u32_codec.option_round_trip
  recipient_codec.vec_round_trip attachment_codec.vec_round_trip deserialize_recipients_array
  metadata_codec.dec_enc

lemma email_options_round_trip:
  assumes "case eo_send_at o' of None \<Rightarrow> True | Some d \<Rightarrow> datetime_text_ok tf d"
  shows "dec_email_options tf (enc_email_options tf o') = Ok o'"
  using datetime_option_round_trip [OF assms]
  by (simp add: dec_email_options_def enc_email_options_def email_options_fields_def map_slot_def
      option_vec_round_trips)

lemma channel_overrides_round_trip:
  assumes "case co_email c of None \<Rightarrow> True
    | Some eo \<Rightarrow> (case eo_send_at eo of None \<Rightarrow> True | Some d \<Rightarrow> datetime_text_ok tf d)"
  shows "dec_channel_overrides tf (enc_channel_overrides tf c) = Ok c"
proof (cases "co_email c")
  case None
  then show ?thesis by (simp add: dec_channel_overrides_def enc_channel_overrides_def map_slot_def)
next
  case (Some eo)
  with assms email_options_round_trip [of tf eo] have "dec_email_options tf (enc_email_options tf eo) = Ok eo"
    by simp
  with Some show ?thesis
    by (simp add: dec_channel_overrides_def enc_channel_overrides_def map_slot_def enc_email_options_def)
qed

lemma dec_enc_event:
  assumes "event_text_ok tf e"
  shows "dec_event tf (enc_event tf e) = Ok e"
  using assms channel_overrides_round_trip [of tf "ne_channel_overrides e"] datetime_round_trip [of tf "ne_timestamp e"]
  by (simp add: event_text_ok_def dec_event_def enc_event_def notification_event_fields_def map_slot_def
      dec_uuid_def option_vec_round_trips)

section \<open>Properties\<close>

text \<open>
  C34. Wire round trip: whatever event a publisher (the API or the outbox) serialises, the
  consumer's decoder reads back exactly, field by field, provided its id and timestamps survive
  their library text formats.
\<close>

theorem event_wire_round_trip:
  assumes "event_text_ok tf e"
  shows "dec_event tf (enc_event tf e) = Ok e"
  by (rule dec_enc_event [OF assms])

definition sample_formats :: text_formats where
  "sample_formats = \<lparr>parse_uuid = Some, parse_datetime = (\<lambda>s. if s = ''t'' then Some 7 else None),
     format_datetime = (\<lambda>_. ''t'')\<rparr>"

definition sample_event :: NotificationEvent where
  "sample_event =
     \<lparr>ne_event_id = ''e1'', ne_timestamp = 7, ne_event_type = ''ORDER_CONFIRMATION'',
      ne_payload = JObj [(''order_id'', JStr ''123'')], ne_metadata = \<lparr>md_source = Some ''shop''\<rparr>,
      ne_channel_overrides = \<lparr>co_email = Some
        \<lparr>eo_send_mode = SendGroup, eo_group_retry_mode = RetryIndividual, eo_retry_policy = NoRetry,
         eo_recipients = [\<lparr>r_email = ''a@x.org'', r_name = None\<rparr>, \<lparr>r_email = ''b@x.org'', r_name = Some ''B''\<rparr>],
         eo_cc = [], eo_bcc = [], eo_from_override = None,
         eo_attachments = [\<lparr>a_url = ''https://h/f'', a_filename = ''f'', a_content_type = ''text/plain'',
           a_fetch_token = None, a_max_age_secs = Some 60\<rparr>],
         eo_sender_account = None, eo_send_at = Some 7, eo_priority = Some 3\<rparr>\<rparr>\<rparr>"

theorem event_wire_round_trip_witness:
  "event_text_ok sample_formats sample_event \<and>
   dec_event sample_formats (enc_event sample_formats sample_event) = Ok sample_event"
proof -
  have "event_text_ok sample_formats sample_event"
    by (simp add: event_text_ok_def sample_event_def sample_formats_def datetime_text_ok_def)
  with event_wire_round_trip show ?thesis by blast
qed

text \<open>
  Legacy compatibility: an options object that carries its only recipient under the singular
  key, or its recipient list under either key, decodes to the same options as the plural list
  form; giving both keys at once is refused, and so is a null recipient, instead of the address
  being lost.
\<close>

theorem legacy_recipient_key:
  "dec_email_options tf (JObj [(''recipient'', enc_recipient r)]) =
     dec_email_options tf (JObj [(''recipients'', enc_vec enc_recipient [r])]) \<and>
   dec_email_options tf (JObj [(''recipient'', enc_vec enc_recipient rs)]) =
     dec_email_options tf (JObj [(''recipients'', enc_vec enc_recipient rs)]) \<and>
   map_sum id eo_recipients (dec_email_options tf (JObj [(''recipients'', enc_vec enc_recipient rs)])) = Ok rs \<and>
   dec_email_options tf (JObj [(''recipient'', v), (''recipients'', v')]) = Err (DuplicateField ''recipients'') \<and>
   dec_email_options tf (JObj [(''recipient'', JNull)]) = Err InvalidType"
proof -
  have "deserialize_recipients (enc_recipient r) = Ok [r]"
    using recipient_codec.dec_enc [of r] by (simp add: enc_recipient_def)
  then show ?thesis
    by (simp add: dec_email_options_def email_options_fields_def map_slot_def deserialize_recipients_array)
qed

text \<open>The exact condition under which the metadata of an attachment is accepted.\<close>

definition attachment_acceptable :: "AttachmentRef \<Rightarrow> datetime \<Rightarrow> datetime \<Rightarrow> bool" where
  "attachment_acceptable a ts now \<longleftrightarrow>
     (starts_with ''http://'' (a_url a) \<or> starts_with ''https://'' (a_url a)) \<and>
     a_filename a \<noteq> [] \<and> CHR ''/'' \<notin> set (a_filename a) \<and> CHR 0x5C \<notin> set (a_filename a) \<and>
     CHR ''/'' \<in> set (a_content_type a) \<and>
     (case a_max_age_secs a of None \<Rightarrow> True
      | Some m \<Rightarrow> now - ts < (int (unat m) + 1) * 1000000000)"

lemma div_le_iff_lt: "0 < b \<Longrightarrow> a div b \<le> u \<longleftrightarrow> a < (u + 1) * b" for a b u :: int
proof -
  assume b: "0 < b"
  have a: "a = b * (a div b) + a mod b" "0 \<le> a mod b" "a mod b < b" using b by simp_all
  show ?thesis
  proof
    assume "a div b \<le> u"
    then have "b * (a div b) \<le> b * u" using b by simp
    with a have "a < b * u + b" by linarith
    then show "a < (u + 1) * b" by (simp add: algebra_simps)
  next
    assume "a < (u + 1) * b"
    then have "a < b * (u + 1)" by (simp only: mult.commute)
    with a have "b * (a div b) < b * (u + 1)" by linarith
    with b show "a div b \<le> u" by simp
  qed
qed

lemma age_le_iff:
  fixes m :: u64
  assumes "num_seconds (now - ts) < 2 ^ 63"
  shows "(word_of_int (max 0 (num_seconds (now - ts))) :: u64) \<le> m \<longleftrightarrow>
    now - ts < (int (unat m) + 1) * 1000000000"
proof -
  define s where "s = max 0 (num_seconds (now - ts))"
  have "0 \<le> s" "s < 2 ^ 64" using assms by (auto simp: s_def)
  then have "uint (word_of_int s :: u64) = s"
    by (simp add: uint_word_of_int_eq take_bit_int_eq_self)
  then have "(word_of_int s :: u64) \<le> m \<longleftrightarrow> s \<le> uint m" by (simp add: word_le_def)
  also have "\<dots> \<longleftrightarrow> now - ts < (uint m + 1) * 1000000000"
  proof (cases "now < ts")
    case True
    then have "s = 0" using trunc_div_neg [of "now - ts" 1000000000]
      by (auto simp: s_def num_seconds_def)
    moreover have "0 \<le> (uint m + 1) * 1000000000" by simp
    with True have "now - ts < (uint m + 1) * 1000000000" by linarith
    with calculation show ?thesis by simp
  next
    case False
    then have "s = (now - ts) div 1000000000"
      by (auto simp: s_def num_seconds_def pos_imp_zdiv_nonneg_iff)
    moreover have "(now - ts) div 1000000000 \<le> u \<longleftrightarrow> now - ts < (u + 1) * 1000000000" for u
      by (simp add: div_le_iff_lt)
    ultimately show ?thesis by simp
  qed
  finally show ?thesis by (simp only: s_def uint_nat)
qed

text \<open>
  The attachment metadata check accepts exactly the attachments with an http or https URL,
  a non-empty file name without path separators, a content type with a slash and an age below
  the limit (strictly less than limit plus one second, because the age is truncated to whole
  seconds; a timestamp in the future is never expired); every refusal is marked permanent. The
  hypothesis is the range of a chrono duration in seconds.
\<close>

lemma attachment_validate_correct:
  assumes "num_seconds (now - ts) < 2 ^ 63"
  shows "(attachment_validate a ts now = Ok () \<longleftrightarrow> attachment_acceptable a ts now) \<and>
    (\<forall>e. attachment_validate a ts now = Err e \<longrightarrow> starts_with ''permanent: '' e)"
proof -
  have nil: "\<not> starts_with ''http://'' []" "\<not> starts_with ''https://'' []" by simp_all
  show ?thesis
    unfolding attachment_validate_def attachment_acceptable_def Let_def
    by (cases "a_max_age_secs a") (auto simp flip: not_le simp: age_le_iff [OF assms] nil split: if_splits)
qed

text \<open>
  The legacy envelope is never promoted: every JSON object that decodes as the legacy flat
  envelope and has no \<^verbatim>\<open>channel_overrides\<close> key also decodes as the new envelope, with no email
  options, because the new envelope's extra fields all have defaults and unknown keys are ignored.
  The decoder that tries the new shape first therefore always stops there, and the recipients of a
  legacy publisher are dropped.
\<close>

lemma legacy_envelope_shadowed:
  assumes "dec_email_event tf (JObj kvs) = Ok legacy" "''channel_overrides'' \<notin> fst ` set kvs"
  shows "\<exists>e. dec_event tf (JObj kvs) = Ok e \<and> ne_event_id e = ee_event_id legacy \<and>
    co_email (ne_channel_overrides e) = None"
proof -
  have co: "map_slot kvs [''channel_overrides''] = Ok AbsentInMap"
  proof -
    have "filter (\<lambda>kv. fst kv \<in> set [''channel_overrides'']) kvs = []"
      using assms(2) by (auto simp: filter_empty_conv image_iff)
    then show ?thesis unfolding map_slot_def by (simp only: list.case)
  qed
  show ?thesis
    using assms(1) co
    by (auto simp: dec_email_event_def dec_event_def email_event_fields_def notification_event_fields_def
        and_then_Inr_iff split: sum.splits)
qed

definition legacy_json :: "(string \<times> json) list" where
  "legacy_json = [(''event_id'', JStr ''e1''), (''timestamp'', JStr ''t''), (''event_type'', JStr ''ORDER''),
     (''recipient'', JObj [(''email'', JStr ''a@x.org'')]), (''payload'', JObj [])]"

lemma legacy_envelope_shadowed_witness:
  "\<exists>legacy. dec_email_event sample_formats (JObj legacy_json) = Ok legacy \<and> ee_recipients legacy \<noteq> [] \<and>
     (\<exists>e. dec_event sample_formats (JObj legacy_json) = Ok e \<and> co_email (ne_channel_overrides e) = None)"
proof -
  obtain legacy where l: "dec_email_event sample_formats (JObj legacy_json) = Ok legacy" "ee_recipients legacy \<noteq> []"
    by (simp add: dec_email_event_def email_event_fields_def legacy_json_def map_slot_def dec_uuid_def dec_datetime_def
        sample_formats_def dec_recipient_def)
  moreover have "''channel_overrides'' \<notin> fst ` set legacy_json" by (simp add: legacy_json_def)
  ultimately show ?thesis using legacy_envelope_shadowed [OF l(1)] by blast
qed

end
