(* ===== verification/Notification_Log.thy ===== *)
theory Notification_Log
  imports Json
begin

text \<open>
  \<^verbatim>\<open>crates/store/src/notification_log.rs\<close>: the delivery log, two PostgreSQL tables behind the
  \<^verbatim>\<open>NotificationStore\<close> trait. A table is the list of its rows; \<^verbatim>\<open>UPDATE ... WHERE\<close> maps over
  the matching rows and reports their number, \<^verbatim>\<open>SELECT\<close> filters, sorts stably and truncates. The
  row id, which the database generates, is drawn from a counter. Every operation takes the
  database's answer to the statement: \<open>Some e\<close> is a failed statement or transaction (the
  tables are unchanged and the caller gets the database error \<open>e\<close>), \<open>None\<close> is success; the
  integer range of the counters and the check constraints of the schema are modelled. Database
  time \<^verbatim>\<open>now()\<close> is an argument.
\<close>

section \<open>Tables and results\<close>

datatype InsertResult = Inserted | Duplicate int string

record notification_row =
  n_id :: nat
  n_event_id :: uuid
  n_event_type :: string
  n_channel :: string
  n_recipient_id :: string
  n_status :: string
  n_retry_count :: int
  n_total_attempts :: int
  n_last_error :: "string option"
  n_payload :: json
  n_event_timestamp :: datetime
  n_created_at :: datetime
  n_updated_at :: datetime

record email_row =
  e_notification_id :: nat
  e_recipient_email :: string
  e_recipient_name :: "string option"
  e_from_override :: "json option"
  e_sender_account :: "string option"
  e_send_mode :: "string option"
  e_group_retry_mode :: "string option"
  e_cc :: "json option"
  e_bcc :: "json option"
  e_attachments :: "json option"
  e_to_recipients :: "json option"

record log_db =
  notification_log :: "notification_row list"
  email_notification_log :: "email_row list"
  next_id :: nat

record EmailInsertPendingArgs =
  p_event_id :: uuid
  p_event_type :: string
  p_recipient_email :: string
  p_payload :: json
  p_event_timestamp :: datetime
  p_recipient_name :: "string option"
  p_from_override :: "json option"
  p_attachments :: "json option"
  p_sender_account :: "string option"
  p_cc :: "json option"
  p_bcc :: "json option"
  p_send_mode :: string
  p_group_retry_mode :: "string option"
  p_to_recipients :: "json option"

record NotificationLog =
  l_id :: nat
  l_event_id :: uuid
  l_event_type :: string
  l_channel :: string
  l_status :: NotificationStatus
  l_retry_count :: int
  l_total_attempts :: int
  l_last_error :: "string option"
  l_payload :: "json option"
  l_event_timestamp :: "datetime option"
  l_created_at :: datetime
  l_updated_at :: datetime
  l_recipient_email :: string
  l_recipient_name :: "string option"
  l_from_override :: "json option"
  l_sender_account :: "string option"
  l_send_mode :: "string option"
  l_group_retry_mode :: "string option"
  l_attachments :: "json option"
  l_cc :: "json option"
  l_bcc :: "json option"
  l_to_recipients :: "json option"

text \<open>The two halves of an entry: \<^verbatim>\<open>NotificationLog::core\<close> and \<^verbatim>\<open>email_detail\<close>.\<close>

record NotificationCore =
  k_id :: nat
  k_event_id :: uuid
  k_event_type :: string
  k_channel :: string
  k_recipient_id :: string
  k_status :: NotificationStatus
  k_retry_count :: int
  k_total_attempts :: int
  k_last_error :: "string option"
  k_payload :: "json option"
  k_event_timestamp :: "datetime option"
  k_created_at :: datetime
  k_updated_at :: datetime

record EmailDeliveryDetail =
  ed_recipient_email :: string
  ed_recipient_name :: "string option"
  ed_from_override :: "json option"
  ed_sender_account :: "string option"
  ed_send_mode :: "string option"
  ed_group_retry_mode :: "string option"
  ed_attachments :: "json option"
  ed_cc :: "json option"
  ed_bcc :: "json option"
  ed_to_recipients :: "json option"

definition log_core :: "NotificationLog \<Rightarrow> NotificationCore" where
  "log_core l =
     \<lparr>k_id = l_id l, k_event_id = l_event_id l, k_event_type = l_event_type l, k_channel = l_channel l,
      k_recipient_id = l_recipient_email l, k_status = l_status l, k_retry_count = l_retry_count l,
      k_total_attempts = l_total_attempts l, k_last_error = l_last_error l, k_payload = l_payload l,
      k_event_timestamp = l_event_timestamp l, k_created_at = l_created_at l, k_updated_at = l_updated_at l\<rparr>"

definition email_detail :: "NotificationLog \<Rightarrow> EmailDeliveryDetail" where
  "email_detail l =
     \<lparr>ed_recipient_email = l_recipient_email l, ed_recipient_name = l_recipient_name l, ed_from_override = l_from_override l,
      ed_sender_account = l_sender_account l, ed_send_mode = l_send_mode l, ed_group_retry_mode = l_group_retry_mode l,
      ed_attachments = l_attachments l, ed_cc = l_cc l, ed_bcc = l_bcc l, ed_to_recipients = l_to_recipients l\<rparr>"

text \<open>Nothing of an entry is lost between them.\<close>

lemma halves_determine_log: "log_core a = log_core b \<and> email_detail a = email_detail b \<longleftrightarrow> a = b"
  by (cases a; cases b) (auto simp: log_core_def email_detail_def)

record EventDeliveryDetail =
  d_event_type :: string
  d_payload :: json
  d_event_timestamp :: datetime
  d_earliest_created_at :: datetime
  d_from_override :: "json option"
  d_sender_account :: "string option"
  d_send_mode :: "string option"
  d_group_retry_mode :: "string option"
  d_attachments :: "json option"
  d_cc :: "json option"
  d_bcc :: "json option"

type_synonym db_fault = "string option"
type_synonym 'a db_result = "(AppError + 'a) \<times> log_db"

definition CHANNEL_EMAIL :: string where
  "CHANNEL_EMAIL = ''email''"

text \<open>The texts PostgreSQL reports for the errors that depend on the data.\<close>

definition integer_out_of_range :: AppError where
  "integer_out_of_range = Database ''integer out of range''"

definition check_violation :: AppError where
  "check_violation = Database ''check constraint violated''"

text \<open>The earliest timestamp PostgreSQL represents, 4714-11-24 BC.\<close>

definition pg_timestamp_min :: datetime where
  "pg_timestamp_min = - 210866803200 * 1000000000"

section \<open>Statements\<close>

definition row_key :: "uuid \<Rightarrow> string \<Rightarrow> notification_row \<Rightarrow> bool" where
  "row_key ev rcpt r \<longleftrightarrow> n_event_id r = ev \<and> n_channel r = CHANNEL_EMAIL \<and> n_recipient_id r = rcpt"

definition find_row :: "log_db \<Rightarrow> uuid \<Rightarrow> string \<Rightarrow> notification_row option" where
  "find_row db ev rcpt = find (row_key ev rcpt) (notification_log db)"

definition update_where ::
  "(notification_row \<Rightarrow> bool) \<Rightarrow> (notification_row \<Rightarrow> notification_row) \<Rightarrow> log_db \<Rightarrow> log_db" where
  "update_where P f db =
     db\<lparr>notification_log := map (\<lambda>r. if P r then f r else r) (notification_log db)\<rparr>"

definition rows_affected :: "(notification_row \<Rightarrow> bool) \<Rightarrow> log_db \<Rightarrow> nat" where
  "rows_affected P db = length (filter P (notification_log db))"

text \<open>A schema check that an updated counter leaves the range of \<^verbatim>\<open>INT\<close> aborts the statement.\<close>

definition counter_overflow ::
  "(notification_row \<Rightarrow> bool) \<Rightarrow> (notification_row \<Rightarrow> notification_row) \<Rightarrow> log_db \<Rightarrow> bool" where
  "counter_overflow P f db \<longleftrightarrow>
     (\<exists>r \<in> set (notification_log db). P r \<and>
        (n_retry_count (f r) > int4_max \<or> n_total_attempts (f r) > int4_max))"

definition new_row :: "datetime \<Rightarrow> EmailInsertPendingArgs \<Rightarrow> nat \<Rightarrow> notification_row" where
  "new_row now a i =
     \<lparr>n_id = i, n_event_id = p_event_id a, n_event_type = p_event_type a, n_channel = CHANNEL_EMAIL,
      n_recipient_id = p_recipient_email a, n_status = ''PENDING'', n_retry_count = 0,
      n_total_attempts = 0, n_last_error = None, n_payload = p_payload a,
      n_event_timestamp = p_event_timestamp a, n_created_at = now, n_updated_at = now\<rparr>"

definition new_email_row :: "EmailInsertPendingArgs \<Rightarrow> nat \<Rightarrow> email_row" where
  "new_email_row a i =
     \<lparr>e_notification_id = i, e_recipient_email = p_recipient_email a,
      e_recipient_name = p_recipient_name a, e_from_override = p_from_override a,
      e_sender_account = p_sender_account a, e_send_mode = Some (p_send_mode a),
      e_group_retry_mode = p_group_retry_mode a, e_cc = p_cc a, e_bcc = p_bcc a,
      e_attachments = p_attachments a, e_to_recipients = p_to_recipients a\<rparr>"

definition email_row_check :: "email_row \<Rightarrow> bool" where
  "email_row_check e \<longleftrightarrow>
     (case e_send_mode e of None \<Rightarrow> True | Some m \<Rightarrow> m = ''individual'' \<or> m = ''group'') \<and>
     (case e_group_retry_mode e of None \<Rightarrow> True | Some m \<Rightarrow> m = ''whole'' \<or> m = ''individual'')"

text \<open>The two statements of one insert: the upsert and, when it inserted, the detail row.\<close>

definition insert_stmts :: "datetime \<Rightarrow> EmailInsertPendingArgs \<Rightarrow> log_db \<Rightarrow> AppError + (InsertResult \<times> log_db)" where
  "insert_stmts now a db =
     (case find_row db (p_event_id a) (p_recipient_email a) of
        Some r \<Rightarrow> Ok (Duplicate (n_retry_count r) (n_status r), db)
      | None \<Rightarrow>
          let i = next_id db; e = new_email_row a i
          in if \<not> email_row_check e then Err check_violation
             else Ok (Inserted, db\<lparr>notification_log := notification_log db @ [new_row now a i],
                                   email_notification_log := email_notification_log db @ [e],
                                   next_id := Suc i\<rparr>))"

section \<open>Operations\<close>

definition insert_pending :: "db_fault \<Rightarrow> datetime \<Rightarrow> EmailInsertPendingArgs \<Rightarrow> log_db \<Rightarrow> InsertResult db_result" where
  "insert_pending fault now a db =
     (case fault of
        Some e \<Rightarrow> (Err (Database e), db)
      | None \<Rightarrow> (case insert_stmts now a db of Inl e \<Rightarrow> (Err e, db) | Inr (res, db') \<Rightarrow> (Ok res, db')))"

fun insert_batch_stmts ::
  "datetime \<Rightarrow> EmailInsertPendingArgs list \<Rightarrow> log_db \<Rightarrow> AppError + (InsertResult list \<times> log_db)" where
  "insert_batch_stmts now [] db = Ok ([], db)"
| "insert_batch_stmts now (a # as) db =
     (case insert_stmts now a db of
        Inl e \<Rightarrow> Err e
      | Inr (res, db') \<Rightarrow>
          (case insert_batch_stmts now as db' of
             Inl e \<Rightarrow> Err e
           | Inr (ress, db'') \<Rightarrow> Ok (res # ress, db'')))"

definition insert_pending_batch ::
  "db_fault \<Rightarrow> datetime \<Rightarrow> EmailInsertPendingArgs list \<Rightarrow> log_db \<Rightarrow> InsertResult list db_result" where
  "insert_pending_batch fault now as db =
     (case fault of
        Some e \<Rightarrow> (Err (Database e), db)
      | None \<Rightarrow> (case insert_batch_stmts now as db of Inl e \<Rightarrow> (Err e, db) | Inr (res, db') \<Rightarrow> (Ok res, db')))"

text \<open>The default of the trait: one transaction per row, so a failure leaves the earlier rows written.\<close>

fun insert_pending_batch_default ::
  "db_fault list \<Rightarrow> datetime \<Rightarrow> EmailInsertPendingArgs list \<Rightarrow> log_db \<Rightarrow> InsertResult list db_result" where
  "insert_pending_batch_default faults now [] db = (Ok [], db)"
| "insert_pending_batch_default faults now (a # as) db =
     (case insert_pending (case faults of [] \<Rightarrow> None | f # _ \<Rightarrow> f) now a db of
        (Inl e, db') \<Rightarrow> (Err e, db')
      | (Inr res, db') \<Rightarrow>
          (case insert_pending_batch_default (tl faults) now as db' of
             (Inl e, db'') \<Rightarrow> (Err e, db'')
           | (Inr ress, db'') \<Rightarrow> (Ok (res # ress), db'')))"

text \<open>A keyed \<^verbatim>\<open>UPDATE\<close> that turns "no row" into a not-found error.\<close>

definition update_key ::
  "db_fault \<Rightarrow> (notification_row \<Rightarrow> bool) \<Rightarrow> (notification_row \<Rightarrow> notification_row) \<Rightarrow> string \<Rightarrow> log_db \<Rightarrow> unit db_result" where
  "update_key fault P f not_found db =
     (case fault of
        Some e \<Rightarrow> (Err (Database e), db)
      | None \<Rightarrow>
          if counter_overflow P f db then (Err integer_out_of_range, db)
          else if rows_affected P db = 0 then (Err (NotFound not_found), db)
          else (Ok (), update_where P f db))"

definition sent_update :: "datetime \<Rightarrow> notification_row \<Rightarrow> notification_row" where
  "sent_update now r =
     r\<lparr>n_status := ''SENT'', n_total_attempts := n_total_attempts r + 1, n_updated_at := now\<rparr>"

definition mark_sent :: "db_fault \<Rightarrow> datetime \<Rightarrow> uuid \<Rightarrow> string \<Rightarrow> log_db \<Rightarrow> unit db_result" where
  "mark_sent fault now ev rcpt =
     update_key fault (row_key ev rcpt) (sent_update now) (''mark_sent: no row for '' @ ev @ ''/'' @ rcpt)"

definition failed_update :: "datetime \<Rightarrow> string \<Rightarrow> bool \<Rightarrow> notification_row \<Rightarrow> notification_row" where
  "failed_update now msg exhausted r =
     r\<lparr>n_retry_count := n_retry_count r + 1, n_total_attempts := n_total_attempts r + 1,
       n_last_error := Some msg, n_status := (if exhausted then ''FAILED'' else ''PENDING''),
       n_updated_at := now\<rparr>"

definition mark_failed ::
  "db_fault \<Rightarrow> datetime \<Rightarrow> uuid \<Rightarrow> string \<Rightarrow> string \<Rightarrow> bool \<Rightarrow> log_db \<Rightarrow> unit db_result" where
  "mark_failed fault now ev rcpt msg exhausted =
     update_key fault (row_key ev rcpt) (failed_update now msg exhausted)
       (''mark_failed: no row for '' @ ev @ ''/'' @ rcpt)"

definition blocked_update :: "datetime \<Rightarrow> string \<Rightarrow> notification_row \<Rightarrow> notification_row" where
  "blocked_update now reason r =
     r\<lparr>n_status := ''BLOCKED'', n_last_error := Some reason, n_updated_at := now\<rparr>"

definition mark_blocked :: "db_fault \<Rightarrow> datetime \<Rightarrow> uuid \<Rightarrow> string \<Rightarrow> string \<Rightarrow> log_db \<Rightarrow> unit db_result" where
  "mark_blocked fault now ev rcpt reason =
     update_key fault (row_key ev rcpt) (blocked_update now reason)
       (''mark_blocked: no row for '' @ ev @ ''/'' @ rcpt)"

definition skipped_row ::
  "datetime \<Rightarrow> uuid \<Rightarrow> string \<Rightarrow> string \<Rightarrow> string \<Rightarrow> datetime \<Rightarrow> json \<Rightarrow> nat \<Rightarrow> notification_row" where
  "skipped_row now ev ty rcpt reason ts payload i =
     \<lparr>n_id = i, n_event_id = ev, n_event_type = ty, n_channel = CHANNEL_EMAIL, n_recipient_id = rcpt,
      n_status = ''SKIPPED'', n_retry_count = 0, n_total_attempts = 0, n_last_error = Some reason,
      n_payload = payload, n_event_timestamp = ts, n_created_at = now, n_updated_at = now\<rparr>"

definition mark_skipped ::
  "db_fault \<Rightarrow> datetime \<Rightarrow> uuid \<Rightarrow> string \<Rightarrow> string \<Rightarrow> string \<Rightarrow> datetime \<Rightarrow> json \<Rightarrow> log_db \<Rightarrow> unit db_result" where
  "mark_skipped fault now ev ty rcpt reason ts payload db =
     (case fault of
        Some e \<Rightarrow> (Err (Database e), db)
      | None \<Rightarrow>
          (case find_row db ev rcpt of
             Some _ \<Rightarrow> (Ok (), db)
           | None \<Rightarrow>
               (Ok (), db\<lparr>notification_log := notification_log db @
                            [skipped_row now ev ty rcpt reason ts payload (next_id db)],
                          next_id := Suc (next_id db)\<rparr>)))"

definition retry_update :: "datetime \<Rightarrow> notification_row \<Rightarrow> notification_row" where
  "retry_update now r =
     r\<lparr>n_status := ''PENDING'', n_retry_count := 0, n_last_error := None, n_updated_at := now\<rparr>"

definition reset_for_retry :: "db_fault \<Rightarrow> datetime \<Rightarrow> uuid \<Rightarrow> string \<Rightarrow> log_db \<Rightarrow> unit db_result" where
  "reset_for_retry fault now ev rcpt =
     update_key fault (\<lambda>r. row_key ev rcpt r \<and> (n_status r = ''FAILED'' \<or> n_status r = ''BLOCKED''))
       (retry_update now) (''No FAILED or BLOCKED record for '' @ ev @ ''/'' @ rcpt)"

definition failed_of_event :: "uuid \<Rightarrow> notification_row \<Rightarrow> bool" where
  "failed_of_event ev r \<longleftrightarrow> n_event_id r = ev \<and> n_channel r = CHANNEL_EMAIL \<and> n_status r = ''FAILED''"

definition reset_all_failed_for_event :: "db_fault \<Rightarrow> datetime \<Rightarrow> uuid \<Rightarrow> log_db \<Rightarrow> string list db_result" where
  "reset_all_failed_for_event fault now ev db =
     (case fault of
        Some e \<Rightarrow> (Err (Database e), db)
      | None \<Rightarrow>
          (Ok (map n_recipient_id (filter (failed_of_event ev) (notification_log db))),
           update_where (failed_of_event ev) (retry_update now) db))"

definition pending_among :: "uuid \<Rightarrow> string list \<Rightarrow> notification_row \<Rightarrow> bool" where
  "pending_among ev rcpts r \<longleftrightarrow>
     n_event_id r = ev \<and> n_channel r = CHANNEL_EMAIL \<and> n_recipient_id r \<in> set rcpts \<and> n_status r = ''PENDING''"

definition revert_update :: "datetime \<Rightarrow> string \<Rightarrow> notification_row \<Rightarrow> notification_row" where
  "revert_update now reason r =
     r\<lparr>n_status := ''FAILED'', n_last_error := Some reason, n_updated_at := now\<rparr>"

definition revert_to_failed :: "db_fault \<Rightarrow> datetime \<Rightarrow> uuid \<Rightarrow> string list \<Rightarrow> string \<Rightarrow> log_db \<Rightarrow> nat db_result" where
  "revert_to_failed fault now ev rcpts reason db =
     (case fault of
        Some e \<Rightarrow> (Err (Database e), db)
      | None \<Rightarrow>
          (Ok (rows_affected (pending_among ev rcpts) db),
           update_where (pending_among ev rcpts) (revert_update now reason) db))"

definition reaper_message :: string where
  "reaper_message =
     ''Orphaned by stale-PENDING reaper: PENDING row exceeded timeout with no AMQP message to drive it. Trigger a manual retry when the broker is healthy.''"

definition stale_pending :: "datetime \<Rightarrow> u64 \<Rightarrow> notification_row \<Rightarrow> bool" where
  "stale_pending now timeout_secs r \<longleftrightarrow>
     n_status r = ''PENDING'' \<and> n_channel r = CHANNEL_EMAIL \<and>
     n_updated_at r < now - int (unat timeout_secs) * 1000000000"

text \<open>Keeping the first occurrence of each event id, as the \<^verbatim>\<open>HashSet\<close> filter does.\<close>

fun first_occurrences :: "'a list \<Rightarrow> 'a set \<Rightarrow> 'a list" where
  "first_occurrences [] seen = []"
| "first_occurrences (x # xs) seen =
     (if x \<in> seen then first_occurrences xs seen else x # first_occurrences xs (insert x seen))"

definition reap_stale_pending :: "db_fault \<Rightarrow> datetime \<Rightarrow> u64 \<Rightarrow> log_db \<Rightarrow> uuid list db_result" where
  "reap_stale_pending fault now timeout_secs db =
     (case fault of
        Some e \<Rightarrow> (Err (Database e), db)
      | None \<Rightarrow>
          if now - int (unat timeout_secs) * 1000000000 < pg_timestamp_min
          then (Err (Database ''timestamp out of range''), db)
          else
            (Ok (first_occurrences (map n_event_id (filter (stale_pending now timeout_secs) (notification_log db))) {}),
             update_where (stale_pending now timeout_secs) (revert_update now reaper_message) db))"

section \<open>Queries\<close>

definition email_detail_of :: "log_db \<Rightarrow> notification_row \<Rightarrow> email_row option" where
  "email_detail_of db r = find (\<lambda>e. e_notification_id e = n_id r) (email_notification_log db)"

definition coalesced_email :: "log_db \<Rightarrow> notification_row \<Rightarrow> string" where
  "coalesced_email db r =
     (case email_detail_of db r of Some e \<Rightarrow> e_recipient_email e | None \<Rightarrow> n_recipient_id r)"

definition to_log :: "log_db \<Rightarrow> notification_row \<Rightarrow> AppError + NotificationLog" where
  "to_log db r =
     (let e = email_detail_of db r
      in case status_try_from (n_status r) of
           Inl err \<Rightarrow> Err err
         | Inr st \<Rightarrow> Ok
             \<lparr>l_id = n_id r, l_event_id = n_event_id r, l_event_type = n_event_type r,
              l_channel = CHANNEL_EMAIL, l_status = st, l_retry_count = n_retry_count r,
              l_total_attempts = n_total_attempts r, l_last_error = n_last_error r,
              l_payload = Some (n_payload r), l_event_timestamp = Some (n_event_timestamp r),
              l_created_at = n_created_at r, l_updated_at = n_updated_at r,
              l_recipient_email = coalesced_email db r,
              l_recipient_name = Option.bind e e_recipient_name,
              l_from_override = Option.bind e e_from_override,
              l_sender_account = Option.bind e e_sender_account,
              l_send_mode = Option.bind e e_send_mode,
              l_group_retry_mode = Option.bind e e_group_retry_mode,
              l_attachments = Option.bind e e_attachments,
              l_cc = Option.bind e e_cc, l_bcc = Option.bind e e_bcc,
              l_to_recipients = Option.bind e e_to_recipients\<rparr>)"

definition of_event :: "uuid \<Rightarrow> notification_row \<Rightarrow> bool" where
  "of_event ev r \<longleftrightarrow> n_event_id r = ev \<and> n_channel r = CHANNEL_EMAIL"

text \<open>
  The rows of an event by creation time. A table is listed in the order in which a statement happens to scan it, and
  \<^verbatim>\<open>ORDER BY created_at\<close> leaves rows of one time (a batch inserts all of its rows with one \<^verbatim>\<open>now()\<close>) in that order; two statements may scan
  the same rows differently, so what compares them takes two listings.
\<close>

definition event_rows :: "log_db \<Rightarrow> uuid \<Rightarrow> notification_row list" where
  "event_rows db ev = sort_key n_created_at (filter (of_event ev) (notification_log db))"

definition get_by_event_id :: "db_fault \<Rightarrow> uuid \<Rightarrow> log_db \<Rightarrow> AppError + NotificationLog list" where
  "get_by_event_id fault ev db =
     (case fault of
        Some e \<Rightarrow> Err (Database e)
      | None \<Rightarrow>
          let rows = take 500 (event_rows db ev)
          in if rows = [] then Err (NotFound ev) else collect_results (to_log db) rows)"

definition get_recipients_for_event ::
  "db_fault \<Rightarrow> uuid \<Rightarrow> string list option \<Rightarrow> log_db \<Rightarrow> AppError + NotificationLog list" where
  "get_recipients_for_event fault ev only_emails db =
     (case only_emails of
        Some (e # es) \<Rightarrow>
          (case fault of
             Some err \<Rightarrow> Err (Database err)
           | None \<Rightarrow>
               let rows = take 500 (filter (\<lambda>r. coalesced_email db r \<in> set (e # es)) (event_rows db ev))
               in if rows = [] then Err (NotFound ev) else collect_results (to_log db) rows)
      | _ \<Rightarrow> get_by_event_id fault ev db)"

definition get_by_event_and_recipient ::
  "db_fault \<Rightarrow> uuid \<Rightarrow> string \<Rightarrow> log_db \<Rightarrow> AppError + NotificationLog" where
  "get_by_event_and_recipient fault ev rcpt db =
     (case fault of
        Some e \<Rightarrow> Err (Database e)
      | None \<Rightarrow>
          (case find_row db ev rcpt of
             None \<Rightarrow> Err (NotFound (ev @ ''/'' @ rcpt))
           | Some r \<Rightarrow> to_log db r))"

definition joined_rows :: "log_db \<Rightarrow> uuid \<Rightarrow> (notification_row \<times> email_row) list" where
  "joined_rows db ev =
     List.map_filter (\<lambda>r. map_option (Pair r) (email_detail_of db r)) (event_rows db ev)"

definition get_event_delivery_detail :: "db_fault \<Rightarrow> uuid \<Rightarrow> log_db \<Rightarrow> AppError + EventDeliveryDetail" where
  "get_event_delivery_detail fault ev db =
     (case fault of
        Some e \<Rightarrow> Err (Database e)
      | None \<Rightarrow>
          (case joined_rows db ev of
             [] \<Rightarrow> Err (NotFound ev)
           | (r, e) # rest \<Rightarrow> Ok
               \<lparr>d_event_type = n_event_type r, d_payload = n_payload r,
                d_event_timestamp = n_event_timestamp r,
                d_earliest_created_at = foldl min (n_created_at r) (map (n_created_at \<circ> fst) rest),
                d_from_override = e_from_override e, d_sender_account = e_sender_account e,
                d_send_mode = e_send_mode e, d_group_retry_mode = e_group_retry_mode e,
                d_attachments = e_attachments e, d_cc = e_cc e, d_bcc = e_bcc e\<rparr>))"

end
