(* ===== verification/Log_Invariants.thy ===== *)
theory Log_Invariants
  imports Notification_Log
begin

text \<open>
  What the delivery log guarantees: the effect of every operation on the row of a key, the
  consistency of the two tables in every state the operations of the consumer, of the retry API
  and of the stale-row reaper can reach in any order, and the contract the processor relies on
  (locale \<open>delivery_log\<close>, interpreted on the model of the PostgreSQL store).
\<close>

section \<open>Keyed lookups\<close>

definition key_preserving :: "(notification_row \<Rightarrow> notification_row) \<Rightarrow> bool" where
  "key_preserving f \<longleftrightarrow>
     (\<forall>r. n_id (f r) = n_id r \<and> n_event_id (f r) = n_event_id r \<and> n_channel (f r) = n_channel r \<and>
          n_recipient_id (f r) = n_recipient_id r)"

lemma key_preserving_updates [simp]:
  "key_preserving (sent_update now)" "key_preserving (failed_update now m x)"
  "key_preserving (blocked_update now m)" "key_preserving (retry_update now)"
  "key_preserving (revert_update now m)"
  by (simp_all add: key_preserving_def sent_update_def failed_update_def blocked_update_def
      retry_update_def revert_update_def)

lemma row_key_preserved: "key_preserving f \<Longrightarrow> row_key ev rc (f r) = row_key ev rc r"
  by (simp add: key_preserving_def row_key_def)

lemma find_map: "find P (map g xs) = map_option g (find (P \<circ> g) xs)"
  by (induction xs) auto

lemma find_row_update_where:
  assumes "key_preserving f"
  shows "find_row (update_where P f db) ev rc = map_option (\<lambda>r. if P r then f r else r) (find_row db ev rc)"
proof -
  have "row_key ev rc \<circ> (\<lambda>r. if P r then f r else r) = row_key ev rc"
    using row_key_preserved [OF assms] by (auto simp: fun_eq_iff)
  then show ?thesis by (simp add: find_row_def update_where_def find_map)
qed

lemma find_row_Some: "find_row db ev rc = Some r \<Longrightarrow> r \<in> set (notification_log db) \<and> row_key ev rc r"
  by (auto simp: find_row_def find_Some_iff set_conv_nth)

lemma find_row_None: "find_row db ev rc = None \<longleftrightarrow> (\<forall>r \<in> set (notification_log db). \<not> row_key ev rc r)"
  by (auto simp: find_row_def find_None_iff)

lemma rows_affected_key: "rows_affected (row_key ev rc) db = 0 \<longleftrightarrow> find_row db ev rc = None"
  by (simp add: rows_affected_def find_row_None filter_empty_conv)

lemma find_append: "find P (xs @ ys) = (case find P xs of Some x \<Rightarrow> Some x | None \<Rightarrow> find P ys)"
  by (induction xs) auto

lemma row_key_new_row:
  "row_key ev rc (new_row now a i) \<longleftrightarrow> ev = p_event_id a \<and> rc = p_recipient_email a"
  by (auto simp: row_key_def new_row_def)

lemma row_key_skipped_row:
  "row_key ev rc (skipped_row now ev' ty rc' reason ts pl i) \<longleftrightarrow> ev = ev' \<and> rc = rc'"
  by (auto simp: row_key_def skipped_row_def)

section \<open>The table invariant\<close>

definition row_inv :: "notification_row \<Rightarrow> bool" where
  "row_inv r \<longleftrightarrow>
     n_channel r = CHANNEL_EMAIL \<and> (\<exists>s. n_status r = status_as_str s) \<and>
     0 \<le> n_retry_count r \<and> n_retry_count r \<le> n_total_attempts r \<and> n_total_attempts r \<le> int4_max"

definition row_ident :: "notification_row \<Rightarrow> uuid \<times> string \<times> string" where
  "row_ident r = (n_event_id r, n_channel r, n_recipient_id r)"

definition detail_inv :: "notification_row list \<Rightarrow> email_row \<Rightarrow> bool" where
  "detail_inv rows e \<longleftrightarrow>
     email_row_check e \<and> (\<exists>r \<in> set rows. n_id r = e_notification_id e \<and> n_recipient_id r = e_recipient_email e)"

definition log_inv :: "log_db \<Rightarrow> bool" where
  "log_inv db \<longleftrightarrow>
     (\<forall>r \<in> set (notification_log db). row_inv r \<and> n_id r < next_id db) \<and>
     distinct (map n_id (notification_log db)) \<and>
     distinct (map row_ident (notification_log db)) \<and>
     (\<forall>e \<in> set (email_notification_log db). detail_inv (notification_log db) e) \<and>
     distinct (map e_notification_id (email_notification_log db))"

definition empty_db :: log_db where
  "empty_db = \<lparr>notification_log = [], email_notification_log = [], next_id = 0\<rparr>"

lemma log_inv_empty: "log_inv empty_db"
  by (simp add: log_inv_def empty_db_def)

lemma log_inv_row: "log_inv db \<Longrightarrow> r \<in> set (notification_log db) \<Longrightarrow> row_inv r"
  by (simp add: log_inv_def)

lemma row_key_unique:
  assumes "log_inv db" "r \<in> set (notification_log db)" "r' \<in> set (notification_log db)"
    "row_key ev rc r" "row_key ev rc r'"
  shows "r = r'"
proof -
  have "row_ident r = row_ident r'" using assms(4,5) by (simp add: row_key_def row_ident_def)
  with assms(1-3) show ?thesis by (auto simp: log_inv_def distinct_map inj_on_def)
qed

lemma find_row_eq:
  assumes "log_inv db" "r \<in> set (notification_log db)" "row_key ev rc r"
  shows "find_row db ev rc = Some r"
proof (cases "find_row db ev rc")
  case None
  with assms show ?thesis by (simp add: find_row_None)
next
  case (Some r')
  with find_row_Some [OF Some] row_key_unique [OF assms(1)] assms(2,3) show ?thesis by blast
qed

definition overflows :: "notification_row \<Rightarrow> bool" where
  "overflows r \<longleftrightarrow> n_retry_count r > int4_max \<or> n_total_attempts r > int4_max"

lemma counter_overflow_key:
  assumes "log_inv db"
  shows "counter_overflow (row_key ev rc) f db \<longleftrightarrow>
    (case find_row db ev rc of None \<Rightarrow> False | Some r \<Rightarrow> overflows (f r))"
proof (cases "find_row db ev rc")
  case None
  then have "\<forall>r \<in> set (notification_log db). \<not> row_key ev rc r" by (simp only: find_row_None)
  with None show ?thesis by (simp add: counter_overflow_def)
next
  case (Some r)
  with find_row_Some [OF Some] show ?thesis
    using row_key_unique [OF assms] by (auto simp: counter_overflow_def overflows_def)
qed

text \<open>Every keyed update, on every branch.\<close>

lemma update_key_result:
  assumes "log_inv db"
  shows "update_key None (row_key ev rc) f nf db =
    (case find_row db ev rc of
       None \<Rightarrow> (Err (NotFound nf), db)
     | Some r \<Rightarrow> if overflows (f r) then (Err integer_out_of_range, db)
                 else (Ok (), update_where (row_key ev rc) f db))"
  using counter_overflow_key [OF assms] rows_affected_key [of ev rc db]
  by (auto simp: update_key_def split: option.splits)

lemma update_key_fault [simp]: "update_key (Some e) P f nf db = (Err (Database e), db)"
  by (simp add: update_key_def)

lemma find_row_updated:
  assumes "key_preserving f" "find_row db ev rc = Some r"
  shows "find_row (update_where (row_key ev rc) f db) ev' rc' =
    (if ev' = ev \<and> rc' = rc then Some (f r) else find_row db ev' rc')"
proof (cases "ev' = ev \<and> rc' = rc")
  case True
  with assms find_row_Some [OF assms(2)] show ?thesis by (simp add: find_row_update_where)
next
  case False
  have "(if row_key ev rc x then f x else x) = x" if "find_row db ev' rc' = Some x" for x
    using find_row_Some [OF that] False by (auto simp: row_key_def)
  with False assms(1) show ?thesis
    by (cases "find_row db ev' rc'") (auto simp: find_row_update_where)
qed

subsection \<open>Preservation, one lemma per kind of statement\<close>

lemma log_inv_update_where:
  assumes inv: "log_inv db" and kp: "key_preserving f"
    and pres: "\<And>r. r \<in> set (notification_log db) \<Longrightarrow> P r \<Longrightarrow> row_inv r \<Longrightarrow> row_inv (f r)"
  shows "log_inv (update_where P f db)"
proof -
  let ?g = "\<lambda>r. if P r then f r else r"
  have ids: "map n_id (map ?g xs) = map n_id xs" "map row_ident (map ?g xs) = map row_ident xs" for xs
    using kp by (induction xs) (auto simp: key_preserving_def row_ident_def)
  have "detail_inv (map ?g (notification_log db)) e" if "detail_inv (notification_log db) e" for e
  proof -
    from that obtain r where "r \<in> set (notification_log db)" "n_id r = e_notification_id e"
      "n_recipient_id r = e_recipient_email e" "email_row_check e"
      by (auto simp: detail_inv_def)
    moreover have "n_id (?g r) = n_id r" "n_recipient_id (?g r) = n_recipient_id r"
      using kp by (auto simp: key_preserving_def)
    ultimately show ?thesis unfolding detail_inv_def by (metis (no_types, lifting) image_eqI list.set_map)
  qed
  moreover have "n_id (f r) = n_id r" for r using kp by (simp add: key_preserving_def)
  ultimately show ?thesis
    using inv pres ids unfolding log_inv_def update_where_def
    by (auto simp del: map_map)
qed

lemma detail_inv_append: "detail_inv rows e \<Longrightarrow> detail_inv (rows @ rows') e"
  by (auto simp: detail_inv_def)

lemma log_inv_append_row:
  assumes inv: "log_inv db" and r: "row_inv r" "n_id r = next_id db"
    and fresh: "find_row db (n_event_id r) (n_recipient_id r) = None"
  shows "log_inv (db\<lparr>notification_log := notification_log db @ [r], next_id := Suc (next_id db)\<rparr>)"
proof -
  have "row_ident r \<notin> row_ident ` set (notification_log db)"
    using fresh r(1) inv by (auto simp: find_row_None row_key_def row_ident_def log_inv_def row_inv_def)
  moreover have "n_id r \<notin> n_id ` set (notification_log db)"
    using inv r(2) by (auto simp: log_inv_def)
  ultimately show ?thesis
    using inv r by (auto simp: log_inv_def detail_inv_append less_SucI)
qed

lemma log_inv_insert_stmts:
  assumes inv: "log_inv db" and ok: "insert_stmts now a db = Inr (res, db')"
  shows "log_inv db'"
proof (cases "find_row db (p_event_id a) (p_recipient_email a)")
  case (Some r)
  with ok inv show ?thesis by (simp add: insert_stmts_def)
next
  case None
  let ?r = "new_row now a (next_id db)" and ?e = "new_email_row a (next_id db)"
  let ?db1 = "db\<lparr>notification_log := notification_log db @ [?r], next_id := Suc (next_id db)\<rparr>"
  from ok None have db': "email_row_check ?e"
    "db' = ?db1\<lparr>email_notification_log := email_notification_log db @ [?e]\<rparr>"
    by (auto simp: insert_stmts_def Let_def split: if_splits)
  have "\<exists>s. ''PENDING'' = status_as_str s" by (rule exI [of _ Pending]) simp
  then have "row_inv ?r" by (simp add: row_inv_def new_row_def int4_max_def)
  then have 1: "log_inv ?db1"
    using None by (intro log_inv_append_row inv) (simp_all add: new_row_def)
  have "detail_inv (notification_log ?db1) ?e"
    using db'(1) by (auto simp: detail_inv_def new_row_def new_email_row_def)
  moreover have "e_notification_id ?e \<notin> e_notification_id ` set (email_notification_log db)"
    using inv by (fastforce simp: log_inv_def detail_inv_def new_email_row_def)
  ultimately show ?thesis using 1 by (auto simp: db'(2) log_inv_def)
qed

lemma log_inv_batch_stmts:
  "log_inv db \<Longrightarrow> insert_batch_stmts now as db = Inr (ress, db') \<Longrightarrow> log_inv db'"
  by (induction now as db arbitrary: ress rule: insert_batch_stmts.induct)
    (auto split: sum.splits prod.splits dest: log_inv_insert_stmts)

lemma insert_pending_inv: "log_inv db \<Longrightarrow> log_inv (snd (insert_pending fault now a db))"
  by (auto simp: insert_pending_def split: option.splits sum.splits dest: log_inv_insert_stmts)

lemma insert_pending_batch_inv: "log_inv db \<Longrightarrow> log_inv (snd (insert_pending_batch fault now as db))"
  by (auto simp: insert_pending_batch_def split: option.splits sum.splits dest: log_inv_batch_stmts)

lemma update_key_inv:
  assumes "log_inv db" "key_preserving f"
    and "\<And>r. P r \<Longrightarrow> row_inv r \<Longrightarrow> \<not> overflows (f r) \<Longrightarrow> row_inv (f r)"
  shows "log_inv (snd (update_key fault P f nf db))"
proof (cases "counter_overflow P f db")
  case True
  with assms(1) show ?thesis by (simp add: update_key_def split: option.splits)
next
  case False
  then have "log_inv (update_where P f db)"
    using assms by (intro log_inv_update_where) (auto simp: counter_overflow_def overflows_def not_less)
  with assms(1) False show ?thesis by (simp add: update_key_def split: option.splits)
qed

lemma status_literals:
  "\<exists>s. ''PENDING'' = status_as_str s" "\<exists>s. ''SENT'' = status_as_str s"
  "\<exists>s. ''FAILED'' = status_as_str s" "\<exists>s. ''BLOCKED'' = status_as_str s"
  "\<exists>s. ''SKIPPED'' = status_as_str s"
  by (metis status_as_str.simps)+

lemma row_inv_updates:
  "row_inv r \<Longrightarrow> \<not> overflows (sent_update now r) \<Longrightarrow> row_inv (sent_update now r)"
  "row_inv r \<Longrightarrow> \<not> overflows (failed_update now m x r) \<Longrightarrow> row_inv (failed_update now m x r)"
  "row_inv r \<Longrightarrow> row_inv (blocked_update now m r)"
  "row_inv r \<Longrightarrow> row_inv (retry_update now r)"
  "row_inv r \<Longrightarrow> row_inv (revert_update now m r)"
  using status_literals
  by (auto simp: row_inv_def overflows_def sent_update_def failed_update_def blocked_update_def
      retry_update_def revert_update_def)

lemma mark_sent_inv: "log_inv db \<Longrightarrow> log_inv (snd (mark_sent fault now ev rc db))"
  unfolding mark_sent_def by (rule update_key_inv) (auto intro: row_inv_updates)

lemma mark_failed_inv: "log_inv db \<Longrightarrow> log_inv (snd (mark_failed fault now ev rc m x db))"
  unfolding mark_failed_def by (rule update_key_inv) (auto intro: row_inv_updates)

lemma mark_blocked_inv: "log_inv db \<Longrightarrow> log_inv (snd (mark_blocked fault now ev rc m db))"
  unfolding mark_blocked_def by (rule update_key_inv) (auto intro: row_inv_updates)

lemma reset_for_retry_inv: "log_inv db \<Longrightarrow> log_inv (snd (reset_for_retry fault now ev rc db))"
  unfolding reset_for_retry_def by (rule update_key_inv) (auto intro: row_inv_updates)

lemma reset_all_inv: "log_inv db \<Longrightarrow> log_inv (snd (reset_all_failed_for_event fault now ev db))"
  by (auto simp: reset_all_failed_for_event_def split: option.splits
      intro: log_inv_update_where row_inv_updates)

lemma revert_inv: "log_inv db \<Longrightarrow> log_inv (snd (revert_to_failed fault now ev rcs m db))"
  by (auto simp: revert_to_failed_def split: option.splits intro: log_inv_update_where row_inv_updates)

lemma reap_inv: "log_inv db \<Longrightarrow> log_inv (snd (reap_stale_pending fault now t db))"
  by (auto simp: reap_stale_pending_def split: option.splits intro: log_inv_update_where row_inv_updates)

lemma row_inv_skipped: "row_inv (skipped_row now ev ty rc reason ts pl i)"
  using status_literals by (simp add: row_inv_def skipped_row_def int4_max_def)

lemma mark_skipped_inv: "log_inv db \<Longrightarrow> log_inv (snd (mark_skipped fault now ev ty rc reason ts pl db))"
  using log_inv_append_row [of db "skipped_row now ev ty rc reason ts pl (next_id db)"] row_inv_skipped
  by (auto simp: mark_skipped_def skipped_row_def split: option.splits)

lemmas store_op_inv [intro] =
  insert_pending_inv insert_pending_batch_inv mark_sent_inv mark_failed_inv mark_blocked_inv
  mark_skipped_inv reset_for_retry_inv reset_all_inv revert_inv reap_inv

section \<open>The contract of the log\<close>

type_synonym delivery_view = "string \<times> int \<times> int"

locale delivery_log =
  fixes look :: "'s \<Rightarrow> uuid \<times> string \<Rightarrow> delivery_view option"
    and inv :: "'s \<Rightarrow> bool"
    and insert' :: "EmailInsertPendingArgs \<Rightarrow> 's \<Rightarrow> (AppError + InsertResult) \<times> 's"
    and sent :: "uuid \<Rightarrow> string \<Rightarrow> 's \<Rightarrow> (AppError + unit) \<times> 's"
    and failed :: "uuid \<Rightarrow> string \<Rightarrow> string \<Rightarrow> bool \<Rightarrow> 's \<Rightarrow> (AppError + unit) \<times> 's"
    and blocked :: "uuid \<Rightarrow> string \<Rightarrow> string \<Rightarrow> 's \<Rightarrow> (AppError + unit) \<times> 's"
  assumes inv_insert: "inv s \<Longrightarrow> inv (snd (insert' a s))"
    and inv_sent: "inv s \<Longrightarrow> inv (snd (sent ev rc s))"
    and inv_failed: "inv s \<Longrightarrow> inv (snd (failed ev rc m x s))"
    and inv_blocked: "inv s \<Longrightarrow> inv (snd (blocked ev rc m s))"
    and insert_known:
      "look s (p_event_id a, p_recipient_email a) = Some (st, n, t) \<Longrightarrow> insert' a s = (Ok (Duplicate n st), s)"
    and insert_fresh:
      "look s (p_event_id a, p_recipient_email a) = None \<Longrightarrow> insert' a s = (Ok res, s') \<Longrightarrow>
       res = Inserted \<and> look s' = (look s)((p_event_id a, p_recipient_email a) \<mapsto> (''PENDING'', 0, 0))"
    and sent_ok:
      "inv s \<Longrightarrow> sent ev rc s = (Ok (), s') \<Longrightarrow>
       \<exists>st n t. look s (ev, rc) = Some (st, n, t) \<and> look s' = (look s)((ev, rc) \<mapsto> (''SENT'', n, t + 1))"
    and failed_ok:
      "inv s \<Longrightarrow> failed ev rc m x s = (Ok (), s') \<Longrightarrow>
       \<exists>st n t. look s (ev, rc) = Some (st, n, t) \<and>
         look s' = (look s)((ev, rc) \<mapsto> (if x then ''FAILED'' else ''PENDING'', n + 1, t + 1))"
    and blocked_ok:
      "inv s \<Longrightarrow> blocked ev rc m s = (Ok (), s') \<Longrightarrow>
       \<exists>st n t. look s (ev, rc) = Some (st, n, t) \<and> look s' = (look s)((ev, rc) \<mapsto> (''BLOCKED'', n, t))"
    and err_unchanged:
      "insert' a s = (Err e, s') \<Longrightarrow> s' = s"
      "sent ev rc s = (Err e, s') \<Longrightarrow> s' = s"
      "failed ev rc m x s = (Err e, s') \<Longrightarrow> s' = s"
      "blocked ev rc m s = (Err e, s') \<Longrightarrow> s' = s"
begin

text \<open>The first insert wins: repeating it reports the state as it is and changes nothing.\<close>

lemma insert_idempotent:
  assumes "insert' a s = (Ok res, s')"
  shows "\<exists>n st. insert' a s' = (Ok (Duplicate n st), s') \<and> (res = Inserted \<longrightarrow> n = 0 \<and> st = ''PENDING'')"
proof (cases "look s (p_event_id a, p_recipient_email a)")
  case None
  from insert_fresh [OF None assms] have "look s' (p_event_id a, p_recipient_email a) = Some (''PENDING'', 0, 0)"
    by simp
  from insert_known [OF this] show ?thesis by blast
next
  case (Some v)
  then obtain st n t where "look s (p_event_id a, p_recipient_email a) = Some (st, n, t)" by (cases v) auto
  from insert_known [OF this] assms show ?thesis by auto
qed

text \<open>Once a delivery is recorded as sent, a redelivery of its event is recognised as a duplicate.\<close>

lemma sent_recognised:
  assumes "inv s" "sent (p_event_id a) (p_recipient_email a) s = (Ok (), s')"
  shows "\<exists>n. insert' a s' = (Ok (Duplicate n ''SENT''), s')"
proof -
  from sent_ok [OF assms] obtain n t where "look s' (p_event_id a, p_recipient_email a) = Some (''SENT'', n, t)"
    by auto
  from insert_known [OF this] show ?thesis by blast
qed

text \<open>Successive failures are counted one by one; the last one decides the status.\<close>

fun fail_times :: "uuid \<Rightarrow> string \<Rightarrow> string list \<Rightarrow> 's \<Rightarrow> (AppError + unit) \<times> 's" where
  "fail_times ev rc [] s = (Ok (), s)"
| "fail_times ev rc (m # ms) s =
     (case failed ev rc m False s of (Inl e, s') \<Rightarrow> (Err e, s') | (Inr _, s') \<Rightarrow> fail_times ev rc ms s')"

lemma fail_times_counts:
  assumes "inv s" "look s (ev, rc) = Some (''PENDING'', n, t)" "fail_times ev rc ms s = (Ok (), s')"
  shows "look s' (ev, rc) = Some (''PENDING'', n + int (length ms), t + int (length ms)) \<and> inv s'"
  using assms
proof (induction ms arbitrary: s n t)
  case Nil
  then show ?case by simp
next
  case (Cons m ms)
  then obtain s1 where s1: "failed ev rc m False s = (Ok (), s1)" "fail_times ev rc ms s1 = (Ok (), s')"
    by (auto split: sum.splits prod.splits)
  moreover have "inv s1" using inv_failed [OF Cons.prems(1), of ev rc m False] s1(1) by simp
  moreover have "look s1 (ev, rc) = Some (''PENDING'', n + 1, t + 1)"
    using failed_ok [OF Cons.prems(1) s1(1)] Cons.prems(2) by auto
  ultimately show ?case using Cons.IH [of s1 "n + 1" "t + 1"] by simp
qed

end

definition log_look :: "log_db \<Rightarrow> uuid \<times> string \<Rightarrow> delivery_view option" where
  "log_look db k =
     map_option (\<lambda>r. (n_status r, n_retry_count r, n_total_attempts r)) (find_row db (fst k) (snd k))"

lemma find_row_inserted:
  assumes "find_row db (p_event_id a) (p_recipient_email a) = None" "insert_stmts now a db = Inr (res, db')"
  shows "res = Inserted \<and>
    find_row db' ev rc =
      (if ev = p_event_id a \<and> rc = p_recipient_email a then Some (new_row now a (next_id db)) else find_row db ev rc)"
proof -
  from assms have db': "res = Inserted" "notification_log db' = notification_log db @ [new_row now a (next_id db)]"
    by (auto simp: insert_stmts_def Let_def split: if_splits)
  then show ?thesis
    using assms(1) by (auto simp: find_row_def find_append row_key_new_row split: option.splits)
qed

lemma log_look_updated:
  assumes "log_inv db" "key_preserving f" "update_key None (row_key ev rc) f nf db = (Ok (), db')"
  shows "\<exists>r. find_row db ev rc = Some r \<and> \<not> overflows (f r) \<and>
    log_look db' = (log_look db)((ev, rc) \<mapsto> (n_status (f r), n_retry_count (f r), n_total_attempts (f r)))"
proof -
  obtain r where r: "find_row db ev rc = Some r" "\<not> overflows (f r)" "db' = update_where (row_key ev rc) f db"
    using assms(1,3) by (auto simp: update_key_result split: option.splits if_splits)
  then show ?thesis
    using find_row_updated [OF assms(2) r(1)] by (auto simp: log_look_def fun_eq_iff)
qed

lemma update_key_err: "update_key fault P f nf db = (Err e, db') \<Longrightarrow> db' = db"
  by (auto simp: update_key_def split: option.splits if_splits)

interpretation pg_log: delivery_log log_look log_inv "insert_pending None now" "mark_sent None now"
  "mark_failed None now" "mark_blocked None now"
proof
  fix s a ev rc m x st n t res s' e
  show "log_inv s \<Longrightarrow> log_inv (snd (insert_pending None now a s))"
    "log_inv s \<Longrightarrow> log_inv (snd (mark_sent None now ev rc s))"
    "log_inv s \<Longrightarrow> log_inv (snd (mark_failed None now ev rc m x s))"
    "log_inv s \<Longrightarrow> log_inv (snd (mark_blocked None now ev rc m s))"
    by (rule store_op_inv, assumption)+
  show "log_look s (p_event_id a, p_recipient_email a) = Some (st, n, t) \<Longrightarrow>
      insert_pending None now a s = (Ok (Duplicate n st), s)"
    by (auto simp: log_look_def insert_pending_def insert_stmts_def)
  show "log_look s (p_event_id a, p_recipient_email a) = None \<Longrightarrow>
      insert_pending None now a s = (Ok res, s') \<Longrightarrow>
      res = Inserted \<and> log_look s' = (log_look s)((p_event_id a, p_recipient_email a) \<mapsto> (''PENDING'', 0, 0))"
    using find_row_inserted [of s a now res s']
    by (auto simp: log_look_def insert_pending_def new_row_def fun_eq_iff split: sum.splits prod.splits)
  show "log_inv s \<Longrightarrow> mark_sent None now ev rc s = (Ok (), s') \<Longrightarrow>
      \<exists>st n t. log_look s (ev, rc) = Some (st, n, t) \<and> log_look s' = (log_look s)((ev, rc) \<mapsto> (''SENT'', n, t + 1))"
    using log_look_updated [of s "sent_update now" ev rc _ s']
    by (fastforce simp: mark_sent_def sent_update_def log_look_def)
  show "log_inv s \<Longrightarrow> mark_failed None now ev rc m x s = (Ok (), s') \<Longrightarrow>
      \<exists>st n t. log_look s (ev, rc) = Some (st, n, t) \<and>
        log_look s' = (log_look s)((ev, rc) \<mapsto> (if x then ''FAILED'' else ''PENDING'', n + 1, t + 1))"
    using log_look_updated [of s "failed_update now m x" ev rc _ s']
    by (fastforce simp: mark_failed_def failed_update_def log_look_def)
  show "log_inv s \<Longrightarrow> mark_blocked None now ev rc m s = (Ok (), s') \<Longrightarrow>
      \<exists>st n t. log_look s (ev, rc) = Some (st, n, t) \<and> log_look s' = (log_look s)((ev, rc) \<mapsto> (''BLOCKED'', n, t))"
    using log_look_updated [of s "blocked_update now m" ev rc _ s']
    by (fastforce simp: mark_blocked_def blocked_update_def log_look_def)
  show "insert_pending None now a s = (Err e, s') \<Longrightarrow> s' = s"
    by (auto simp: insert_pending_def split: sum.splits)
  show "mark_sent None now ev rc s = (Err e, s') \<Longrightarrow> s' = s"
    "mark_failed None now ev rc m x s = (Err e, s') \<Longrightarrow> s' = s"
    "mark_blocked None now ev rc m s = (Err e, s') \<Longrightarrow> s' = s"
    by (auto simp: mark_sent_def mark_failed_def mark_blocked_def dest: update_key_err)
qed

section \<open>All operations in any order\<close>

text \<open>
  The consumers write through the first relation, the retry API and the stale-row reaper through
  the second. Several consumer processes share the tables, so a run is any interleaving of
  single operations, each with any database answer and any database time.
\<close>

inductive consumer_step :: "log_db \<Rightarrow> log_db \<Rightarrow> bool" where
  step_insert: "consumer_step db (snd (insert_pending fault now a db))"
| step_batch: "consumer_step db (snd (insert_pending_batch fault now as db))"
| step_sent: "consumer_step db (snd (mark_sent fault now ev rc db))"
| step_failed: "consumer_step db (snd (mark_failed fault now ev rc m x db))"
| step_blocked: "consumer_step db (snd (mark_blocked fault now ev rc m db))"
| step_skipped: "consumer_step db (snd (mark_skipped fault now ev ty rc m ts pl db))"

inductive operator_step :: "log_db \<Rightarrow> log_db \<Rightarrow> bool" where
  step_reset: "operator_step db (snd (reset_for_retry fault now ev rc db))"
| step_reset_all: "operator_step db (snd (reset_all_failed_for_event fault now ev db))"
| step_revert: "operator_step db (snd (revert_to_failed fault now ev rcs m db))"
| step_reap: "operator_step db (snd (reap_stale_pending fault now t db))"

definition log_step :: "log_db \<Rightarrow> log_db \<Rightarrow> bool" where
  "log_step db db' \<longleftrightarrow> consumer_step db db' \<or> operator_step db db'"

definition log_reachable :: "log_db \<Rightarrow> bool" where
  "log_reachable db \<longleftrightarrow> log_step\<^sup>*\<^sup>* empty_db db"

lemma log_step_inv: "log_step db db' \<Longrightarrow> log_inv db \<Longrightarrow> log_inv db'"
  unfolding log_step_def by (auto elim!: consumer_step.cases operator_step.cases)

lemma log_steps_inv: "log_step\<^sup>*\<^sup>* db db' \<Longrightarrow> log_inv db \<Longrightarrow> log_inv db'"
  by (induction rule: rtranclp_induct) (auto dest: log_step_inv)

text \<open>A row keeps its identity and its content for ever and only counts attempts up.\<close>

definition row_evolves :: "notification_row \<Rightarrow> notification_row \<Rightarrow> bool" where
  "row_evolves r r' \<longleftrightarrow>
     n_id r' = n_id r \<and> row_ident r' = row_ident r \<and> n_event_type r' = n_event_type r \<and>
     n_payload r' = n_payload r \<and> n_event_timestamp r' = n_event_timestamp r \<and>
     n_created_at r' = n_created_at r \<and> n_total_attempts r \<le> n_total_attempts r'"

definition log_evolves :: "log_db \<Rightarrow> log_db \<Rightarrow> bool" where
  "log_evolves db db' \<longleftrightarrow>
     (\<exists>olds news. notification_log db' = olds @ news \<and> list_all2 row_evolves (notification_log db) olds) \<and>
     (\<exists>news. email_notification_log db' = email_notification_log db @ news)"

lemma row_evolves_refl [simp]: "row_evolves r r"
  by (simp add: row_evolves_def)

lemma row_evolves_trans: "row_evolves r s \<Longrightarrow> row_evolves s t \<Longrightarrow> row_evolves r t"
  by (auto simp: row_evolves_def)

lemma log_evolvesI:
  assumes "notification_log db' = olds @ news" "list_all2 row_evolves (notification_log db) olds"
    "email_notification_log db' = email_notification_log db @ enews"
  shows "log_evolves db db'"
  using assms unfolding log_evolves_def by blast

lemma log_evolves_append:
  assumes "notification_log db' = notification_log db @ news"
    "email_notification_log db' = email_notification_log db @ enews"
  shows "log_evolves db db'"
  using assms(1) _ assms(2) by (rule log_evolvesI) (simp add: list_all2_conv_all_nth)

lemma log_evolves_refl [simp]: "log_evolves db db"
  by (rule log_evolves_append [of _ _ "[]" "[]"]) simp_all

lemma log_evolves_trans:
  assumes "log_evolves a b" "log_evolves b c"
  shows "log_evolves a c"
proof -
  from assms obtain o1 n1 o2 n2 where
    b: "notification_log b = o1 @ n1" "list_all2 row_evolves (notification_log a) o1" and
    c: "notification_log c = o2 @ n2" "list_all2 row_evolves (o1 @ n1) o2" and
    e: "\<exists>news. email_notification_log c = email_notification_log a @ news"
    unfolding log_evolves_def by (metis append_assoc)
  from c(2) obtain o21 o22 where o2: "o2 = o21 @ o22" "list_all2 row_evolves o1 o21"
    by (auto simp: list_all2_append1)
  have "list_all2 row_evolves (notification_log a) o21"
    using list_all2_trans [OF _ b(2) o2(2)] row_evolves_trans by blast
  with c(1) e o2(1) show ?thesis unfolding log_evolves_def by (metis append_assoc)
qed

lemma log_evolves_row:
  assumes "log_evolves db db'" "r \<in> set (notification_log db)"
  shows "\<exists>r' \<in> set (notification_log db'). row_evolves r r'"
  using assms by (fastforce simp: log_evolves_def list_all2_conv_all_nth in_set_conv_nth)

lemma updates_evolve [simp]:
  "row_evolves r (sent_update now r)" "row_evolves r (failed_update now m x r)"
  "row_evolves r (blocked_update now m r)" "row_evolves r (retry_update now r)"
  "row_evolves r (revert_update now m r)"
  by (simp_all add: row_evolves_def row_ident_def sent_update_def failed_update_def blocked_update_def
      retry_update_def revert_update_def)

lemma update_where_evolves: "(\<And>r. row_evolves r (f r)) \<Longrightarrow> log_evolves db (update_where P f db)"
  by (rule log_evolvesI [of _ "notification_log (update_where P f db)" "[]" _ "[]"])
    (auto simp: update_where_def list_all2_conv_all_nth)

lemma update_key_evolves: "(\<And>r. row_evolves r (f r)) \<Longrightarrow> log_evolves db (snd (update_key fault P f nf db))"
  by (auto simp: update_key_def intro: update_where_evolves split: option.splits)

lemma insert_stmts_evolves: "insert_stmts now a db = Inr (res, db') \<Longrightarrow> log_evolves db db'"
  by (auto simp: insert_stmts_def Let_def intro: log_evolves_append split: option.splits if_splits)

lemma batch_stmts_evolves: "insert_batch_stmts now as db = Inr (ress, db') \<Longrightarrow> log_evolves db db'"
  by (induction now as db arbitrary: ress rule: insert_batch_stmts.induct)
    (auto split: sum.splits prod.splits dest: insert_stmts_evolves intro: log_evolves_trans)

lemma insert_ops_evolve:
  "log_evolves db (snd (insert_pending fault now a db))"
  "log_evolves db (snd (insert_pending_batch fault now as db))"
  "log_evolves db (snd (mark_skipped fault now ev ty rc m ts pl db))"
  by (auto simp: insert_pending_def insert_pending_batch_def mark_skipped_def
      intro: log_evolves_append dest: insert_stmts_evolves batch_stmts_evolves
      split: option.splits sum.splits)

lemma update_ops_evolve:
  "log_evolves db (snd (mark_sent fault now ev rc db))"
  "log_evolves db (snd (mark_failed fault now ev rc m x db))"
  "log_evolves db (snd (mark_blocked fault now ev rc m db))"
  "log_evolves db (snd (reset_for_retry fault now ev rc db))"
  unfolding mark_sent_def mark_failed_def mark_blocked_def reset_for_retry_def
  by (rule update_key_evolves, simp)+

lemma bulk_ops_evolve:
  "log_evolves db (snd (reset_all_failed_for_event fault now ev db))"
  "log_evolves db (snd (revert_to_failed fault now ev rcs m db))"
  "log_evolves db (snd (reap_stale_pending fault now t db))"
  by (auto simp: reset_all_failed_for_event_def revert_to_failed_def reap_stale_pending_def
      intro!: update_where_evolves split: option.splits)

lemma log_step_evolves: "log_step db db' \<Longrightarrow> log_evolves db db'"
  unfolding log_step_def
  by (auto elim!: consumer_step.cases operator_step.cases
      intro: insert_ops_evolve update_ops_evolve bulk_ops_evolve)

lemma log_steps_evolve: "log_step\<^sup>*\<^sup>* db db' \<Longrightarrow> log_evolves db db'"
  by (induction rule: rtranclp_induct) (auto dest: log_step_evolves intro: log_evolves_trans)

lemma update_where_keeps: "r \<in> set (notification_log db) \<Longrightarrow> \<not> P r \<Longrightarrow> r \<in> set (notification_log (update_where P f db))"
  unfolding update_where_def by (auto intro!: image_eqI [of _ _ r])

lemma operator_step_keeps:
  assumes "operator_step db db'" "r \<in> set (notification_log db)"
    "n_status r \<notin> {''FAILED'', ''BLOCKED'', ''PENDING''}"
  shows "r \<in> set (notification_log db')"
  using assms
  by (auto elim!: operator_step.cases split: option.splits
      simp: reset_for_retry_def update_key_def reset_all_failed_for_event_def revert_to_failed_def
        reap_stale_pending_def failed_of_event_def pending_among_def stale_pending_def
      intro!: update_where_keeps)

section \<open>Properties\<close>

text \<open>
  C3. Consistency of the delivery log: in every state that consumers, retry API and reaper can
  reach together, in any interleaving and with any statement failing, there is at most one row
  per event and recipient, every status is one the code can read back, the attempt counters
  satisfy 0 <= retry_count <= total_attempts within the integer range, and every detail row
  belongs to exactly one log row of the same recipient.
\<close>

theorem log_reachable_consistent:
  assumes "log_reachable db"
  shows "distinct (map row_ident (notification_log db)) \<and>
    (\<forall>r \<in> set (notification_log db). is_ok (status_try_from (n_status r)) \<and>
       0 \<le> n_retry_count r \<and> n_retry_count r \<le> n_total_attempts r \<and> n_total_attempts r \<le> int4_max) \<and>
    distinct (map e_notification_id (email_notification_log db)) \<and>
    (\<forall>e \<in> set (email_notification_log db).
       \<exists>!r. r \<in> set (notification_log db) \<and> n_id r = e_notification_id e \<and> n_recipient_id r = e_recipient_email e)"
proof -
  have inv: "log_inv db"
    using assms log_steps_inv log_inv_empty unfolding log_reachable_def by blast
  have "\<exists>!r. r \<in> set (notification_log db) \<and> n_id r = e_notification_id e \<and> n_recipient_id r = e_recipient_email e"
    if "e \<in> set (email_notification_log db)" for e
    using inv that by (auto simp: log_inv_def detail_inv_def distinct_map inj_on_def Ball_def)
  moreover have "is_ok (status_try_from (n_status r))" if "row_inv r" for r
    using that by (auto simp: row_inv_def)
  ultimately show ?thesis using inv unfolding log_inv_def row_inv_def by blast
qed

definition sample_args :: EmailInsertPendingArgs where
  "sample_args =
     \<lparr>p_event_id = ''e1'', p_event_type = ''T'', p_recipient_email = ''a@x.org'', p_payload = JNull,
      p_event_timestamp = 0, p_recipient_name = None, p_from_override = None, p_attachments = None,
      p_sender_account = None, p_cc = None, p_bcc = None, p_send_mode = ''individual'',
      p_group_retry_mode = None, p_to_recipients = None\<rparr>"

definition sample_db :: log_db where
  "sample_db = snd (mark_failed None 20 ''e1'' ''a@x.org'' ''smtp down'' True (snd (insert_pending None 10 sample_args empty_db)))"

lemma log_reachable_step: "log_reachable db \<Longrightarrow> log_step db db' \<Longrightarrow> log_reachable db'"
  unfolding log_reachable_def by (rule rtranclp.rtrancl_into_rtrancl)

lemma log_reachable_consumer: "log_reachable db \<Longrightarrow> consumer_step db db' \<Longrightarrow> log_reachable db'"
  using log_reachable_step unfolding log_step_def by blast

lemma log_reachable_empty: "log_reachable empty_db"
  by (simp add: log_reachable_def)

lemma log_reachable_sample: "log_reachable sample_db"
  unfolding sample_db_def
  by (rule log_reachable_consumer [OF log_reachable_consumer [OF log_reachable_empty step_insert] step_failed])

lemma sample_db_rows: "map (\<lambda>r. (n_status r, n_retry_count r, n_total_attempts r)) (notification_log sample_db) = [(''FAILED'', 1, 1)]"
  by code_simp

theorem log_reachable_consistent_witness:
  "log_reachable sample_db \<and> notification_log sample_db \<noteq> [] \<and>
   distinct (map row_ident (notification_log sample_db))"
  using log_reachable_consistent [OF log_reachable_sample] log_reachable_sample sample_db_rows by force

text \<open>
  C13. Audit: whatever runs after a state, no row and no detail row is ever deleted, no row changes
  its event, recipient, type, payload or creation time, and its lifetime attempt counter never
  decreases; and a retry call or the reaper never touches a row that is SENT or SKIPPED.
\<close>

theorem log_history_preserved:
  assumes "log_step\<^sup>*\<^sup>* db db'"
  shows "(\<forall>r \<in> set (notification_log db). \<exists>r' \<in> set (notification_log db'). row_evolves r r') \<and>
    set (email_notification_log db) \<subseteq> set (email_notification_log db') \<and>
    (\<forall>db'' r. operator_step db' db'' \<longrightarrow> r \<in> set (notification_log db') \<longrightarrow>
       n_status r \<in> {''SENT'', ''SKIPPED''} \<longrightarrow> r \<in> set (notification_log db''))"
proof -
  have "\<exists>r' \<in> set (notification_log db'). row_evolves r r'" if "r \<in> set (notification_log db)" for r
    using log_evolves_row [OF log_steps_evolve [OF assms] that] .
  moreover have "set (email_notification_log db) \<subseteq> set (email_notification_log db')"
    using log_steps_evolve [OF assms] by (auto simp: log_evolves_def)
  moreover have "r \<in> set (notification_log db'')"
    if "operator_step db' db''" "r \<in> set (notification_log db')" "n_status r \<in> {''SENT'', ''SKIPPED''}" for db'' r
    using operator_step_keeps [OF that(1,2)] that(3) by auto
  ultimately show ?thesis by blast
qed

definition sent_db :: log_db where
  "sent_db = snd (mark_sent None 20 ''e1'' ''a@x.org'' (snd (insert_pending None 10 sample_args empty_db)))"

theorem log_history_preserved_witness:
  "log_step\<^sup>*\<^sup>* empty_db sent_db \<and> notification_log sent_db \<noteq> [] \<and>
   set (notification_log sent_db) \<subseteq> set (notification_log (snd (reap_stale_pending None 99999999999 0 sent_db)))"
proof -
  have "log_reachable sent_db"
    unfolding sent_db_def
    by (rule log_reachable_consumer [OF log_reachable_consumer [OF log_reachable_empty step_insert] step_sent])
  then have steps: "log_step\<^sup>*\<^sup>* empty_db sent_db" by (simp add: log_reachable_def)
  have rows: "map n_status (notification_log sent_db) = [''SENT'']" by code_simp
  then have "\<forall>r \<in> set (notification_log sent_db). n_status r = ''SENT''" by auto
  with rows steps log_history_preserved [OF steps] step_reap show ?thesis by (auto simp: subset_iff)
qed

text \<open>
  Idempotent insertion: after a successful insert, inserting again for the same event and
  recipient reports a duplicate with the current counters and changes nothing; and once the
  delivery is marked sent, the duplicate carries the SENT status that stops a second send.
\<close>

lemma insert_pending_idempotent:
  assumes "log_inv db" "insert_pending None now a db = (Ok res, db')"
  shows "(\<exists>n st. insert_pending None now' a db' = (Ok (Duplicate n st), db') \<and>
           (res = Inserted \<longrightarrow> n = 0 \<and> st = ''PENDING'')) \<and>
    (\<forall>db''. mark_sent None now (p_event_id a) (p_recipient_email a) db' = (Ok (), db'') \<longrightarrow>
       (\<exists>n. insert_pending None now' a db'' = (Ok (Duplicate n ''SENT''), db'')))"
proof -
  have same: "fst (insert_pending None now' a d) = fst (insert_pending None now a d) \<and> snd (insert_pending None now' a d) = d"
    if "insert_pending None now a d = (Ok (Duplicate n st), d)" for d n st
    using that by (auto simp: insert_pending_def insert_stmts_def Let_def split: option.splits if_splits)
  have "log_inv db'"
    using store_op_inv(1) [OF assms(1), of None now a] assms(2) by simp
  from pg_log.sent_recognised [OF this] pg_log.insert_idempotent [OF assms(2)] same show ?thesis
    by (metis fst_conv prod.collapse)
qed

lemma batch_stmts_default:
  "insert_batch_stmts now as db = Inr (ress, db') \<Longrightarrow>
   insert_pending_batch_default [] now as db = (Ok ress, db') \<and> length ress = length as"
  by (induction now as db arbitrary: ress rule: insert_batch_stmts.induct)
    (fastforce simp: insert_pending_def split: sum.splits prod.splits)+

lemma find_row_evolves:
  assumes "log_evolves db db'" "find_row db ev rc \<noteq> None"
  shows "find_row db' ev rc \<noteq> None"
proof -
  from assms(2) obtain r where r: "r \<in> set (notification_log db)" "row_key ev rc r"
    by (auto dest: find_row_Some)
  with log_evolves_row [OF assms(1) r(1)] obtain r' where "r' \<in> set (notification_log db')" "row_evolves r r'"
    by blast
  with r(2) show ?thesis by (auto simp: find_row_None row_key_def row_evolves_def row_ident_def)
qed

lemma insert_stmts_present:
  "insert_stmts now a db = Inr (res, db') \<Longrightarrow> find_row db' (p_event_id a) (p_recipient_email a) \<noteq> None"
  using find_row_inserted [of db a now res db']
  by (cases "find_row db (p_event_id a) (p_recipient_email a)") (auto simp: insert_stmts_def)

lemma batch_stmts_present:
  "insert_batch_stmts now as db = Inr (ress, db') \<Longrightarrow> a \<in> set as \<Longrightarrow>
   find_row db' (p_event_id a) (p_recipient_email a) \<noteq> None"
proof (induction now as db arbitrary: ress rule: insert_batch_stmts.induct)
  case (2 now b bs db)
  then obtain res db1 ress' where b: "insert_stmts now b db = Inr (res, db1)"
    "insert_batch_stmts now bs db1 = Inr (ress', db')"
    by (auto split: sum.splits prod.splits)
  show ?case
  proof (cases "a = b")
    case True
    with insert_stmts_present [OF b(1)] find_row_evolves [OF batch_stmts_evolves [OF b(2)]] show ?thesis by blast
  next
    case False
    with 2 b show ?thesis by auto
  qed
qed simp

text \<open>
  The transactional batch insert agrees with inserting the rows one after the other when
  nothing fails, reports one result per row and leaves a row for every recipient; when the
  transaction fails, for whatever reason and at whatever row, no row of the batch is written.
\<close>

lemma insert_batch_atomic:
  "case insert_pending_batch fault now as db of
     (Inl e, db') \<Rightarrow> db' = db
   | (Inr ress, db') \<Rightarrow>
       insert_pending_batch_default [] now as db = (Ok ress, db') \<and> length ress = length as \<and>
       list_all (\<lambda>a. find_row db' (p_event_id a) (p_recipient_email a) \<noteq> None) as"
  by (auto simp: insert_pending_batch_def list_all_iff simp del: not_None_eq
      dest: batch_stmts_default batch_stmts_present split: option.splits sum.splits prod.splits)

lemma pending_among_reset:
  assumes "log_inv db" "r \<in> set (notification_log db)"
  shows "pending_among ev (map n_recipient_id (filter (failed_of_event ev) (notification_log db)))
      (if failed_of_event ev r then retry_update now r else r) \<longleftrightarrow> failed_of_event ev r"
proof (cases "failed_of_event ev r")
  case True
  with assms(2) show ?thesis by (auto simp: pending_among_def retry_update_def failed_of_event_def)
next
  case False
  have "r' = r" if "r' \<in> set (notification_log db)" "failed_of_event ev r'" "n_recipient_id r = n_recipient_id r'"
    "n_event_id r = ev" "n_channel r = CHANNEL_EMAIL" for r'
    using row_key_unique [OF assms(1) that(1) assms(2), of ev "n_recipient_id r"] that
    by (auto simp: row_key_def failed_of_event_def)
  with False show ?thesis by (auto simp: pending_among_def)
qed

text \<open>
  Compensation of a failed re-enqueue: when the rows that a retry call reset to PENDING are
  put back by the compensating action, exactly those rows are reverted, each is FAILED with the
  given reason, every other row is as before the retry, and the same retry call selects the same
  recipients again.
\<close>

theorem retry_compensation:
  assumes "log_inv db"
    and "reset_all_failed_for_event None now ev db = (Ok rcs, db1)"
    and "revert_to_failed None now' ev rcs reason db1 = (Ok n, db2)"
  shows "n = length rcs \<and>
    notification_log db2 =
      map (\<lambda>r. if failed_of_event ev r then revert_update now' reason (retry_update now r) else r) (notification_log db) \<and>
    fst (reset_all_failed_for_event None now'' ev db2) = Ok rcs"
proof -
  let ?rows = "notification_log db" and ?F = "failed_of_event ev"
  have rcs: "rcs = map n_recipient_id (filter ?F ?rows)" and db1: "db1 = update_where ?F (retry_update now) db"
    using assms(2) by (simp_all add: reset_all_failed_for_event_def)
  have n: "n = rows_affected (pending_among ev rcs) db1"
    and db2: "db2 = update_where (pending_among ev rcs) (revert_update now' reason) db1"
    using assms(3) by (simp_all add: revert_to_failed_def)
  have P: "pending_among ev rcs (if ?F r then retry_update now r else r) \<longleftrightarrow> ?F r" if "r \<in> set ?rows" for r
    using pending_among_reset [OF assms(1) that] by (simp add: rcs)
  have rows2: "notification_log db2 =
      map (\<lambda>r. if ?F r then revert_update now' reason (retry_update now r) else r) ?rows"
    using P by (auto simp: db1 db2 update_where_def)
  have "filter (\<lambda>r. pending_among ev rcs (if ?F r then retry_update now r else r)) ?rows = filter ?F ?rows"
    using P by (intro filter_cong) (simp_all only: refl)
  then have "n = length rcs"
    by (simp add: n db1 rows_affected_def update_where_def rcs filter_map comp_def)
  moreover have "?F (if ?F r then revert_update now' reason (retry_update now r) else r) \<longleftrightarrow> ?F r" for r
    by (simp add: failed_of_event_def revert_update_def retry_update_def)
  then have "map n_recipient_id (filter ?F (notification_log db2)) = rcs"
    by (simp add: rows2 filter_map comp_def rcs revert_update_def retry_update_def cong: map_cong)
  ultimately show ?thesis using rows2 by (simp add: reset_all_failed_for_event_def)
qed

lemma sample_db_inv: "log_inv sample_db"
  using log_reachable_sample log_steps_inv log_inv_empty unfolding log_reachable_def by blast

theorem retry_compensation_witness:
  "\<exists>db1 db2. reset_all_failed_for_event None 30 ''e1'' sample_db = (Ok [''a@x.org''], db1) \<and>
     revert_to_failed None 31 ''e1'' [''a@x.org''] ''broker down'' db1 = (Ok 1, db2) \<and>
     fst (reset_all_failed_for_event None 40 ''e1'' db2) = Ok [''a@x.org'']"
proof -
  obtain res1 db1 where 1: "reset_all_failed_for_event None 30 ''e1'' sample_db = (res1, db1)" by fastforce
  have "fst (reset_all_failed_for_event None 30 ''e1'' sample_db) = Ok [''a@x.org'']" by code_simp
  with 1 have res1: "res1 = Ok [''a@x.org'']" by simp
  obtain n db2 where 2: "revert_to_failed None 31 ''e1'' [''a@x.org''] ''broker down'' db1 = (Ok n, db2)"
    by (simp add: revert_to_failed_def)
  from retry_compensation [OF sample_db_inv 1 [unfolded res1] 2, of 40] 1 2 res1 show ?thesis by auto
qed

lemma first_occurrences_props:
  "distinct (first_occurrences xs seen) \<and> set (first_occurrences xs seen) = set xs - seen"
  by (induction xs arbitrary: seen) auto

text \<open>
  The stale-row reaper: it turns into FAILED exactly the PENDING email rows whose last update
  is older than the timeout, leaves every other row as it is, reports each affected event once,
  and afterwards no such row is left; a timeout of zero does not disable it but reaps every
  PENDING row last updated before the call.
\<close>

lemma reaper_exact:
  assumes "reap_stale_pending None now t db = (Ok ids, db')"
  shows "notification_log db' =
      map (\<lambda>r. if stale_pending now t r then revert_update now reaper_message r else r) (notification_log db) \<and>
    distinct ids \<and>
    set ids = {n_event_id r |r. r \<in> set (notification_log db) \<and> stale_pending now t r} \<and>
    list_all (\<lambda>r. \<not> stale_pending now t r) (notification_log db') \<and>
    (t = 0 \<longrightarrow> (\<forall>r \<in> set (notification_log db'). n_channel r = CHANNEL_EMAIL \<longrightarrow> n_status r = ''PENDING'' \<longrightarrow> now \<le> n_updated_at r))"
proof -
  have ids: "ids = first_occurrences (map n_event_id (filter (stale_pending now t) (notification_log db))) {}"
    and db': "db' = update_where (stale_pending now t) (revert_update now reaper_message) db"
    using assms by (auto simp: reap_stale_pending_def split: if_splits)
  have "list_all (\<lambda>r. \<not> stale_pending now t r) (notification_log db')"
    by (auto simp: db' update_where_def list_all_iff stale_pending_def revert_update_def)
  moreover have "set ids = {n_event_id r |r. r \<in> set (notification_log db) \<and> stale_pending now t r}" "distinct ids"
    using first_occurrences_props [of "map n_event_id (filter (stale_pending now t) (notification_log db))" "{}"]
    by (auto simp: ids)
  moreover have "notification_log db' =
      map (\<lambda>r. if stale_pending now t r then revert_update now reaper_message r else r) (notification_log db)"
    by (simp add: db' update_where_def)
  moreover have "now \<le> n_updated_at r"
    if "t = 0" "r \<in> set (notification_log db')" "n_channel r = CHANNEL_EMAIL" "n_status r = ''PENDING''" for r
    using calculation(1) that by (simp add: list_all_iff stale_pending_def not_less)
  ultimately show ?thesis by blast
qed

end
