(* ===== verification/Ttl_Cache.thy ===== *)
theory Ttl_Cache
  imports Prelude
begin

text \<open>
  The interface of the moka cache that the template store and the block-list store share. The
  cache itself is a library: its operations are a record of parameters, and the laws the stores
  rely on are the assumptions of the locale \<open>moka_cache\<close> (a hit returns the value last inserted
  under the key and not invalidated since; entries may expire or be evicted at any time). The
  association-list cache below has a time to live and satisfies the laws.
\<close>

record ('k, 'v, 'c) cache_ops =
  cache_get :: "datetime \<Rightarrow> 'k \<Rightarrow> 'c \<Rightarrow> 'v option"
  cache_insert :: "datetime \<Rightarrow> 'k \<Rightarrow> 'v \<Rightarrow> 'c \<Rightarrow> 'c"
  cache_invalidate :: "'k \<Rightarrow> 'c \<Rightarrow> 'c"
  cache_invalidate_all :: "'c \<Rightarrow> 'c"
  cache_keys :: "'c \<Rightarrow> 'k list"

locale moka_cache =
  fixes ops :: "('k, 'v, 'c) cache_ops"
  assumes get_insert:
      "cache_get ops t' k' (cache_insert ops t k v c) = Some w \<Longrightarrow>
       k' = k \<and> w = v \<or> k' \<noteq> k \<and> cache_get ops t' k' c = Some w"
    and get_invalidate:
      "cache_get ops t k' (cache_invalidate ops k c) = Some w \<Longrightarrow> k' \<noteq> k \<and> cache_get ops t k' c = Some w"
    and get_invalidate_all: "cache_get ops t k (cache_invalidate_all ops c) = None"
    and keys_cover: "cache_get ops t k c = Some w \<Longrightarrow> k \<in> set (cache_keys ops c)"
begin

text \<open>Every possible hit satisfies \<open>R\<close>.\<close>

definition hits_satisfy :: "('k \<Rightarrow> 'v \<Rightarrow> bool) \<Rightarrow> 'c \<Rightarrow> bool" where
  "hits_satisfy R c \<longleftrightarrow> (\<forall>t k v. cache_get ops t k c = Some v \<longrightarrow> R k v)"

lemma hits_insert: "hits_satisfy R c \<Longrightarrow> R k v \<Longrightarrow> hits_satisfy R (cache_insert ops t k v c)"
  unfolding hits_satisfy_def using get_insert by metis

lemma hits_invalidate_list:
  assumes "\<And>k v. k \<notin> set ks \<Longrightarrow> R k v \<Longrightarrow> R' k v" "hits_satisfy R c"
  shows "hits_satisfy R' (fold (cache_invalidate ops) ks c)"
proof -
  have "cache_get ops t k c = Some v \<and> k \<notin> set ks"
    if "cache_get ops t k (fold (cache_invalidate ops) ks c) = Some v" for t k v
    using that
  proof (induction ks arbitrary: c)
    case (Cons a ks)
    then have 1: "cache_get ops t k (cache_invalidate ops a c) = Some v" and 2: "k \<notin> set ks" by simp_all
    from get_invalidate [OF 1] 2 show ?case by simp
  qed simp
  with assms show ?thesis unfolding hits_satisfy_def by blast
qed

lemma hits_invalidate_all: "hits_satisfy R (cache_invalidate_all ops c)"
  by (simp add: hits_satisfy_def get_invalidate_all)

lemma hits_weaken: "hits_satisfy R c \<Longrightarrow> (\<And>k v. R k v \<Longrightarrow> R' k v) \<Longrightarrow> hits_satisfy R' c"
  unfolding hits_satisfy_def by blast

end

section \<open>A cache with a time to live\<close>

definition ttl_cache :: "int \<Rightarrow> ('k, 'v, ('k \<times> 'v \<times> datetime) list) cache_ops" where
  "ttl_cache ttl =
     \<lparr>cache_get = (\<lambda>now k c. case map_of c k of Some (v, expiry) \<Rightarrow> if now < expiry then Some v else None | None \<Rightarrow> None),
      cache_insert = (\<lambda>now k v c. let c' = filter (\<lambda>e. fst e \<noteq> k) c in if ttl \<le> 0 then c' else (k, v, now + ttl) # c'),
      cache_invalidate = (\<lambda>k c. filter (\<lambda>e. fst e \<noteq> k) c),
      cache_invalidate_all = (\<lambda>c. []),
      cache_keys = map fst\<rparr>"

lemma map_of_filter_key: "map_of (filter (\<lambda>e. fst e \<noteq> k) c) k' = (if k' = k then None else map_of c k')"
  by (induction c) auto

text \<open>With a time to live of zero the cache stores nothing.\<close>

interpretation ttl: moka_cache "ttl_cache d"
proof (unfold_locales, goal_cases)
  case (4 t k c w)
  then have "k \<in> dom (map_of c)" by (auto simp: ttl_cache_def split: option.splits)
  then show ?case by (simp add: ttl_cache_def dom_map_of_conv_image_fst)
qed (auto simp: ttl_cache_def map_of_filter_key Let_def split: if_splits option.splits)

end
