(* ===== verification/Template_Store.thy ===== *)
theory Template_Store
  imports Log_Invariants Ttl_Cache
begin

text \<open>
  \<^verbatim>\<open>crates/store/src/template_store.rs\<close>: the template table with its cache. The cache is a
  parameter (see \<open>Ttl_Cache\<close>); the collation of the database, which orders listings, is the
  parameter \<open>rank\<close>. The coherence lemmas are about operations that run one after the other; the section on
  resolutions in flight lets them interleave and shows when an upload takes effect.
\<close>

record NotificationTemplate =
  t_subject :: string
  t_body_html :: string
  t_body_text :: string

record TemplateRow =
  tr_event_type :: string
  tr_channel :: string
  tr_subject :: string
  tr_body_html :: string
  tr_body_text :: string
  tr_version :: int
  tr_active :: bool
  tr_updated_at :: datetime

record 'c TemplateStore =
  ts_rows :: "TemplateRow list"
  ts_cache :: 'c

type_synonym 'c template_cache = "(string, NotificationTemplate, 'c) cache_ops"

definition template_key :: "string \<Rightarrow> string \<Rightarrow> TemplateRow \<Rightarrow> bool" where
  "template_key event_type channel r \<longleftrightarrow> tr_event_type r = event_type \<and> tr_channel r = channel"

definition cache_key :: "string \<Rightarrow> string \<Rightarrow> string" where
  "cache_key channel event_type = channel @ CHR '':'' # event_type"

definition template_of :: "TemplateRow \<Rightarrow> NotificationTemplate" where
  "template_of r = \<lparr>t_subject = tr_subject r, t_body_html = tr_body_html r, t_body_text = tr_body_text r\<rparr>"

definition active_template :: "TemplateRow list \<Rightarrow> string \<Rightarrow> string \<Rightarrow> TemplateRow option" where
  "active_template rows event_type channel =
     find (\<lambda>r. template_key event_type channel r \<and> tr_active r) rows"

definition unknown_template :: "string \<Rightarrow> string \<Rightarrow> AppError" where
  "unknown_template event_type channel =
     Template (''Unknown event type '' @ CHR 0x27 # event_type @ CHR 0x27 # '' for channel '' @ CHR 0x27 # channel @ CHR 0x27 # '' ''
       @ em_dash @ '' add a row to notification_template'')"

text \<open>
  \<^verbatim>\<open>resolve\<close> looks into the cache, reads the row and keeps what it read; each is an await of its own, and others may act in
  between (the last section). Run without a pause they are \<open>template_resolve\<close>.
\<close>

definition template_cached :: "'c template_cache \<Rightarrow> datetime \<Rightarrow> string \<Rightarrow> string \<Rightarrow> 'c TemplateStore \<Rightarrow> NotificationTemplate option" where
  "template_cached ops now event_type channel self = cache_get ops now (cache_key channel event_type) (ts_cache self)"

definition template_fetch :: "db_fault \<Rightarrow> string \<Rightarrow> string \<Rightarrow> TemplateRow list \<Rightarrow> AppError + NotificationTemplate" where
  "template_fetch fault event_type channel rows =
     (case fault of
        Some e \<Rightarrow> Err (Database e)
      | None \<Rightarrow>
          (case active_template rows event_type channel of
             None \<Rightarrow> Err (unknown_template event_type channel)
           | Some r \<Rightarrow> Ok (template_of r)))"

definition template_keep ::
  "'c template_cache \<Rightarrow> datetime \<Rightarrow> string \<Rightarrow> string \<Rightarrow> NotificationTemplate \<Rightarrow> 'c TemplateStore \<Rightarrow> 'c TemplateStore" where
  "template_keep ops now event_type channel tpl self =
     self\<lparr>ts_cache := cache_insert ops now (cache_key channel event_type) tpl (ts_cache self)\<rparr>"

definition template_resolve ::
  "'c template_cache \<Rightarrow> db_fault \<Rightarrow> datetime \<Rightarrow> string \<Rightarrow> string \<Rightarrow> 'c TemplateStore \<Rightarrow>
   (AppError + NotificationTemplate) \<times> 'c TemplateStore" where
  "template_resolve ops fault now event_type channel self =
     (case template_cached ops now event_type channel self of
        Some tpl \<Rightarrow> (Ok tpl, self)
      | None \<Rightarrow>
          (case template_fetch fault event_type channel (ts_rows self) of
             Inl e \<Rightarrow> (Err e, self)
           | Inr tpl \<Rightarrow> (Ok tpl, template_keep ops now event_type channel tpl self)))"

definition template_list :: "(string \<Rightarrow> int) \<Rightarrow> db_fault \<Rightarrow> 'c TemplateStore \<Rightarrow> AppError + TemplateRow list" where
  "template_list rank fault self =
     (case fault of
        Some e \<Rightarrow> Err (Database e)
      | None \<Rightarrow> Ok (sort_key (rank \<circ> tr_event_type) (sort_key (rank \<circ> tr_channel) (ts_rows self))))"

definition template_get ::
  "(string \<Rightarrow> int) \<Rightarrow> db_fault \<Rightarrow> string \<Rightarrow> 'c TemplateStore \<Rightarrow> AppError + TemplateRow list" where
  "template_get rank fault event_type self =
     (case fault of
        Some e \<Rightarrow> Err (Database e)
      | None \<Rightarrow> Ok (sort_key (rank \<circ> tr_channel) (filter (\<lambda>r. tr_event_type r = event_type) (ts_rows self))))"

definition template_invalidate :: "'c template_cache \<Rightarrow> string \<Rightarrow> 'c TemplateStore \<Rightarrow> 'c TemplateStore" where
  "template_invalidate ops event_type self =
     self\<lparr>ts_cache := fold (cache_invalidate ops)
       (filter (ends_with (CHR '':'' # event_type)) (cache_keys ops (ts_cache self))) (ts_cache self)\<rparr>"

definition template_invalidate_all :: "'c template_cache \<Rightarrow> 'c TemplateStore \<Rightarrow> 'c TemplateStore" where
  "template_invalidate_all ops self = self\<lparr>ts_cache := cache_invalidate_all ops (ts_cache self)\<rparr>"

definition content_changed :: "TemplateRow \<Rightarrow> string \<Rightarrow> string \<Rightarrow> string \<Rightarrow> bool" where
  "content_changed r subject body_html body_text \<longleftrightarrow>
     tr_subject r \<noteq> subject \<or> tr_body_html r \<noteq> body_html \<or> tr_body_text r \<noteq> body_text"

text \<open>The \<^verbatim>\<open>SET\<close> clause that upsert and patch share.\<close>

definition template_write :: "datetime \<Rightarrow> string \<Rightarrow> string \<Rightarrow> string \<Rightarrow> bool \<Rightarrow> TemplateRow \<Rightarrow> TemplateRow" where
  "template_write now subject body_html body_text active r =
     (let changed = content_changed r subject body_html body_text
      in r\<lparr>tr_subject := subject, tr_body_html := body_html, tr_body_text := body_text, tr_active := active,
           tr_version := (if changed then tr_version r + 1 else tr_version r),
           tr_updated_at := (if changed then now else tr_updated_at r)\<rparr>)"

text \<open>The statements of upsert and patch, and the two operations: the statement, then the invalidation.\<close>

definition upsert_rows ::
  "db_fault \<Rightarrow> datetime \<Rightarrow> string \<Rightarrow> string \<Rightarrow> string \<Rightarrow> string \<Rightarrow> string \<Rightarrow> bool \<Rightarrow>
   TemplateRow list \<Rightarrow> AppError + (int \<times> bool) \<times> TemplateRow list" where
  "upsert_rows fault now event_type channel subject body_html body_text active rows =
     (case fault of
        Some e \<Rightarrow> Err (Database e)
      | None \<Rightarrow>
          (case find (template_key event_type channel) rows of
             Some r \<Rightarrow>
               let r' = template_write now subject body_html body_text active r
               in if tr_version r' > int4_max then Err integer_out_of_range
                  else Ok ((tr_version r', False), map (\<lambda>x. if template_key event_type channel x then r' else x) rows)
           | None \<Rightarrow>
               Ok ((1, True), rows @
                 [\<lparr>tr_event_type = event_type, tr_channel = channel, tr_subject = subject,
                   tr_body_html = body_html, tr_body_text = body_text, tr_version = 1,
                   tr_active = active, tr_updated_at = now\<rparr>])))"

definition template_upsert ::
  "'c template_cache \<Rightarrow> db_fault \<Rightarrow> datetime \<Rightarrow> string \<Rightarrow> string \<Rightarrow> string \<Rightarrow> string \<Rightarrow> string \<Rightarrow> bool \<Rightarrow>
   'c TemplateStore \<Rightarrow> (AppError + (int \<times> bool)) \<times> 'c TemplateStore" where
  "template_upsert ops fault now event_type channel subject body_html body_text active self =
     (case upsert_rows fault now event_type channel subject body_html body_text active (ts_rows self) of
        Inl e \<Rightarrow> (Err e, self)
      | Inr (res, rows) \<Rightarrow> (Ok res, template_invalidate ops event_type (self\<lparr>ts_rows := rows\<rparr>)))"

definition patch_rows ::
  "db_fault \<Rightarrow> datetime \<Rightarrow> string \<Rightarrow> string \<Rightarrow> string option \<Rightarrow> string option \<Rightarrow> string option \<Rightarrow>
   bool option \<Rightarrow> TemplateRow list \<Rightarrow> AppError + ((int \<times> bool) \<times> TemplateRow list) option" where
  "patch_rows fault now event_type channel subject body_html body_text active rows =
     (case fault of
        Some e \<Rightarrow> Err (Database e)
      | None \<Rightarrow>
          (case find (template_key event_type channel) rows of
             None \<Rightarrow> Ok None
           | Some r \<Rightarrow>
               let r' = template_write now (case_option (tr_subject r) id subject)
                          (case_option (tr_body_html r) id body_html)
                          (case_option (tr_body_text r) id body_text)
                          (case_option (tr_active r) id active) r
               in if tr_version r' > int4_max then Err integer_out_of_range
                  else Ok (Some ((tr_version r', tr_active r'),
                         map (\<lambda>x. if template_key event_type channel x then r' else x) rows))))"

definition template_patch ::
  "'c template_cache \<Rightarrow> db_fault \<Rightarrow> datetime \<Rightarrow> string \<Rightarrow> string \<Rightarrow> string option \<Rightarrow> string option \<Rightarrow> string option \<Rightarrow>
   bool option \<Rightarrow> 'c TemplateStore \<Rightarrow> (AppError + (int \<times> bool) option) \<times> 'c TemplateStore" where
  "template_patch ops fault now event_type channel subject body_html body_text active self =
     (case patch_rows fault now event_type channel subject body_html body_text active (ts_rows self) of
        Inl e \<Rightarrow> (Err e, self)
      | Inr None \<Rightarrow> (Ok None, self)
      | Inr (Some (res, rows)) \<Rightarrow> (Ok (Some res), template_invalidate ops event_type (self\<lparr>ts_rows := rows\<rparr>)))"

lemmas template_resolve_defs = template_resolve_def template_cached_def template_fetch_def template_keep_def
lemmas template_upsert_defs = template_upsert_def upsert_rows_def
lemmas template_patch_defs = template_patch_def patch_rows_def

section \<open>Coherence of the email templates\<close>

text \<open>A cached email template is the content of the active row.\<close>

definition email_entry_ok :: "TemplateRow list \<Rightarrow> string \<Rightarrow> NotificationTemplate \<Rightarrow> bool" where
  "email_entry_ok rows key tpl \<longleftrightarrow>
     (\<forall>ty. key = cache_key CHANNEL_EMAIL ty \<longrightarrow>
        map_option template_of (active_template rows ty CHANNEL_EMAIL) = Some tpl)"

definition template_coherent :: "'c template_cache \<Rightarrow> 'c TemplateStore \<Rightarrow> bool" where
  "template_coherent ops s \<longleftrightarrow>
     (\<forall>t key tpl. cache_get ops t key (ts_cache s) = Some tpl \<longrightarrow> email_entry_ok (ts_rows s) key tpl)"

lemma cache_key_inject [simp]: "cache_key c a = cache_key c b \<longleftrightarrow> a = b"
  by (simp add: cache_key_def)

lemma ends_with_cache_key: "ends_with (CHR '':'' # ty) (cache_key c ty)"
  by (auto simp: ends_with_iff cache_key_def)

definition template_inv :: "'c template_cache \<Rightarrow> 'c TemplateStore \<Rightarrow> bool" where
  "template_inv ops s \<longleftrightarrow>
     template_coherent ops s \<and> distinct (map (\<lambda>r. (tr_event_type r, tr_channel r)) (ts_rows s))"

lemma rows_invalidate [simp]: "ts_rows (template_invalidate ops ty s) = ts_rows s"
  by (simp add: template_invalidate_def)

locale template_cache = moka_cache ops for ops :: "(string, NotificationTemplate, 'c) cache_ops"
begin

lemma invalidated_hit:
  assumes "cache_get ops t k (ts_cache (template_invalidate ops ty s)) = Some v"
  shows "cache_get ops t k (ts_cache s) = Some v \<and> \<not> ends_with (CHR '':'' # ty) k"
proof -
  let ?c = "ts_cache s" and ?P = "ends_with (CHR '':'' # ty)"
  have "hits_satisfy (\<lambda>k v. k \<in> set (cache_keys ops ?c)) ?c"
    using keys_cover by (auto simp: hits_satisfy_def)
  then have 1: "hits_satisfy (\<lambda>k v. \<not> ?P k) (fold (cache_invalidate ops) (filter ?P (cache_keys ops ?c)) ?c)"
    by (rule hits_invalidate_list [rotated]) auto
  have hit: "cache_get ops t k c = Some v" if "cache_get ops t k (fold (cache_invalidate ops) ks c) = Some v" for ks c
    using that
  proof (induction ks arbitrary: c)
    case (Cons a ks)
    then have "cache_get ops t k (cache_invalidate ops a c) = Some v" by simp
    from get_invalidate [OF this] show ?case by simp
  qed simp
  from assms have get: "cache_get ops t k (fold (cache_invalidate ops) (filter ?P (cache_keys ops ?c)) ?c) = Some v"
    by (simp add: template_invalidate_def)
  from hit [OF get] 1 get show ?thesis unfolding hits_satisfy_def by blast
qed

lemma write_coherent:
  assumes "template_coherent ops s"
    and "\<And>ty'. ty' \<noteq> ty \<Longrightarrow> active_template rows' ty' CHANNEL_EMAIL = active_template (ts_rows s) ty' CHANNEL_EMAIL"
  shows "template_coherent ops (template_invalidate ops ty (s\<lparr>ts_rows := rows'\<rparr>))"
  unfolding template_coherent_def
proof (intro allI impI)
  fix t key tpl
  assume "cache_get ops t key (ts_cache (template_invalidate ops ty (s\<lparr>ts_rows := rows'\<rparr>))) = Some tpl"
  from invalidated_hit [OF this] have hit: "cache_get ops t key (ts_cache s) = Some tpl" "\<not> ends_with (CHR '':'' # ty) key"
    by simp_all
  then have "email_entry_ok (ts_rows s) key tpl" using assms(1) unfolding template_coherent_def by blast
  moreover have "ty' \<noteq> ty" if "key = cache_key CHANNEL_EMAIL ty'" for ty'
    using that hit(2) ends_with_cache_key by blast
  ultimately show "email_entry_ok (ts_rows (template_invalidate ops ty (s\<lparr>ts_rows := rows'\<rparr>))) key tpl"
    using assms(2) by (simp add: email_entry_ok_def template_invalidate_def)
qed

lemma coherent_resolve:
  assumes "template_coherent ops s"
  shows "template_coherent ops (snd (template_resolve ops fault now ty CHANNEL_EMAIL s))"
proof (cases "snd (template_resolve ops fault now ty CHANNEL_EMAIL s) = s")
  case False
  then obtain r where r: "active_template (ts_rows s) ty CHANNEL_EMAIL = Some r"
    "snd (template_resolve ops fault now ty CHANNEL_EMAIL s) =
       s\<lparr>ts_cache := cache_insert ops now (cache_key CHANNEL_EMAIL ty) (template_of r) (ts_cache s)\<rparr>"
    by (auto simp: template_resolve_defs Let_def split: option.splits)
  have "hits_satisfy (email_entry_ok (ts_rows s)) (ts_cache s)"
    using assms by (simp add: template_coherent_def hits_satisfy_def)
  then have "hits_satisfy (email_entry_ok (ts_rows s))
      (cache_insert ops now (cache_key CHANNEL_EMAIL ty) (template_of r) (ts_cache s))"
    by (rule hits_insert) (simp add: email_entry_ok_def r(1))
  then show ?thesis by (simp add: r(2) template_coherent_def hits_satisfy_def)
qed (simp add: assms)

lemma resolve_fresh:
  assumes "template_coherent ops s"
  shows "fst (template_resolve ops None now ty CHANNEL_EMAIL s) =
    (case active_template (ts_rows s) ty CHANNEL_EMAIL of
       Some r \<Rightarrow> Ok (template_of r) | None \<Rightarrow> Err (unknown_template ty CHANNEL_EMAIL))"
proof (cases "cache_get ops now (cache_key CHANNEL_EMAIL ty) (ts_cache s)")
  case None
  then show ?thesis by (auto simp: template_resolve_defs Let_def split: option.splits)
next
  case (Some tpl)
  with assms have "email_entry_ok (ts_rows s) (cache_key CHANNEL_EMAIL ty) tpl"
    unfolding template_coherent_def by blast
  then obtain r where "active_template (ts_rows s) ty CHANNEL_EMAIL = Some r" "template_of r = tpl"
    by (auto simp: email_entry_ok_def)
  with Some show ?thesis by (simp add: template_resolve_defs)
qed

lemma coherent_invalidations:
  "template_coherent ops s \<Longrightarrow> template_coherent ops (template_invalidate ops ty s)"
  "template_coherent ops (template_invalidate_all ops s)"
  using write_coherent [of s ty "ts_rows s"]
  by (simp_all add: template_invalidate_all_def template_coherent_def get_invalidate_all)

lemma inv_write:
  assumes "template_inv ops s" "distinct (map (\<lambda>r. (tr_event_type r, tr_channel r)) rows')"
    and "\<And>ty'. ty' \<noteq> ty \<Longrightarrow> active_template rows' ty' CHANNEL_EMAIL = active_template (ts_rows s) ty' CHANNEL_EMAIL"
  shows "template_inv ops (template_invalidate ops ty (s\<lparr>ts_rows := rows'\<rparr>))"
  using assms write_coherent [of s ty rows'] by (simp add: template_inv_def)

end

interpretation email_templates: template_cache "ttl_cache d"
  by unfold_locales

subsection \<open>Rows under a write\<close>

lemma find_key_map:
  assumes "template_key ty ch r'"
  shows "find (template_key ty ch) (map (\<lambda>x. if template_key ty ch x then r' else x) rows) =
    (if find (template_key ty ch) rows = None then None else Some r')"
  using assms by (induction rows) auto

lemma active_other:
  assumes "template_key ty ch r'" "ty' \<noteq> ty"
  shows "active_template (map (\<lambda>x. if template_key ty ch x then r' else x) rows) ty' ch' = active_template rows ty' ch'"
  using assms by (induction rows) (auto simp: active_template_def template_key_def)

lemma active_unique:
  assumes "distinct (map (\<lambda>r. (tr_event_type r, tr_channel r)) rows)"
  shows "active_template rows ty ch =
    (case find (template_key ty ch) rows of Some r \<Rightarrow> if tr_active r then Some r else None | None \<Rightarrow> None)"
  using assms
proof (induction rows)
  case (Cons x rows)
  show ?case
  proof (cases "template_key ty ch x")
    case True
    with Cons.prems have "(ty, ch) \<notin> (\<lambda>r. (tr_event_type r, tr_channel r)) ` set rows"
      by (simp add: template_key_def)
    then have "\<not> template_key ty ch r" if "r \<in> set rows" for r
      using that by (auto simp: template_key_def)
    then have "find (\<lambda>r. template_key ty ch r \<and> tr_active r) rows = None"
      by (auto simp: find_None_iff)
    with True show ?thesis by (simp add: active_template_def)
  next
    case False
    with Cons show ?thesis by (simp add: active_template_def)
  qed
qed (simp add: active_template_def)

lemma keys_map:
  "template_key ty ch r' \<Longrightarrow>
   map (\<lambda>r. (tr_event_type r, tr_channel r)) (map (\<lambda>x. if template_key ty ch x then r' else x) rows) =
   map (\<lambda>r. (tr_event_type r, tr_channel r)) rows"
  by (auto simp: template_key_def)

lemma template_write_key: "template_key ty ch (template_write now a b c act r) = template_key ty ch r"
  by (simp add: template_key_def template_write_def Let_def)

lemma find_template_key: "find (template_key ty ch) rows = Some r \<Longrightarrow> template_key ty ch r"
  by (auto simp: find_Some_iff)

lemma active_append:
  "ty' \<noteq> ty \<Longrightarrow> tr_event_type r = ty \<Longrightarrow> active_template (rows @ [r]) ty' ch' = active_template rows ty' ch'"
  by (induction rows) (auto simp: active_template_def template_key_def)

definition new_template_row :: "datetime \<Rightarrow> string \<Rightarrow> string \<Rightarrow> string \<Rightarrow> string \<Rightarrow> string \<Rightarrow> bool \<Rightarrow> TemplateRow" where
  "new_template_row now ty ch a b c act =
     \<lparr>tr_event_type = ty, tr_channel = ch, tr_subject = a, tr_body_html = b, tr_body_text = c, tr_version = 1,
      tr_active = act, tr_updated_at = now\<rparr>"

text \<open>The three outcomes of an upsert.\<close>

lemma template_upsert_cases:
  obtains (unchanged) e where "template_upsert ops fault now ty ch a b c act s = (Err e, s)"
  | (inserted) "find (template_key ty ch) (ts_rows s) = None"
      "template_upsert ops fault now ty ch a b c act s =
         (Ok (1, True), template_invalidate ops ty (s\<lparr>ts_rows := ts_rows s @ [new_template_row now ty ch a b c act]\<rparr>))"
  | (updated) r where "find (template_key ty ch) (ts_rows s) = Some r"
      "template_upsert ops fault now ty ch a b c act s =
         (Ok (tr_version (template_write now a b c act r), False), template_invalidate ops ty
            (s\<lparr>ts_rows := map (\<lambda>x. if template_key ty ch x then template_write now a b c act r else x) (ts_rows s)\<rparr>))"
proof (cases "find (template_key ty ch) (ts_rows s)")
  case None
  then show thesis
    using that(1,2) by (cases fault) (auto simp: template_upsert_defs new_template_row_def)
next
  case (Some r)
  show thesis
  proof (cases "fault = None \<and> tr_version (template_write now a b c act r) \<le> int4_max")
    case True
    with Some that(3) show thesis by (simp add: template_upsert_defs Let_def)
  next
    case False
    with Some that(1) show thesis by (cases fault) (auto simp: template_upsert_defs Let_def)
  qed
qed

lemma distinct_keys_append:
  assumes "find (template_key ty ch) rows = None" "distinct (map (\<lambda>r. (tr_event_type r, tr_channel r)) rows)"
  shows "distinct (map (\<lambda>r. (tr_event_type r, tr_channel r)) (rows @ [new_template_row now ty ch a b c act]))"
  using assms by (auto simp: find_None_iff template_key_def new_template_row_def)

context template_cache
begin

lemma upsert_inv:
  assumes "template_inv ops s"
  shows "template_inv ops (snd (template_upsert ops fault now ty ch a b c act s))"
proof (cases rule: template_upsert_cases [of ops fault now ty ch a b c act s])
  case (inserted)
  with assms show ?thesis
    by (simp del: map_append, intro inv_write distinct_keys_append active_append)
      (auto simp: template_inv_def new_template_row_def)
next
  case (updated r)
  then have k: "template_key ty ch (template_write now a b c act r)"
    using find_template_key by (simp add: template_write_key)
  with assms updated show ?thesis
    by (simp del: map_map, intro inv_write active_other) (auto simp: template_inv_def keys_map simp del: map_map)
qed (simp add: assms)

lemma patch_inv:
  assumes "template_inv ops s"
  shows "template_inv ops (snd (template_patch ops fault now ty ch a b c act s))"
proof (cases "\<exists>r. fault = None \<and> find (template_key ty ch) (ts_rows s) = Some r")
  case True
  then obtain r where r: "fault = None" "find (template_key ty ch) (ts_rows s) = Some r" by blast
  then have k: "template_key ty ch (template_write now w x y z r)" for w x y z
    using find_template_key by (simp add: template_write_key)
  with assms r show ?thesis
    by (simp add: template_patch_defs Let_def del: map_map, intro conjI impI inv_write active_other)
      (auto simp: template_inv_def keys_map simp del: map_map)
next
  case False
  with assms show ?thesis by (auto simp: template_patch_defs split: option.splits)
qed

end

text \<open>A successful upsert of an email template decides what the next resolution yields.\<close>

lemma upsert_resolves:
  assumes "moka_cache ops" "template_inv ops s"
    and "template_upsert ops fault now ty CHANNEL_EMAIL a b c act s = (Ok res, s')"
  shows "template_inv ops s' \<and> fst (template_resolve ops None now' ty CHANNEL_EMAIL s') =
      (if act then Ok \<lparr>t_subject = a, t_body_html = b, t_body_text = c\<rparr> else Err (unknown_template ty CHANNEL_EMAIL))"
proof -
  have loc: "template_cache ops" using assms(1) by (simp add: template_cache_def)
  have inv': "template_inv ops s'" using template_cache.upsert_inv [OF loc assms(2)] assms(3) by (metis snd_conv)
  have key: "active_template (ts_rows s') ty CHANNEL_EMAIL =
      (case find (template_key ty CHANNEL_EMAIL) (ts_rows s') of Some r \<Rightarrow> if tr_active r then Some r else None | None \<Rightarrow> None)"
    using inv' by (simp add: template_inv_def active_unique)
  have "\<exists>r. find (template_key ty CHANNEL_EMAIL) (ts_rows s') = Some r \<and> tr_active r = act \<and>
      template_of r = \<lparr>t_subject = a, t_body_html = b, t_body_text = c\<rparr>"
  proof (cases rule: template_upsert_cases [of ops fault now ty CHANNEL_EMAIL a b c act s])
    case inserted
    with assms(3) show ?thesis
      by (auto simp: find_append new_template_row_def template_key_def template_of_def)
  next
    case (updated r)
    then have "template_key ty CHANNEL_EMAIL (template_write now a b c act r)"
      using find_template_key by (simp add: template_write_key)
    from find_key_map [OF this, of "ts_rows s"] updated assms(3) show ?thesis
      by (auto simp: template_write_def template_of_def Let_def simp del: find.simps)
  qed (use assms(3) in simp)
  then show ?thesis
    using template_cache.resolve_fresh [OF loc, of s'] inv' key by (auto simp: template_inv_def)
qed

section \<open>Resolutions in flight\<close>

text \<open>
  The store of one process with the email resolutions that have read their row and not yet kept it. A write by
  any process changes the table; the invalidation that follows is a step of its own, and so is one
  that an administrator asks for. The label is the event type that a step writes.
\<close>

record 'c template_system =
  tsy_store :: "'c TemplateStore"
  tsy_loads :: "(string \<times> NotificationTemplate) list"

inductive template_step :: "'c template_cache \<Rightarrow> string option \<Rightarrow> 'c template_system \<Rightarrow> 'c template_system \<Rightarrow> bool" for ops where
  load_begins:
    "template_cached ops now ty CHANNEL_EMAIL s = None \<Longrightarrow> template_fetch None ty CHANNEL_EMAIL (ts_rows s) = Ok tpl \<Longrightarrow>
     template_step ops None \<lparr>tsy_store = s, tsy_loads = ls\<rparr> \<lparr>tsy_store = s, tsy_loads = ls @ [(ty, tpl)]\<rparr>"
| load_kept:
    "template_step ops None \<lparr>tsy_store = s, tsy_loads = ls @ (ty, tpl) # ls'\<rparr>
       \<lparr>tsy_store = template_keep ops now ty CHANNEL_EMAIL tpl s, tsy_loads = ls @ ls'\<rparr>"
| load_dropped:
    "template_step ops None \<lparr>tsy_store = s, tsy_loads = ls @ l # ls'\<rparr> \<lparr>tsy_store = s, tsy_loads = ls @ ls'\<rparr>"
| upsert_written:
    "upsert_rows fault now ty ch a b c act (ts_rows s) = Ok (res, rows) \<Longrightarrow>
     template_step ops (Some ty) \<lparr>tsy_store = s, tsy_loads = ls\<rparr> \<lparr>tsy_store = s\<lparr>ts_rows := rows\<rparr>, tsy_loads = ls\<rparr>"
| patch_written:
    "patch_rows fault now ty ch pa pb pc pact (ts_rows s) = Ok (Some (pres, rows)) \<Longrightarrow>
     template_step ops (Some ty) \<lparr>tsy_store = s, tsy_loads = ls\<rparr> \<lparr>tsy_store = s\<lparr>ts_rows := rows\<rparr>, tsy_loads = ls\<rparr>"
| type_invalidated:
    "template_step ops None \<lparr>tsy_store = s, tsy_loads = ls\<rparr> \<lparr>tsy_store = template_invalidate ops ty s, tsy_loads = ls\<rparr>"
| all_invalidated:
    "template_step ops None \<lparr>tsy_store = s, tsy_loads = ls\<rparr> \<lparr>tsy_store = template_invalidate_all ops s, tsy_loads = ls\<rparr>"

text \<open>Anything but a write of this event type.\<close>

definition quiet_step :: "'c template_cache \<Rightarrow> string \<Rightarrow> 'c template_system \<Rightarrow> 'c template_system \<Rightarrow> bool" where
  "quiet_step ops ty s s' \<longleftrightarrow> (\<exists>w. template_step ops w s s' \<and> w \<noteq> Some ty)"

lemma upsert_rows_other:
  assumes "upsert_rows fault now ty ch a b c act rows = Ok (res, rows')" "ty' \<noteq> ty"
  shows "active_template rows' ty' ch' = active_template rows ty' ch'"
proof (cases "find (template_key ty ch) rows")
  case None
  with assms show ?thesis by (auto simp: upsert_rows_def active_append split: option.splits)
next
  case (Some r)
  from find_template_key [OF this] have "template_key ty ch (template_write now a b c act r)" by (simp add: template_write_key)
  with assms Some show ?thesis by (auto simp: upsert_rows_def Let_def active_other split: option.splits if_splits)
qed

lemma patch_rows_other:
  assumes "patch_rows fault now ty ch a b c act rows = Ok (Some (res, rows'))" "ty' \<noteq> ty"
  shows "active_template rows' ty' ch' = active_template rows ty' ch'"
proof (cases "find (template_key ty ch) rows")
  case None
  with assms show ?thesis by (auto simp: patch_rows_def split: option.splits)
next
  case (Some r)
  from find_template_key [OF this] have "template_key ty ch (template_write now w x y z r)" for w x y z by (simp add: template_write_key)
  with assms Some show ?thesis by (auto simp: patch_rows_def Let_def active_other split: option.splits if_splits)
qed

text \<open>The email template that the statement leaves active.\<close>

lemma upsert_rows_active:
  assumes "distinct (map (\<lambda>r. (tr_event_type r, tr_channel r)) rows)"
    and "upsert_rows fault now ty ch a b c act rows = Ok (res, rows')"
  shows "map_option template_of (active_template rows' ty ch) =
    (if act then Some \<lparr>t_subject = a, t_body_html = b, t_body_text = c\<rparr> else None)"
proof (cases "find (template_key ty ch) rows")
  case None
  with assms(2) have rows': "rows' = rows @ [new_template_row now ty ch a b c act]"
    by (auto simp: upsert_rows_def new_template_row_def split: option.splits)
  have "find (\<lambda>r. template_key ty ch r \<and> tr_active r) rows = None" using None by (auto simp: find_None_iff)
  then show ?thesis
    by (auto simp: rows' active_template_def find_append new_template_row_def template_key_def template_of_def)
next
  case (Some r)
  let ?r = "template_write now a b c act r"
  have k: "template_key ty ch ?r" using find_template_key [OF Some] by (simp add: template_write_key)
  from Some assms(2) have rows': "rows' = map (\<lambda>x. if template_key ty ch x then ?r else x) rows"
    by (auto simp: upsert_rows_def Let_def split: option.splits if_splits)
  have "distinct (map (\<lambda>r. (tr_event_type r, tr_channel r)) rows')" using assms(1) keys_map [OF k, of rows] rows' by metis
  from active_unique [OF this, of ty ch] find_key_map [OF k, of rows] Some rows' show ?thesis
    by (auto simp: template_write_def template_of_def Let_def)
qed

text \<open>Every load of the type that is in flight, and in the end every cached entry, has the written content \<open>x\<close>.\<close>

definition loads_hold :: "string \<Rightarrow> NotificationTemplate option \<Rightarrow> 'c template_system \<Rightarrow> bool" where
  "loads_hold ty x s \<longleftrightarrow>
     map_option template_of (active_template (ts_rows (tsy_store s)) ty CHANNEL_EMAIL) = x \<and>
     (\<forall>tpl. (ty, tpl) \<in> set (tsy_loads s) \<longrightarrow> Some tpl = x)"

definition cache_holds :: "'c template_cache \<Rightarrow> string \<Rightarrow> NotificationTemplate option \<Rightarrow> 'c template_system \<Rightarrow> bool" where
  "cache_holds ops ty x s \<longleftrightarrow>
     (\<forall>t tpl. cache_get ops t (cache_key CHANNEL_EMAIL ty) (ts_cache (tsy_store s)) = Some tpl \<longrightarrow> Some tpl = x)"

lemma quiet_step_loads:
  assumes "quiet_step ops ty s s'" "loads_hold ty x s"
  shows "loads_hold ty x s'"
proof -
  obtain w where "template_step ops w s s'" "w \<noteq> Some ty" using assms(1) by (auto simp: quiet_step_def)
  then show ?thesis
  proof cases
    case (upsert_written fault now ty' ch a b c act st res rows ls)
    with upsert_rows_other [OF upsert_written(4), of ty] assms(2) \<open>w \<noteq> Some ty\<close> show ?thesis by (simp add: loads_hold_def)
  next
    case (patch_written fault now ty' ch a b c act st res rows ls)
    with patch_rows_other [OF patch_written(4), of ty] assms(2) \<open>w \<noteq> Some ty\<close> show ?thesis by (simp add: loads_hold_def)
  qed (use assms(2) in \<open>auto simp: loads_hold_def template_keep_def template_invalidate_all_def template_fetch_def split: option.splits\<close>)
qed

lemma quiet_steps_loads: "(quiet_step ops ty)\<^sup>*\<^sup>* s s' \<Longrightarrow> loads_hold ty x s \<Longrightarrow> loads_hold ty x s'"
  by (induction rule: rtranclp_induct) (auto intro: quiet_step_loads)

context template_cache
begin

lemma quiet_step_cache:
  assumes "quiet_step ops ty s s'" "loads_hold ty x s" "cache_holds ops ty x s"
  shows "cache_holds ops ty x s'"
proof -
  obtain w where "template_step ops w s s'" using assms(1) by (auto simp: quiet_step_def)
  then show ?thesis
  proof cases
    case (load_kept st ls ty' tpl ls' now)
    show ?thesis unfolding cache_holds_def
    proof (intro allI impI)
      fix t v
      assume hit: "cache_get ops t (cache_key CHANNEL_EMAIL ty) (ts_cache (tsy_store s')) = Some v"
      then show "Some v = x"
        using load_kept assms(2,3) get_insert [of t "cache_key CHANNEL_EMAIL ty" now "cache_key CHANNEL_EMAIL ty'" tpl "ts_cache st" v]
        by (auto simp: template_keep_def loads_hold_def cache_holds_def)
    qed
  next
    case (type_invalidated st ls ty')
    with assms(3) invalidated_hit [of _ "cache_key CHANNEL_EMAIL ty" ty' st] show ?thesis by (auto simp: cache_holds_def)
  next
    case (all_invalidated st ls)
    then show ?thesis by (simp add: cache_holds_def template_invalidate_all_def get_invalidate_all)
  qed (use assms(3) in \<open>auto simp: cache_holds_def\<close>)
qed

lemma quiet_steps_cache:
  "(quiet_step ops ty)\<^sup>*\<^sup>* s s' \<Longrightarrow> loads_hold ty x s \<Longrightarrow> cache_holds ops ty x s \<Longrightarrow> cache_holds ops ty x s'"
proof (induction rule: rtranclp_induct)
  case (step s1 s2)
  with quiet_step_cache quiet_steps_loads show ?case by blast
qed simp

lemma invalidation_clears: "cache_holds ops ty x (s\<lparr>tsy_store := template_invalidate ops ty (tsy_store s)\<rparr>)"
  using invalidated_hit [of _ "cache_key CHANNEL_EMAIL ty" ty "tsy_store s"] ends_with_cache_key by (auto simp: cache_holds_def)

text \<open>What a resolution answers then.\<close>

lemma resolve_holds:
  assumes "loads_hold ty x s" "cache_holds ops ty x s"
  shows "fst (template_resolve ops None now ty CHANNEL_EMAIL (tsy_store s)) =
    (case x of Some tpl \<Rightarrow> Ok tpl | None \<Rightarrow> Err (unknown_template ty CHANNEL_EMAIL))"
proof (cases "cache_get ops now (cache_key CHANNEL_EMAIL ty) (ts_cache (tsy_store s))")
  case None
  with assms(1) show ?thesis by (auto simp: template_resolve_defs loads_hold_def split: option.splits)
next
  case (Some tpl)
  with assms(2) have "x = Some tpl" by (auto simp: cache_holds_def)
  with Some show ?thesis by (simp add: template_resolve_defs)
qed

end

section \<open>Properties\<close>

text \<open>
  C36. When an upload takes effect: an administrator's upsert is a statement and then an invalidation of the process's cache.
  Suppose that no resolution of this event type is between its SELECT and its insertion into the cache when the statement runs. Then, whatever resolutions, invalidations and
  writes of other types interleave before the invalidation and after it, and as long as this type is not written again, every resolution
  from the invalidation on yields exactly the uploaded content if it is active and the unknown-type error if it is not: one that hits the cache,
  one that reads the table, and one that is in flight. Up to the invalidation an older cached version may still be used.
  (Without the hypothesis it fails: see the lemma after the witness.) The sweep of an invalidation over the keys of the cache is one
  step; the cache is any cache satisfying the moka laws.
\<close>

theorem template_writes_visible:
  assumes "moka_cache ops" "distinct (map (\<lambda>r. (tr_event_type r, tr_channel r)) (ts_rows (tsy_store s)))"
    and "\<forall>tpl. (ty, tpl) \<notin> set (tsy_loads s)"
    and "upsert_rows None now ty CHANNEL_EMAIL a b c act (ts_rows (tsy_store s)) = Ok (res, rows)"
    and "(quiet_step ops ty)\<^sup>*\<^sup>* (s\<lparr>tsy_store := (tsy_store s)\<lparr>ts_rows := rows\<rparr>\<rparr>) s1"
    and "(quiet_step ops ty)\<^sup>*\<^sup>* (s1\<lparr>tsy_store := template_invalidate ops ty (tsy_store s1)\<rparr>) s2"
  shows "fst (template_resolve ops None now' ty CHANNEL_EMAIL (tsy_store s2)) =
      (if act then Ok \<lparr>t_subject = a, t_body_html = b, t_body_text = c\<rparr> else Err (unknown_template ty CHANNEL_EMAIL)) \<and>
    (\<forall>t tpl. template_cached ops t ty CHANNEL_EMAIL (tsy_store s2) = Some tpl \<or> (ty, tpl) \<in> set (tsy_loads s2) \<longrightarrow>
       act \<and> tpl = \<lparr>t_subject = a, t_body_html = b, t_body_text = c\<rparr>) \<and>
    template_upsert ops None now ty CHANNEL_EMAIL a b c act (tsy_store s) =
      (Ok res, template_invalidate ops ty ((tsy_store s)\<lparr>ts_rows := rows\<rparr>))"
proof -
  let ?x = "if act then Some \<lparr>t_subject = a, t_body_html = b, t_body_text = c\<rparr> else None"
  have loc: "template_cache ops" using assms(1) by (simp add: template_cache_def)
  have "loads_hold ty ?x (s\<lparr>tsy_store := (tsy_store s)\<lparr>ts_rows := rows\<rparr>\<rparr>)"
    using upsert_rows_active [OF assms(2,4)] assms(3) by (simp add: loads_hold_def)
  from quiet_steps_loads [OF assms(5) this]
  have l1: "loads_hold ty ?x (s1\<lparr>tsy_store := template_invalidate ops ty (tsy_store s1)\<rparr>)" by (simp add: loads_hold_def)
  note l2 = quiet_steps_loads [OF assms(6) l1]
  note c2 = template_cache.quiet_steps_cache [OF loc assms(6) l1 template_cache.invalidation_clears [OF loc]]
  have "act \<and> tpl = \<lparr>t_subject = a, t_body_html = b, t_body_text = c\<rparr>"
    if "template_cached ops t ty CHANNEL_EMAIL (tsy_store s2) = Some tpl \<or> (ty, tpl) \<in> set (tsy_loads s2)" for t tpl
    using that l2 c2 by (auto simp: loads_hold_def cache_holds_def template_cached_def split: if_splits)
  moreover have "fst (template_resolve ops None now' ty CHANNEL_EMAIL (tsy_store s2)) =
      (if act then Ok \<lparr>t_subject = a, t_body_html = b, t_body_text = c\<rparr> else Err (unknown_template ty CHANNEL_EMAIL))"
    using template_cache.resolve_holds [OF loc l2 c2, of now'] by simp
  moreover have "template_upsert ops None now ty CHANNEL_EMAIL a b c act (tsy_store s) =
      (Ok res, template_invalidate ops ty ((tsy_store s)\<lparr>ts_rows := rows\<rparr>))"
    using assms(4) by (simp add: template_upsert_def)
  ultimately show ?thesis by blast
qed

text \<open>The old template is cached; it is replaced, a resolution reads the new row before the invalidation and keeps it after.\<close>

definition old_template :: TemplateRow where
  "old_template = new_template_row 0 ''T'' CHANNEL_EMAIL ''old'' ''old'' ''old'' True"

definition sample_templates :: "(string \<times> NotificationTemplate \<times> datetime) list template_system" where
  "sample_templates =
     \<lparr>tsy_store = snd (template_resolve (ttl_cache 300) None 1 ''T'' CHANNEL_EMAIL \<lparr>ts_rows = [old_template], ts_cache = []\<rparr>), tsy_loads = []\<rparr>"

abbreviation new_content :: NotificationTemplate where
  "new_content \<equiv> \<lparr>t_subject = ''new'', t_body_html = ''new'', t_body_text = ''new''\<rparr>"

abbreviation old_content :: NotificationTemplate where
  "old_content \<equiv> \<lparr>t_subject = ''old'', t_body_html = ''old'', t_body_text = ''old''\<rparr>"

definition written_rows :: "TemplateRow list" where
  "written_rows = [template_write 2 ''new'' ''new'' ''new'' True old_template]"

lemma sample_written:
  "upsert_rows None 2 ''T'' CHANNEL_EMAIL ''new'' ''new'' ''new'' True (ts_rows (tsy_store sample_templates)) = Ok ((2, False), written_rows)"
  "upsert_rows None 2 ''T'' CHANNEL_EMAIL ''new'' ''new'' ''new'' True [old_template] = Ok ((2, False), written_rows)"
  by code_simp+

lemma sample_reads_new:
  "quiet_step (ttl_cache 300) ''T'' \<lparr>tsy_store = \<lparr>ts_rows = written_rows, ts_cache = []\<rparr>, tsy_loads = []\<rparr>
     \<lparr>tsy_store = \<lparr>ts_rows = written_rows, ts_cache = []\<rparr>, tsy_loads = [(''T'', new_content)]\<rparr>"
  unfolding quiet_step_def
  by (rule exI [of _ None], rule conjI, rule load_begins [where ls = "[]", simplified append_Nil, of _ 3])
    (simp_all add: template_cached_def ttl_cache_def template_fetch_def active_template_def written_rows_def template_key_def
      template_write_def Let_def old_template_def new_template_row_def template_of_def)

theorem template_writes_visible_witness:
  "template_cached (ttl_cache 300) 2 ''T'' CHANNEL_EMAIL (tsy_store sample_templates) = Some old_content \<and>
   fst (template_resolve (ttl_cache 300) None 3 ''T'' CHANNEL_EMAIL \<lparr>ts_rows = written_rows, ts_cache = []\<rparr>) = Ok new_content"
proof -
  let ?s = "sample_templates\<lparr>tsy_store := (tsy_store sample_templates)\<lparr>ts_rows := written_rows\<rparr>\<rparr>"
  let ?s1 = "?s\<lparr>tsy_store := template_invalidate (ttl_cache 300) ''T'' (tsy_store ?s)\<rparr>"
  have d: "distinct (map (\<lambda>r. (tr_event_type r, tr_channel r)) (ts_rows (tsy_store sample_templates)))"
    "\<forall>tpl. (''T'', tpl) \<notin> set (tsy_loads sample_templates)"
    by (auto simp: sample_templates_def template_resolve_defs split: option.splits)
  have s1: "?s1 = \<lparr>tsy_store = \<lparr>ts_rows = written_rows, ts_cache = []\<rparr>, tsy_loads = []\<rparr>" by code_simp
  have run: "(quiet_step (ttl_cache 300) ''T'')\<^sup>*\<^sup>* ?s1 \<lparr>tsy_store = \<lparr>ts_rows = written_rows, ts_cache = []\<rparr>, tsy_loads = [(''T'', new_content)]\<rparr>"
    unfolding s1 by (rule r_into_rtranclp) (rule sample_reads_new)
  have "template_cached (ttl_cache 300) 2 ''T'' CHANNEL_EMAIL (tsy_store sample_templates) = Some old_content" by code_simp
  with template_writes_visible [OF ttl.moka_cache_axioms d sample_written(1) rtranclp.rtrancl_refl run, of 3] show ?thesis by simp
qed

text \<open>The race: a resolution that has read the old row when the statement runs keeps it after the invalidation, and the
  process goes on using the replaced template until the entry expires.\<close>

lemma replaced_template_kept:
  "\<exists>s s1. template_step (ttl_cache 300) None \<lparr>tsy_store = \<lparr>ts_rows = [old_template], ts_cache = []\<rparr>, tsy_loads = []\<rparr> s \<and>
     upsert_rows None 2 ''T'' CHANNEL_EMAIL ''new'' ''new'' ''new'' True (ts_rows (tsy_store s)) = Ok ((2, False), written_rows) \<and>
     template_step (ttl_cache 300) None
       (s\<lparr>tsy_store := template_invalidate (ttl_cache 300) ''T'' ((tsy_store s)\<lparr>ts_rows := written_rows\<rparr>)\<rparr>) s1 \<and>
     fst (template_resolve (ttl_cache 300) None 301 ''T'' CHANNEL_EMAIL (tsy_store s1)) = Ok old_content"
proof -
  let ?o = "ttl_cache 300 :: (string, NotificationTemplate, (string \<times> NotificationTemplate \<times> datetime) list) cache_ops"
  let ?old = "\<lparr>ts_rows = [old_template], ts_cache = []\<rparr> :: (string \<times> NotificationTemplate \<times> datetime) list TemplateStore"
  let ?s = "\<lparr>tsy_store = ?old, tsy_loads = [(''T'', old_content)]\<rparr>"
  let ?s2 = "template_invalidate ?o ''T'' (?old\<lparr>ts_rows := written_rows\<rparr>)"
  let ?s1 = "\<lparr>tsy_store = template_keep ?o 2 ''T'' CHANNEL_EMAIL old_content ?s2, tsy_loads = []\<rparr>"
  have "template_cached ?o 1 ''T'' CHANNEL_EMAIL ?old = None" "template_fetch None ''T'' CHANNEL_EMAIL (ts_rows ?old) = Ok old_content"
    by code_simp+
  from load_begins [OF this, of "[]"] have "template_step ?o None \<lparr>tsy_store = ?old, tsy_loads = []\<rparr> ?s" by simp
  moreover have "template_step ?o None \<lparr>tsy_store = ?s2, tsy_loads = [(''T'', old_content)]\<rparr> ?s1"
    using load_kept [of ?o ?s2 "[]" "''T''" old_content "[]" 2] by simp
  moreover have "fst (template_resolve ?o None 301 ''T'' CHANNEL_EMAIL (tsy_store ?s1)) = Ok old_content" by code_simp
  ultimately show ?thesis using sample_written(2) by (intro exI [of _ ?s] exI [of _ ?s1]) simp
qed

end
