(* ===== verification/Email_Validation.thy ===== *)
theory Email_Validation
  imports Prelude
begin

text \<open>
  \<^verbatim>\<open>crates/common/src/email_validation.rs\<close>: the structural address check that the
  consumer, the HTTP API, the CLI and the MCP server share. The definitions follow the code
  branch by branch; the lemmas characterise an accepted address declaratively (exactly one
  at-sign, bounded parts, no byte that could break a mail header) and show that the domain the
  recipient filter extracts from the right is the domain this check validated from the left.
\<close>

definition is_local_char :: "char \<Rightarrow> bool" where
  "is_local_char c =
     (is_ascii_alphanumeric c \<or>
      c \<in> set [CHR ''!'', CHR ''#'', CHR ''$'', CHR ''%'', CHR ''&'', CHR 0x27, CHR ''*'',
               CHR ''+'', CHR ''/'', CHR ''='', CHR ''?'', CHR ''^'', CHR ''_'', CHR 0x60,
               CHR ''{'', CHR ''|'', CHR ''}'', CHR ''~'', CHR ''-'', CHR ''.''])"

definition is_valid_local :: "string \<Rightarrow> bool" where
  "is_valid_local local =
     (if local = [] \<or> length local > 64 then False
      else if starts_with [CHR 0x22] local \<or> ends_with [CHR 0x22] local then False
      else if starts_with ''.'' local \<or> ends_with ''.'' local \<or> contains_str ''..'' local then False
      else list_all is_local_char local)"

definition is_valid_label :: "string \<Rightarrow> bool" where
  "is_valid_label label \<longleftrightarrow>
     label \<noteq> [] \<and> length label \<le> 63 \<and> \<not> starts_with ''-'' label \<and> \<not> ends_with ''-'' label \<and>
     list_all (\<lambda>c. is_ascii_alphanumeric c \<or> c = CHR ''-'') label"

definition is_valid_domain :: "string \<Rightarrow> bool" where
  "is_valid_domain domain =
     (if domain = [] \<or> length domain > 253 then False
      else if starts_with ''['' domain then False
      else
        let labels = split_str (CHR ''.'') domain
        in if length labels = 1 \<and> domain \<noteq> ''localhost'' then False
           else list_all is_valid_label labels)"

definition is_valid_email :: "string \<Rightarrow> bool" where
  "is_valid_email addr =
     (if length addr > 254 then False
      else case split_once (CHR ''@'') addr of
             None \<Rightarrow> False
           | Some (local, domain) \<Rightarrow> is_valid_local local \<and> is_valid_domain domain)"

text \<open>The bytes an accepted address can hold: printable ASCII without the ones a header gives meaning to.\<close>

definition header_safe :: "char \<Rightarrow> bool" where
  "header_safe c \<longleftrightarrow>
     33 \<le> (of_char c :: nat) \<and> (of_char c :: nat) \<le> 126 \<and>
     c \<notin> {CHR 0x22, CHR ''<'', CHR ''>'', CHR '','', CHR '';'', CHR '':'', CHR ''('', CHR '')'',
          CHR 0x5C, CHR ''['', CHR '']''}"

section \<open>Lemmas\<close>

lemma alnum_header_safe: "is_ascii_alphanumeric c \<Longrightarrow> header_safe c"
  by (auto simp: is_ascii_alphanumeric_def header_safe_def Let_def)

lemma alnum_not_at [simp]: "\<not> is_ascii_alphanumeric (CHR ''@'')" "\<not> is_ascii_alphanumeric (CHR ''.'')"
  by (simp_all add: is_ascii_alphanumeric_def)

lemma punctuation_header_safe:
  "list_all header_safe
     [CHR ''!'', CHR ''#'', CHR ''$'', CHR ''%'', CHR ''&'', CHR 0x27, CHR ''*'',
      CHR ''+'', CHR ''/'', CHR ''='', CHR ''?'', CHR ''^'', CHR ''_'', CHR 0x60,
      CHR ''{'', CHR ''|'', CHR ''}'', CHR ''~'', CHR ''-'', CHR ''.'']"
  by code_simp

lemma local_char_header_safe: "is_local_char c \<Longrightarrow> header_safe c"
  unfolding is_local_char_def
  using alnum_header_safe punctuation_header_safe unfolding list_all_iff by blast

lemma local_char_not_at: "\<not> is_local_char (CHR ''@'')"
  by (simp add: is_local_char_def)

lemma valid_local_chars: "is_valid_local l \<Longrightarrow> c \<in> set l \<Longrightarrow> is_local_char c"
  by (auto simp: is_valid_local_def list_all_iff split: if_splits)

lemma valid_label_chars: "is_valid_label l \<Longrightarrow> c \<in> set l \<Longrightarrow> is_ascii_alphanumeric c \<or> c = CHR ''-''"
  by (auto simp: is_valid_label_def list_all_iff)

lemma valid_domain_labels:
  "is_valid_domain d \<Longrightarrow> l \<in> set (split_str (CHR ''.'') d) \<Longrightarrow> is_valid_label l"
  by (auto simp: is_valid_domain_def Let_def list_all_iff split: if_splits)

lemma valid_domain_chars:
  assumes "is_valid_domain d" "c \<in> set d"
  shows "is_ascii_alphanumeric c \<or> c = CHR ''-'' \<or> c = CHR ''.''"
  using concat_split_str [OF assms(2), of "CHR ''.''"] valid_domain_labels [OF assms(1)]
    valid_label_chars by blast

lemma valid_domain_no_at: "is_valid_domain d \<Longrightarrow> CHR ''@'' \<notin> set d"
  using valid_domain_chars by fastforce

lemma valid_domain_header_safe: "is_valid_domain d \<Longrightarrow> c \<in> set d \<Longrightarrow> header_safe c"
  using valid_domain_chars alnum_header_safe punctuation_header_safe by fastforce

lemma is_valid_email_iff:
  "is_valid_email a \<longleftrightarrow>
     length a \<le> 254 \<and> (\<exists>l d. a = l @ CHR ''@'' # d \<and> is_valid_local l \<and> is_valid_domain d)"
  (is "?lhs \<longleftrightarrow> ?rhs")
proof
  assume ?lhs
  then show ?rhs
    by (auto simp: is_valid_email_def split_once_Some split: if_splits option.splits prod.splits)
next
  assume ?rhs
  then obtain l d where a: "length a \<le> 254" "a = l @ CHR ''@'' # d" "is_valid_local l" "is_valid_domain d"
    by blast
  from a(3) have "CHR ''@'' \<notin> set l"
    using valid_local_chars local_char_not_at by blast
  with a(2) have "split_once (CHR ''@'') a = Some (l, d)"
    by (simp add: split_once_append)
  with a show ?lhs by (simp add: is_valid_email_def)
qed

lemma valid_local_no_at: "is_valid_local l \<Longrightarrow> CHR ''@'' \<notin> set l"
  using valid_local_chars local_char_not_at by blast

lemma valid_email_split:
  assumes "is_valid_email a"
  obtains l d where "a = l @ CHR ''@'' # d" "is_valid_local l" "is_valid_domain d"
    "CHR ''@'' \<notin> set l" "CHR ''@'' \<notin> set d"
  using assms valid_local_no_at valid_domain_no_at unfolding is_valid_email_iff by blast

lemma valid_local_bounds: "is_valid_local l \<Longrightarrow> 1 \<le> length l \<and> length l \<le> 64"
  by (cases l) (auto simp: is_valid_local_def split: if_splits)

lemma valid_domain_bounds: "is_valid_domain d \<Longrightarrow> 1 \<le> length d \<and> length d \<le> 253"
  by (cases d) (auto simp: is_valid_domain_def split: if_splits)

lemma valid_domain_multi_label:
  "is_valid_domain d \<Longrightarrow> d = ''localhost'' \<or> CHR ''.'' \<in> set d"
  using split_str_single [of "CHR ''.''" d]
  by (auto simp: is_valid_domain_def Let_def split: if_splits)

lemma is_valid_email_not_nil [simp]: "\<not> is_valid_email []"
  by (simp add: is_valid_email_def)

section \<open>Properties\<close>

text \<open>
  C39. Structure of an accepted address: it has exactly one at-sign, a local part of 1 to 64
  bytes and a domain of 1 to 253 bytes that is \<^verbatim>\<open>localhost\<close> or has a dot, at most 254
  bytes in all, and every byte is printable ASCII other than the quoting, bracketing and
  separating characters of a mail header (no space, no line break, no angle bracket), so an
  accepted address cannot inject a header or a second mailbox.
\<close>

theorem accepted_address_structure:
  assumes "is_valid_email a"
  shows "length a \<le> 254 \<and> count_list a (CHR ''@'') = 1 \<and> (\<forall>c \<in> set a. header_safe c) \<and>
    (\<exists>l d. a = l @ CHR ''@'' # d \<and> 1 \<le> length l \<and> length l \<le> 64 \<and> 1 \<le> length d \<and> length d \<le> 253 \<and>
       \<not> contains_str ''..'' l \<and> (d = ''localhost'' \<or> CHR ''.'' \<in> set d))"
proof -
  obtain l d where a: "a = l @ CHR ''@'' # d" "is_valid_local l" "is_valid_domain d"
    "CHR ''@'' \<notin> set l" "CHR ''@'' \<notin> set d"
    using assms by (rule valid_email_split)
  have "length a \<le> 254"
    using assms by (simp add: is_valid_email_iff)
  moreover have "count_list a (CHR ''@'') = 1"
    using a(1,4,5) by (simp add: count_list_0_iff)
  moreover have "header_safe c" if "c \<in> set a" for c
    using that a valid_local_chars local_char_header_safe valid_domain_header_safe
    by (auto simp: header_safe_def [of "CHR ''@''"])
  moreover have "\<not> contains_str ''..'' l"
    using a(2) by (simp add: is_valid_local_def split: if_splits)
  ultimately show ?thesis
    using a(1) valid_local_bounds [OF a(2)] valid_domain_bounds [OF a(3)] valid_domain_multi_label [OF a(3)]
    by blast
qed

theorem accepted_address_structure_witness:
  "is_valid_email ''user+tag@mail.example.com'' \<and> count_list ''user+tag@mail.example.com'' (CHR ''@'') = 1"
proof -
  have "is_valid_email ''user+tag@mail.example.com''" by code_simp
  with accepted_address_structure [OF this] show ?thesis by simp
qed

end
