(* ===== verification/Recipient_Filter.thy ===== *)
theory Recipient_Filter
  imports Common Email_Validation
begin

text \<open>
  \<^verbatim>\<open>crates/recipient_filter\<close>: the static block and allow lists of the configuration file.
  Unicode lower-casing (\<^verbatim>\<open>str::to_lowercase\<close>) is the parameter \<open>lower\<close>; the laws the
  lemmas need of it are the assumptions of the locale \<open>lowercase\<close>, which the ASCII
  lower-casing satisfies. The contract \<open>address_policy\<close> is what the delivery pipeline relies
  on: a verdict per address, errors only of the blocked kind.
\<close>

record FilterConfig =
  blocked_emails :: "string list"
  blocked_domains :: "string list"
  allowed_emails :: "string list"
  allowed_domains :: "string list"

record RecipientFilter =
  rf_blocked_emails :: "string set"
  rf_blocked_domains :: "string set"
  rf_allowed_emails :: "string set"
  rf_allowed_domains :: "string set"
  rf_allowlist_mode :: bool

definition filter_norm :: "(string \<Rightarrow> string) \<Rightarrow> string list \<Rightarrow> string set" where
  "filter_norm lower v = set (map lower v)"

definition filter_new :: "(string \<Rightarrow> string) \<Rightarrow> FilterConfig \<Rightarrow> RecipientFilter" where
  "filter_new lower cfg =
     (let ae = filter_norm lower (allowed_emails cfg);
          ad = filter_norm lower (allowed_domains cfg)
      in \<lparr>rf_blocked_emails = filter_norm lower (blocked_emails cfg),
          rf_blocked_domains = filter_norm lower (blocked_domains cfg),
          rf_allowed_emails = ae,
          rf_allowed_domains = ad,
          rf_allowlist_mode = (ae \<noteq> {} \<or> ad \<noteq> {})\<rparr>)"

definition domain_of :: "string \<Rightarrow> string option" where
  "domain_of email = map_option snd (rsplit_once (CHR ''@'') email)"

definition filter_check ::
  "(string \<Rightarrow> string) \<Rightarrow> RecipientFilter \<Rightarrow> string \<Rightarrow> AppError + unit" where
  "filter_check lower self email =
     (let email_lc = lower email;
          domain = domain_of email_lc
      in if email_lc \<in> rf_blocked_emails self
         then Err (BlockedError (email @ '' is on the blocked-email list''))
         else case domain of
           Some d \<Rightarrow>
             if d \<in> rf_blocked_domains self
             then Err (BlockedError (email @ '': domain '' @ CHR 0x27 # d @ CHR 0x27 # '' is on the blocked-domain list''))
             else if rf_allowlist_mode self \<and> email_lc \<notin> rf_allowed_emails self \<and> d \<notin> rf_allowed_domains self
             then Err (BlockedError (email @ '' is not on the allowed-email/domain list (allowlist mode active)''))
             else Ok ()
         | None \<Rightarrow>
             if rf_allowlist_mode self \<and> email_lc \<notin> rf_allowed_emails self
             then Err (BlockedError (email @ '' is not on the allowed-email/domain list (allowlist mode active)''))
             else Ok ())"

definition is_passthrough :: "RecipientFilter \<Rightarrow> bool" where
  "is_passthrough self \<longleftrightarrow>
     rf_blocked_emails self = {} \<and> rf_blocked_domains self = {} \<and>
     \<not> rf_allowlist_mode self"

text \<open>The declarative policy of the module documentation, over the configuration as written.\<close>

definition matches_list :: "(string \<Rightarrow> string) \<Rightarrow> string list \<Rightarrow> string list \<Rightarrow> string \<Rightarrow> bool" where
  "matches_list lower emails domains email \<longleftrightarrow>
     (\<exists>e \<in> set emails. lower e = lower email) \<or>
     (\<exists>d \<in> set domains. domain_of (lower email) = Some (lower d))"

definition filter_allows :: "(string \<Rightarrow> string) \<Rightarrow> FilterConfig \<Rightarrow> string \<Rightarrow> bool" where
  "filter_allows lower cfg email \<longleftrightarrow>
     \<not> matches_list lower (blocked_emails cfg) (blocked_domains cfg) email \<and>
     (allowed_emails cfg = [] \<and> allowed_domains cfg = [] \<or>
      matches_list lower (allowed_emails cfg) (allowed_domains cfg) email)"

section \<open>Lower-casing and address policies as interfaces\<close>

locale lowercase =
  fixes lower :: "string \<Rightarrow> string"
  assumes lower_idem: "lower (lower s) = lower s"
begin

lemma filter_check_lower:
  "is_ok (filter_check lower f (lower a)) \<longleftrightarrow> is_ok (filter_check lower f a)"
  by (auto simp: filter_check_def Let_def lower_idem split: option.splits)

end

definition ascii_lower_char :: "char \<Rightarrow> char" where
  "ascii_lower_char c =
     (let n = (of_char c :: nat) in if 65 \<le> n \<and> n \<le> 90 then char_of (n + 32) else c)"

definition ascii_lowercase :: "string \<Rightarrow> string" where
  "ascii_lowercase s = map ascii_lower_char s"

lemma ascii_lower_char_idem: "ascii_lower_char (ascii_lower_char c) = ascii_lower_char c"
  by (simp add: ascii_lower_char_def Let_def)

interpretation ascii: lowercase ascii_lowercase
  by unfold_locales (simp add: ascii_lowercase_def ascii_lower_char_idem)

text \<open>
  A policy gives every address a verdict. The client side of it, here: stripping the addresses
  a policy refuses (what the processor does to CC and BCC) leaves exactly the accepted ones in
  their order, and stripping twice changes nothing.
\<close>

locale address_policy =
  fixes verdict :: "string \<Rightarrow> AppError + unit"
  assumes error_kind: "verdict a = Inl e \<Longrightarrow> \<exists>m. e = BlockedError m"
begin

definition strip :: "string list \<Rightarrow> string list" where
  "strip = filter (\<lambda>a. is_ok (verdict a))"

lemma verdict_cases: "verdict a = Ok () \<or> (\<exists>m. verdict a = Err (BlockedError m))"
proof (cases "verdict a")
  case (Inl e)
  with error_kind show ?thesis by blast
qed simp

lemma not_permanent: "verdict a = Err e \<Longrightarrow> \<not> is_permanent_mailer e"
  using error_kind [of a e] by auto

lemma strip_idem: "strip (strip xs) = strip xs"
  by (simp add: strip_def)

lemma strip_sound: "a \<in> set (strip xs) \<longleftrightarrow> a \<in> set xs \<and> is_ok (verdict a)"
  by (auto simp: strip_def)

end

lemma filter_check_error_kind: "filter_check lower f a = Inl e \<Longrightarrow> \<exists>m. e = BlockedError m"
  by (auto simp: filter_check_def Let_def split: option.splits if_splits)

interpretation filter_policy: address_policy "filter_check lower f"
  by unfold_locales (rule filter_check_error_kind)

section \<open>Lemmas\<close>

lemma filter_norm_empty [simp]: "filter_norm lower xs = {} \<longleftrightarrow> xs = []"
  by (simp add: filter_norm_def)

lemma in_filter_norm: "a \<in> filter_norm lower xs \<longleftrightarrow> (\<exists>x \<in> set xs. lower x = a)"
  by (auto simp: filter_norm_def)

lemma filter_check_ok_iff:
  "is_ok (filter_check lower (filter_new lower cfg) a) \<longleftrightarrow> filter_allows lower cfg a"
  by (cases "domain_of (lower a)")
    (force simp: filter_check_def filter_new_def filter_allows_def matches_list_def Let_def
      in_filter_norm)+

lemma is_passthrough_new:
  "is_passthrough (filter_new lower cfg) \<longleftrightarrow>
     blocked_emails cfg = [] \<and> blocked_domains cfg = [] \<and> allowed_emails cfg = [] \<and> allowed_domains cfg = []"
  by (auto simp: is_passthrough_def filter_new_def Let_def)

lemma domain_of_append: "CHR ''@'' \<notin> set d \<Longrightarrow> domain_of (l @ CHR ''@'' # d) = Some d"
  by (auto simp: domain_of_def rsplit_once_Some)

section \<open>Properties\<close>

text \<open>
  C40. The compiled filter decides exactly the documented policy: an address passes if and only
  if neither it nor its domain is on a block list and, when any allow-list entry is configured,
  it or its domain is on an allow list; a refusal is always the blocked error; and a filter
  with no entries is reported as a passthrough exactly when it lets every address through
  because all four lists are empty.
\<close>

theorem filter_check_decides_policy:
  "(case filter_check lower (filter_new lower cfg) a of
      Inr _ \<Rightarrow> filter_allows lower cfg a
    | Inl e \<Rightarrow> \<not> filter_allows lower cfg a \<and> (\<exists>m. e = BlockedError m)) \<and>
   (is_passthrough (filter_new lower cfg) \<longleftrightarrow>
      blocked_emails cfg = [] \<and> blocked_domains cfg = [] \<and> allowed_emails cfg = [] \<and> allowed_domains cfg = [])"
  using filter_check_ok_iff [of lower cfg a] filter_policy.error_kind [of lower "filter_new lower cfg" a]
    is_passthrough_new
  by (cases "filter_check lower (filter_new lower cfg) a") auto

text \<open>
  The filter and the validator agree on what the domain of an address is: for every address
  the validator accepts, the filter's split at the last at-sign yields exactly the domain the
  validator checked, so an address cannot pass validation under one domain and be matched
  against the block list under another.
\<close>

theorem filter_domain_is_validated_domain:
  assumes "is_valid_email a"
  shows "\<exists>l d. split_once (CHR ''@'') a = Some (l, d) \<and> is_valid_domain d \<and> domain_of a = Some d"
proof -
  obtain l d where "a = l @ CHR ''@'' # d" "is_valid_domain d" "CHR ''@'' \<notin> set l" "CHR ''@'' \<notin> set d"
    using assms by (rule valid_email_split)
  then show ?thesis
    using split_once_append [of "CHR ''@''" l d] domain_of_append [of d l] by blast
qed

theorem filter_domain_is_validated_domain_witness:
  "domain_of ''bob@sub.example.org'' = Some ''sub.example.org'' \<and>
   (\<exists>l d. split_once (CHR ''@'') ''bob@sub.example.org'' = Some (l, d) \<and> is_valid_domain d \<and>
      domain_of ''bob@sub.example.org'' = Some d)"
proof -
  have "is_valid_email ''bob@sub.example.org''" by code_simp
  moreover have "domain_of ''bob@sub.example.org'' = Some ''sub.example.org''" by code_simp
  ultimately show ?thesis using filter_domain_is_validated_domain by blast
qed

end
