(* ===== verification/Block_List_Store.thy ===== *)
theory Block_List_Store
  imports Log_Invariants Ttl_Cache Recipient_Filter
begin

text \<open>
  \<^verbatim>\<open>crates/store/src/block_list_store.rs\<close>: the block and allow list of the database, managed at
  run time, with its cached snapshot, whose look-up, SELECT and insertion are operations of their own. \<open>lower\<close> is Rust's lower-casing, \<open>pg_lower\<close> the
  database's (used by the unique index).
\<close>

record BlockListSnapshot =
  bs_blocked_emails :: "string set"
  bs_blocked_domains :: "string set"
  bs_allowed_emails :: "string set"
  bs_allowed_domains :: "string set"
  bs_allowlist_mode :: bool

record BlockListEntry =
  b_id :: int
  b_kind :: string
  b_value :: string
  b_reason :: "string option"
  b_active :: bool
  b_created_at :: datetime

record 'c BlockListStore =
  bl_rows :: "BlockListEntry list"
  bl_next_id :: int
  bl_cache :: 'c

type_synonym 'c block_list_cache = "(string, BlockListSnapshot, 'c) cache_ops"

definition CACHE_KEY :: string where
  "CACHE_KEY = ''block_list''"

definition snapshot_default :: BlockListSnapshot where
  "snapshot_default = \<lparr>bs_blocked_emails = {}, bs_blocked_domains = {}, bs_allowed_emails = {},
     bs_allowed_domains = {}, bs_allowlist_mode = False\<rparr>"

definition snapshot_add :: "BlockListEntry \<Rightarrow> BlockListSnapshot \<Rightarrow> BlockListSnapshot" where
  "snapshot_add row snap =
     (if b_kind row = ''blocked_email''
      then snap\<lparr>bs_blocked_emails := insert (b_value row) (bs_blocked_emails snap)\<rparr>
      else if b_kind row = ''blocked_domain''
      then snap\<lparr>bs_blocked_domains := insert (b_value row) (bs_blocked_domains snap)\<rparr>
      else if b_kind row = ''allowed_email''
      then snap\<lparr>bs_allowed_emails := insert (b_value row) (bs_allowed_emails snap), bs_allowlist_mode := True\<rparr>
      else if b_kind row = ''allowed_domain''
      then snap\<lparr>bs_allowed_domains := insert (b_value row) (bs_allowed_domains snap), bs_allowlist_mode := True\<rparr>
      else snap)"

definition load_snapshot :: "BlockListEntry list \<Rightarrow> BlockListSnapshot" where
  "load_snapshot rows = fold snapshot_add (filter b_active rows) snapshot_default"

text \<open>
  \<^verbatim>\<open>snapshot\<close> looks into the cache, reads the table and keeps what it read, in three awaits; run without a pause they
  are \<open>bl_snapshot\<close>. The time to live counts from the insertion, not from the SELECT.
\<close>

definition bl_cached :: "'c block_list_cache \<Rightarrow> datetime \<Rightarrow> 'c BlockListStore \<Rightarrow> BlockListSnapshot option" where
  "bl_cached ops now self = cache_get ops now CACHE_KEY (bl_cache self)"

definition bl_load :: "db_fault \<Rightarrow> BlockListEntry list \<Rightarrow> AppError + BlockListSnapshot" where
  "bl_load fault rows = (case fault of Some e \<Rightarrow> Err (Database e) | None \<Rightarrow> Ok (load_snapshot rows))"

definition bl_keep :: "'c block_list_cache \<Rightarrow> datetime \<Rightarrow> BlockListSnapshot \<Rightarrow> 'c BlockListStore \<Rightarrow> 'c BlockListStore" where
  "bl_keep ops now snap self = self\<lparr>bl_cache := cache_insert ops now CACHE_KEY snap (bl_cache self)\<rparr>"

definition bl_snapshot ::
  "'c block_list_cache \<Rightarrow> db_fault \<Rightarrow> datetime \<Rightarrow> 'c BlockListStore \<Rightarrow> (AppError + BlockListSnapshot) \<times> 'c BlockListStore" where
  "bl_snapshot ops fault now self =
     (case bl_cached ops now self of
        Some snap \<Rightarrow> (Ok snap, self)
      | None \<Rightarrow>
          (case bl_load fault (bl_rows self) of
             Inl e \<Rightarrow> (Err e, self)
           | Inr snap \<Rightarrow> (Ok snap, bl_keep ops now snap self)))"

lemmas bl_snapshot_defs = bl_snapshot_def bl_cached_def bl_load_def bl_keep_def

definition snapshot_check :: "(string \<Rightarrow> string) \<Rightarrow> BlockListSnapshot \<Rightarrow> string \<Rightarrow> AppError + unit" where
  "snapshot_check lower snap email =
     (let email_lc = lower email;
          domain = map_option snd (rsplit_once (CHR ''@'') email_lc)
      in if email_lc \<in> bs_blocked_emails snap
         then Err (BlockedError (email @ '' is on the blocked-email list''))
         else if (case domain of Some d \<Rightarrow> d \<in> bs_blocked_domains snap | None \<Rightarrow> False)
         then Err (BlockedError (email @ '': domain '' @ CHR 0x27 # the domain @ CHR 0x27 # '' is on the blocked-domain list''))
         else if bs_allowlist_mode snap \<and>
                 \<not> (email_lc \<in> bs_allowed_emails snap \<or>
                    (case domain of Some d \<Rightarrow> d \<in> bs_allowed_domains snap | None \<Rightarrow> False))
         then Err (BlockedError (email @ '' is not on the allowed list (allowlist mode active)''))
         else Ok ())"

definition bl_check ::
  "(string \<Rightarrow> string) \<Rightarrow> 'c block_list_cache \<Rightarrow> db_fault \<Rightarrow> datetime \<Rightarrow> string \<Rightarrow> 'c BlockListStore \<Rightarrow>
   (AppError + unit) \<times> 'c BlockListStore" where
  "bl_check lower ops fault now email self =
     (case bl_snapshot ops fault now self of
        (Inl e, self') \<Rightarrow> (Err e, self')
      | (Inr snap, self') \<Rightarrow> (snapshot_check lower snap email, self'))"

definition bl_invalidate :: "'c block_list_cache \<Rightarrow> 'c BlockListStore \<Rightarrow> 'c BlockListStore" where
  "bl_invalidate ops self = self\<lparr>bl_cache := cache_invalidate ops CACHE_KEY (bl_cache self)\<rparr>"

definition bl_is_empty :: "'c block_list_cache \<Rightarrow> db_fault \<Rightarrow> datetime \<Rightarrow> 'c BlockListStore \<Rightarrow> bool \<times> 'c BlockListStore" where
  "bl_is_empty ops fault now self =
     (case bl_snapshot ops fault now self of
        (Inl _, self') \<Rightarrow> (False, self')
      | (Inr s, self') \<Rightarrow> (bs_blocked_emails s = {} \<and> bs_blocked_domains s = {} \<and> \<not> bs_allowlist_mode s, self'))"

definition block_list_kinds :: "string list" where
  "block_list_kinds = [''blocked_email'', ''blocked_domain'', ''allowed_email'', ''allowed_domain'']"

definition entry_key :: "(string \<Rightarrow> string) \<Rightarrow> string \<Rightarrow> string \<Rightarrow> BlockListEntry \<Rightarrow> bool" where
  "entry_key pg_lower kind value r \<longleftrightarrow> b_kind r = kind \<and> pg_lower (b_value r) = pg_lower value"

definition add_entry ::
  "(string \<Rightarrow> string) \<Rightarrow> (string \<Rightarrow> string) \<Rightarrow> 'c block_list_cache \<Rightarrow> db_fault \<Rightarrow> datetime \<Rightarrow> string \<Rightarrow> string \<Rightarrow> string option \<Rightarrow>
   'c BlockListStore \<Rightarrow> (AppError + BlockListEntry) \<times> 'c BlockListStore" where
  "add_entry lower pg_lower ops fault now kind value reason self =
     (let value_lc = lower value
      in case fault of
           Some e \<Rightarrow> (Err (Database e), self)
         | None \<Rightarrow>
             if kind \<notin> set block_list_kinds then (Err check_violation, self)
             else
               (case find (entry_key pg_lower kind value_lc) (bl_rows self) of
                  Some r \<Rightarrow>
                    let r' = r\<lparr>b_active := True, b_reason := reason\<rparr>
                    in (Ok r', bl_invalidate ops (self\<lparr>bl_rows :=
                          map (\<lambda>x. if entry_key pg_lower kind value_lc x then r' else x) (bl_rows self)\<rparr>))
                | None \<Rightarrow>
                    let r = \<lparr>b_id = bl_next_id self, b_kind = kind, b_value = value_lc, b_reason = reason,
                             b_active = True, b_created_at = now\<rparr>
                    in (Ok r, bl_invalidate ops (self\<lparr>bl_rows := bl_rows self @ [r], bl_next_id := bl_next_id self + 1\<rparr>))))"

definition remove_entry :: "'c block_list_cache \<Rightarrow> db_fault \<Rightarrow> int \<Rightarrow> 'c BlockListStore \<Rightarrow> (AppError + unit) \<times> 'c BlockListStore" where
  "remove_entry ops fault i self =
     (case fault of
        Some e \<Rightarrow> (Err (Database e), self)
      | None \<Rightarrow>
          if \<not> (\<exists>r \<in> set (bl_rows self). b_id r = i \<and> b_active r)
          then (Err (NotFound (''No active block_list entry with id '' @ int_to_string i)), self)
          else (Ok (), bl_invalidate ops (self\<lparr>bl_rows :=
                 map (\<lambda>r. if b_id r = i \<and> b_active r then r\<lparr>b_active := False\<rparr> else r) (bl_rows self)\<rparr>)))"

definition list_entries :: "db_fault \<Rightarrow> 'c BlockListStore \<Rightarrow> AppError + BlockListEntry list" where
  "list_entries fault self =
     (case fault of
        Some e \<Rightarrow> Err (Database e)
      | None \<Rightarrow> Ok (sort_key b_id (filter b_active (bl_rows self))))"

section \<open>The policy of a snapshot\<close>

lemma snapshot_check_error_kind: "snapshot_check lower snap a = Inl e \<Longrightarrow> \<exists>m. e = BlockedError m"
  by (auto simp: snapshot_check_def Let_def split: if_splits)

interpretation snapshot_policy: address_policy "snapshot_check lower snap"
  by unfold_locales (rule snapshot_check_error_kind)

definition values_of :: "string \<Rightarrow> BlockListEntry list \<Rightarrow> string set" where
  "values_of kind rows = b_value ` {r \<in> set rows. b_active r \<and> b_kind r = kind}"

lemma fold_snapshot_add:
  "bs_blocked_emails (fold snapshot_add rows s) = bs_blocked_emails s \<union> b_value ` {r \<in> set rows. b_kind r = ''blocked_email''}"
  "bs_blocked_domains (fold snapshot_add rows s) = bs_blocked_domains s \<union> b_value ` {r \<in> set rows. b_kind r = ''blocked_domain''}"
  "bs_allowed_emails (fold snapshot_add rows s) = bs_allowed_emails s \<union> b_value ` {r \<in> set rows. b_kind r = ''allowed_email''}"
  "bs_allowed_domains (fold snapshot_add rows s) = bs_allowed_domains s \<union> b_value ` {r \<in> set rows. b_kind r = ''allowed_domain''}"
  "bs_allowlist_mode (fold snapshot_add rows s) \<longleftrightarrow> bs_allowlist_mode s \<or> (\<exists>r \<in> set rows. b_kind r = ''allowed_email'' \<or> b_kind r = ''allowed_domain'')"
  by (induction rows arbitrary: s) (auto simp: snapshot_add_def)

lemma load_snapshot_sets:
  "bs_blocked_emails (load_snapshot rows) = values_of ''blocked_email'' rows"
  "bs_blocked_domains (load_snapshot rows) = values_of ''blocked_domain'' rows"
  "bs_allowed_emails (load_snapshot rows) = values_of ''allowed_email'' rows"
  "bs_allowed_domains (load_snapshot rows) = values_of ''allowed_domain'' rows"
  "bs_allowlist_mode (load_snapshot rows) \<longleftrightarrow> values_of ''allowed_email'' rows \<noteq> {} \<or> values_of ''allowed_domain'' rows \<noteq> {}"
  by (auto simp: load_snapshot_def fold_snapshot_add snapshot_default_def values_of_def)

text \<open>The filter that has the active rows as its configuration.\<close>

definition entries_of :: "string \<Rightarrow> BlockListEntry list \<Rightarrow> string list" where
  "entries_of kind rows = map b_value (filter (\<lambda>r. b_active r \<and> b_kind r = kind) rows)"

definition filter_of_rows :: "BlockListEntry list \<Rightarrow> FilterConfig" where
  "filter_of_rows rows =
     \<lparr>blocked_emails = entries_of ''blocked_email'' rows, blocked_domains = entries_of ''blocked_domain'' rows,
      allowed_emails = entries_of ''allowed_email'' rows, allowed_domains = entries_of ''allowed_domain'' rows\<rparr>"

lemma set_entries_of [simp]: "set (entries_of kind rows) = values_of kind rows"
  by (auto simp: entries_of_def values_of_def)

lemma entries_of_Nil [simp]: "entries_of kind rows = [] \<longleftrightarrow> values_of kind rows = {}"
  by (metis set_entries_of set_empty)

definition rows_lowered :: "(string \<Rightarrow> string) \<Rightarrow> BlockListEntry list \<Rightarrow> bool" where
  "rows_lowered lower rows \<longleftrightarrow> (\<forall>r \<in> set rows. lower (b_value r) = b_value r)"

lemma values_lowered: "rows_lowered lower rows \<Longrightarrow> v \<in> values_of kind rows \<Longrightarrow> lower v = v"
  by (auto simp: rows_lowered_def values_of_def)

lemma snapshot_check_policy:
  assumes "rows_lowered lower rows"
  shows "is_ok (snapshot_check lower (load_snapshot rows) a) \<longleftrightarrow> filter_allows lower (filter_of_rows rows) a"
proof -
  have lowered: "(\<exists>v \<in> values_of k rows. lower v = x) \<longleftrightarrow> x \<in> values_of k rows"
    "(\<exists>v \<in> values_of k rows. d = lower v) \<longleftrightarrow> d \<in> values_of k rows" for k x d
    using values_lowered [OF assms] by auto
  show ?thesis
    unfolding snapshot_check_def domain_of_def [symmetric]
    by (cases "domain_of (lower a)")
      (auto simp: Let_def load_snapshot_sets filter_allows_def matches_list_def filter_of_rows_def lowered)
qed

section \<open>Coherence\<close>

definition bl_inv :: "(string \<Rightarrow> string) \<Rightarrow> 'c block_list_cache \<Rightarrow> 'c BlockListStore \<Rightarrow> bool" where
  "bl_inv lower ops s \<longleftrightarrow>
     rows_lowered lower (bl_rows s) \<and>
     (\<forall>t snap. cache_get ops t CACHE_KEY (bl_cache s) = Some snap \<longrightarrow> snap = load_snapshot (bl_rows s))"

locale block_list_cache = moka_cache ops + lowercase lower
  for ops :: "(string, BlockListSnapshot, 'c) cache_ops" and lower :: "string \<Rightarrow> string"
begin

lemma snapshot_fresh:
  assumes "bl_inv lower ops s"
  shows "fst (bl_snapshot ops None now s) = Ok (load_snapshot (bl_rows s)) \<and>
    bl_inv lower ops (snd (bl_snapshot ops fault now s)) \<and> bl_rows (snd (bl_snapshot ops fault now s)) = bl_rows s"
  using assms get_insert [of _ CACHE_KEY now CACHE_KEY _ "bl_cache s"]
  by (auto simp: bl_snapshot_defs bl_inv_def Let_def split: option.splits)

lemma write_inv:
  assumes "rows_lowered lower rows'"
  shows "bl_inv lower ops (bl_invalidate ops (s\<lparr>bl_rows := rows', bl_next_id := n\<rparr>))"
  using assms get_invalidate [of _ CACHE_KEY CACHE_KEY "bl_cache s"] by (auto simp: bl_inv_def bl_invalidate_def)

lemma write_inv_same_id:
  assumes "rows_lowered lower rows'"
  shows "bl_inv lower ops (bl_invalidate ops (s\<lparr>bl_rows := rows'\<rparr>))"
  using write_inv [OF assms, where s = s and n = "bl_next_id s"] by simp

lemma lowered_map:
  "rows_lowered lower rows \<Longrightarrow> (\<And>r. r \<in> set rows \<Longrightarrow> lower (b_value (f r)) = b_value (f r)) \<Longrightarrow> rows_lowered lower (map f rows)"
  by (auto simp: rows_lowered_def)

lemma add_entry_inv:
  assumes "bl_inv lower ops s"
  shows "bl_inv lower ops (snd (add_entry lower pg_lower ops fault now kind value reason s))"
proof (cases "find (entry_key pg_lower kind (lower value)) (bl_rows s)")
  case None
  have "rows_lowered lower (bl_rows s @ [\<lparr>b_id = bl_next_id s, b_kind = kind, b_value = lower value,
      b_reason = reason, b_active = True, b_created_at = now\<rparr>])"
    using assms by (simp add: bl_inv_def rows_lowered_def lower_idem)
  from write_inv [OF this] None assms show ?thesis
    by (auto simp: add_entry_def Let_def split: option.splits)
next
  case (Some r)
  then have r: "r \<in> set (bl_rows s)" by (auto simp: find_Some_iff)
  have "rows_lowered lower (map (\<lambda>x. if entry_key pg_lower kind (lower value) x then r\<lparr>b_active := True, b_reason := reason\<rparr> else x) (bl_rows s))"
    using assms r by (intro lowered_map) (auto simp: bl_inv_def rows_lowered_def)
  from write_inv_same_id [OF this] Some assms show ?thesis
    by (auto simp: add_entry_def Let_def split: option.splits)
qed

lemma remove_entry_inv:
  assumes "bl_inv lower ops s"
  shows "bl_inv lower ops (snd (remove_entry ops fault i s))"
proof -
  have "rows_lowered lower (map (\<lambda>r. if b_id r = i \<and> b_active r then r\<lparr>b_active := False\<rparr> else r) (bl_rows s))"
    using assms by (intro lowered_map) (auto simp: bl_inv_def rows_lowered_def)
  from write_inv_same_id [OF this] assms show ?thesis
    by (auto simp: remove_entry_def split: option.splits)
qed

lemma check_policy:
  assumes "bl_inv lower ops s"
  shows "is_ok (fst (bl_check lower ops None now a s)) \<longleftrightarrow> filter_allows lower (filter_of_rows (bl_rows s)) a"
proof -
  obtain r s' where rs: "bl_snapshot ops None now s = (r, s')" by fastforce
  with snapshot_fresh [OF assms, of now None] have "r = Ok (load_snapshot (bl_rows s))" by simp
  with rs snapshot_check_policy [of lower "bl_rows s"] assms show ?thesis
    by (simp add: bl_check_def bl_inv_def)
qed

end

lemma add_entry_present:
  assumes "add_entry lower pg_lower ops None now kind value reason s = (Ok e, s')"
  shows "\<exists>r \<in> set (bl_rows s'). b_active r \<and> b_kind r = kind \<and> pg_lower (b_value r) = pg_lower (lower value)"
proof (cases "find (entry_key pg_lower kind (lower value)) (bl_rows s)")
  case None
  with assms show ?thesis by (auto simp: add_entry_def Let_def bl_invalidate_def split: if_splits)
next
  case (Some r)
  let ?r = "r\<lparr>b_active := True, b_reason := reason\<rparr>"
  from Some have r: "r \<in> set (bl_rows s)" "entry_key pg_lower kind (lower value) r"
    by (auto simp: find_Some_iff)
  have "bl_rows s' = map (\<lambda>x. if entry_key pg_lower kind (lower value) x then ?r else x) (bl_rows s)"
    using assms Some by (auto simp: add_entry_def Let_def bl_invalidate_def split: if_splits)
  with r have "?r \<in> set (bl_rows s')" by (auto intro!: image_eqI [of _ _ r])
  with r(2) show ?thesis by (intro bexI [of _ ?r]) (auto simp: entry_key_def)
qed

interpretation ascii_block_list: block_list_cache "ttl_cache d" ascii_lowercase
  by unfold_locales

section \<open>Properties\<close>

text \<open>
  The run-time block list: in every state the store's operations can produce, a check decides
  the same declarative policy as the configuration filter over the currently active rows, never
  over an outdated snapshot; so after a successful addition of a blocked address, the very next
  check refuses it in any letter case, and removing an entry or adding one keeps this true.
\<close>

lemma block_list_check_current:
  assumes "moka_cache ops" "lowercase lower" "bl_inv lower ops s"
  shows "(is_ok (fst (bl_check lower ops None now a s)) \<longleftrightarrow> filter_allows lower (filter_of_rows (bl_rows s)) a) \<and>
    bl_inv lower ops (snd (bl_check lower ops fault now a s)) \<and>
    bl_inv lower ops (snd (add_entry lower pg_lower ops fault now kind value reason s)) \<and>
    bl_inv lower ops (snd (remove_entry ops fault i s)) \<and>
    (\<forall>e s'. add_entry lower id ops None now ''blocked_email'' value reason s = (Ok e, s') \<longrightarrow> lower a = lower value \<longrightarrow>
       \<not> is_ok (fst (bl_check lower ops None now' a s')))"
proof -
  have loc: "block_list_cache ops lower" using assms(1,2) by (simp add: block_list_cache_def)
  note inv = block_list_cache.add_entry_inv [OF loc assms(3)] block_list_cache.remove_entry_inv [OF loc assms(3)]
  have "snd (bl_check lower ops fault now a s) = snd (bl_snapshot ops fault now s)"
    by (auto simp: bl_check_def split: prod.splits sum.splits)
  moreover have "\<not> is_ok (fst (bl_check lower ops None now' a s'))"
    if add: "add_entry lower id ops None now ''blocked_email'' value reason s = (Ok e, s')" and a: "lower a = lower value" for e s'
  proof -
    have "\<exists>r \<in> set (bl_rows s'). b_active r \<and> b_kind r = ''blocked_email'' \<and> b_value r = lower value"
      using add_entry_present [OF add] by simp
    then have "lower value \<in> values_of ''blocked_email'' (bl_rows s')" by (force simp: values_of_def)
    then have "\<not> filter_allows lower (filter_of_rows (bl_rows s')) a"
      using a lowercase.lower_idem [OF assms(2)] by (auto simp: filter_allows_def matches_list_def filter_of_rows_def)
    moreover have "bl_inv lower ops s'"
      using block_list_cache.add_entry_inv [OF loc assms(3), of id None now "''blocked_email''" "value" reason] add by simp
    ultimately show ?thesis using block_list_cache.check_policy [OF loc, of s'] by simp
  qed
  ultimately show ?thesis
    using block_list_cache.check_policy [OF loc assms(3)] block_list_cache.snapshot_fresh [OF loc assms(3)] inv by auto
qed

definition sample_block_list :: "(string \<times> BlockListSnapshot \<times> datetime) list BlockListStore" where
  "sample_block_list = \<lparr>bl_rows = [], bl_next_id = 1, bl_cache = []\<rparr>"

lemma block_list_check_current_witness:
  "\<exists>e s'. add_entry ascii_lowercase id (ttl_cache 60) None 5 ''blocked_email'' ''Spam@X.org'' None sample_block_list = (Ok e, s') \<and>
     \<not> is_ok (fst (bl_check ascii_lowercase (ttl_cache 60) None 6 ''SPAM@x.ORG'' s'))"
proof -
  let ?add = "add_entry ascii_lowercase id (ttl_cache 60) None 5 ''blocked_email'' ''Spam@X.org'' None sample_block_list"
  have inv: "bl_inv ascii_lowercase (ttl_cache 60) sample_block_list"
    by (simp add: bl_inv_def rows_lowered_def sample_block_list_def ttl_cache_def)
  have "is_ok (fst ?add)" by code_simp
  then obtain e s' where add: "?add = (Ok e, s')" by (cases ?add) (auto simp: is_ok_def split: sum.splits)
  have "ascii_lowercase ''SPAM@x.ORG'' = ascii_lowercase ''Spam@X.org''" by code_simp
  with block_list_check_current [OF ttl.moka_cache_axioms ascii.lowercase_axioms inv,
      of 5 "''SPAM@x.ORG''" None id "''blocked_email''" "''Spam@X.org''" None 0 6] add
  show ?thesis by blast
qed

end
