(* ===== verification/Mailer.thy ===== *)
theory Mailer
  imports Json
begin

text \<open>
  \<^verbatim>\<open>crates/mailer\<close> without the attachment fetcher: the rendered message, the registry of named
  sender accounts, template rendering, and the two senders (webhook and SMTP) with their
  classification of failures. The libraries appear as parameters: minijinja (parse and render),
  base64, the HTTP exchange of reqwest, and lettre (address and content-type parsing, message
  building, transport).
\<close>

section \<open>message.rs and registry.rs\<close>

record MailboxRef =
  mb_email :: string
  mb_name :: "string option"

record ResolvedAttachment =
  ra_filename :: string
  ra_content_type :: string
  ra_data :: string

record EmailMessage =
  m_event_id :: uuid
  m_to_email :: string
  m_to_name :: "string option"
  m_to_extra :: "MailboxRef list"
  m_subject :: string
  m_body_html :: string
  m_body_text :: string
  m_from_email_override :: "string option"
  m_from_name_override :: "string option"
  m_attachments :: "ResolvedAttachment list"
  m_cc :: "MailboxRef list"
  m_bcc :: "MailboxRef list"

text \<open>The registry maps an account name to a sender, identified here by a value of type \<open>'s\<close>.\<close>

type_synonym 's SenderRegistry = "(string \<times> 's) list"

definition registry_new :: "'s SenderRegistry" where
  "registry_new = []"

definition registry_register :: "string \<Rightarrow> 's \<Rightarrow> 's SenderRegistry \<Rightarrow> 's SenderRegistry" where
  "registry_register name sender reg = (name, sender) # filter (\<lambda>(n, _). n \<noteq> name) reg"

definition registry_resolve :: "'s SenderRegistry \<Rightarrow> string option \<Rightarrow> 's option" where
  "registry_resolve reg account_name = Option.bind account_name (map_of reg)"

section \<open>template.rs\<close>

datatype auto_escape = EscapeHtml | EscapeNone

text \<open>A minijinja error: whether its kind is \<^verbatim>\<open>UndefinedError\<close>, and its text.\<close>

record jinja_error =
  je_undefined :: bool
  je_text :: string

record jinja =
  jinja_parse :: "auto_escape \<Rightarrow> string \<Rightarrow> jinja_error + unit"
  jinja_render :: "auto_escape \<Rightarrow> string \<Rightarrow> json \<Rightarrow> jinja_error + string"

definition template_err :: "string \<Rightarrow> jinja_error \<Rightarrow> AppError" where
  "template_err phase err =
     Template (if je_undefined err then ''undefined variable during '' @ phase @ '': '' @ je_text err
               else ''template '' @ phase @ '' error: '' @ je_text err)"

definition render_with_env :: "jinja \<Rightarrow> auto_escape \<Rightarrow> string \<Rightarrow> json \<Rightarrow> AppError + string" where
  "render_with_env j esc template payload =
     (case jinja_parse j esc template of
        Inl e \<Rightarrow> Err (template_err ''parse'' e)
      | Inr _ \<Rightarrow> map_err (template_err ''render'') (jinja_render j esc template payload))"

definition render_template :: "jinja \<Rightarrow> string \<Rightarrow> json \<Rightarrow> AppError + string" where
  "render_template j = render_with_env j EscapeNone"

definition render_html_template :: "jinja \<Rightarrow> string \<Rightarrow> json \<Rightarrow> AppError + string" where
  "render_html_template j = render_with_env j EscapeHtml"

section \<open>webhook.rs\<close>

record WebhookSender =
  wh_url :: string
  wh_auth_token :: "string option"

definition mailbox_json :: "MailboxRef \<Rightarrow> json" where
  "mailbox_json r = JObj [(''email'', JStr (mb_email r)), (''name'', enc_option JStr (mb_name r))]"

definition attachment_json :: "(string \<Rightarrow> string) \<Rightarrow> ResolvedAttachment \<Rightarrow> json" where
  "attachment_json base64 a =
     JObj [(''filename'', JStr (ra_filename a)), (''content_type'', JStr (ra_content_type a)),
           (''data'', JStr (base64 (ra_data a)))]"

definition webhook_body :: "(string \<Rightarrow> string) \<Rightarrow> EmailMessage \<Rightarrow> json" where
  "webhook_body base64 msg =
     JObj [(''event_id'', JStr (m_event_id msg)),
           (''to_email'', JStr (m_to_email msg)),
           (''to_name'', enc_option JStr (m_to_name msg)),
           (''to_extra'', enc_vec mailbox_json (m_to_extra msg)),
           (''subject'', JStr (m_subject msg)),
           (''body_html'', JStr (m_body_html msg)),
           (''body_text'', JStr (m_body_text msg)),
           (''from_email_override'', enc_option JStr (m_from_email_override msg)),
           (''from_name_override'', enc_option JStr (m_from_name_override msg)),
           (''attachments'', enc_vec (attachment_json base64) (m_attachments msg)),
           (''cc'', enc_vec mailbox_json (m_cc msg)),
           (''bcc'', enc_vec mailbox_json (m_bcc msg))]"

text \<open>
  What the HTTP client reports: a failed exchange, or a status with the body it could read
  (\<open>None\<close> when reading the body failed). \<open>lossy\<close> is \<^verbatim>\<open>String::from_utf8_lossy\<close> and
  \<open>status_text\<close> the display of a status code.
\<close>

datatype http_reply = NetworkError string | HttpReply nat "string option"

definition is_client_error :: "nat \<Rightarrow> bool" where
  "is_client_error status \<longleftrightarrow> 400 \<le> status \<and> status < 500"

definition is_server_error :: "nat \<Rightarrow> bool" where
  "is_server_error status \<longleftrightarrow> 500 \<le> status \<and> status < 600"

definition is_success :: "nat \<Rightarrow> bool" where
  "is_success status \<longleftrightarrow> 200 \<le> status \<and> status < 300"

definition ellipsis :: string where
  "ellipsis = [CHR 0xE2, CHR 0x80, CHR 0xA6]"

definition webhook_error_text :: "(string \<Rightarrow> string) \<Rightarrow> string option \<Rightarrow> string" where
  "webhook_error_text lossy body =
     (let raw_bytes = (case body of Some b \<Rightarrow> b | None \<Rightarrow> []);
          txt = lossy (take 512 raw_bytes)
      in if length raw_bytes > 512
         then txt @ ellipsis @ '' ('' @ nat_to_string (length raw_bytes) @ '' bytes total)''
         else txt)"

definition webhook_send ::
  "(string \<Rightarrow> string) \<Rightarrow> (nat \<Rightarrow> string) \<Rightarrow> (string \<Rightarrow> string) \<Rightarrow>
   (string \<Rightarrow> string option \<Rightarrow> json \<Rightarrow> http_reply) \<Rightarrow> WebhookSender \<Rightarrow> EmailMessage \<Rightarrow> AppError + unit" where
  "webhook_send lossy status_text base64 post self msg =
     (case post (wh_url self) (wh_auth_token self) (webhook_body base64 msg) of
        NetworkError e \<Rightarrow> Err (transient_mailer e)
      | HttpReply status body \<Rightarrow>
          if is_success status then Ok ()
          else
            let truncated = webhook_error_text lossy body
            in if status = 429 then Err (RateLimited (''webhook HTTP 429: '' @ truncated))
               else if is_client_error status
               then Err (permanent_mailer (''webhook HTTP '' @ status_text status @ '': '' @ truncated))
               else Err (transient_mailer (''webhook HTTP '' @ status_text status @ '': '' @ truncated)))"

section \<open>smtp.rs\<close>

datatype SmtpTlsMode = Smtps | Starttls | TlsNone

record SmtpConfig =
  sc_host :: string
  sc_port :: u16
  sc_username :: string
  sc_password :: string
  sc_from_email :: string
  sc_from_name :: string
  sc_tls_mode :: "SmtpTlsMode option"
  sc_connection_timeout_ms :: u64
  sc_read_timeout_ms :: u64
  sc_write_timeout_ms :: u64
  sc_pool_size :: u32

definition effective_tls_mode :: "SmtpConfig \<Rightarrow> SmtpTlsMode" where
  "effective_tls_mode self =
     (case sc_tls_mode self of
        Some m \<Rightarrow> m
      | None \<Rightarrow>
          if sc_port self = 465 then Smtps
          else if sc_port self = 587 \<or> sc_port self = 25 then Starttls
          else TlsNone)"

text \<open>The options \<^verbatim>\<open>SmtpSender::new\<close> hands to the transport builder.\<close>

record smtp_transport =
  st_mode :: SmtpTlsMode
  st_host :: string
  st_port :: u16
  st_timeout_ms :: u64
  st_pool_size :: u32
  st_credentials :: "(string \<times> string) option"

record SmtpSender =
  ss_transport :: smtp_transport
  ss_from_email :: string
  ss_from_name :: string

definition smtp_sender_new :: "(SmtpTlsMode \<Rightarrow> string \<Rightarrow> string option) \<Rightarrow> SmtpConfig \<Rightarrow> AppError + SmtpSender" where
  "smtp_sender_new relay_error cfg =
     (let mode = effective_tls_mode cfg;
          creds = (if sc_username cfg \<noteq> [] then Some (sc_username cfg, sc_password cfg) else None);
          sender = \<lparr>ss_transport = \<lparr>st_mode = mode, st_host = sc_host cfg, st_port = sc_port cfg,
                                    st_timeout_ms = sc_connection_timeout_ms cfg,
                                    st_pool_size = sc_pool_size cfg, st_credentials = creds\<rparr>,
                    ss_from_email = sc_from_email cfg, ss_from_name = sc_from_name cfg\<rparr>
      in case mode of
           TlsNone \<Rightarrow> Ok sender
         | _ \<Rightarrow> (case relay_error mode (sc_host cfg) of
                   Some e \<Rightarrow> Err (transient_mailer e)
                 | None \<Rightarrow> Ok sender))"

record smtp_part =
  sp_filename :: string
  sp_content_type :: string
  sp_data :: string

record smtp_mail =
  sm_from :: string
  sm_to :: "string list"
  sm_cc :: "string list"
  sm_bcc :: "string list"
  sm_subject :: string
  sm_text :: string
  sm_html :: string
  sm_parts :: "smtp_part list"

record smtp_error =
  se_permanent :: bool
  se_transient :: bool
  se_timeout :: bool
  se_tls :: bool
  se_client :: bool
  se_text :: string

text \<open>lettre: parsing a mailbox and a content type, building the message, and the transport's answer.\<close>

record lettre =
  le_mailbox :: "string \<Rightarrow> string + string"
  le_content_type :: "string \<Rightarrow> string + string"
  le_build :: "smtp_mail \<Rightarrow> string option"
  le_send :: "smtp_mail \<Rightarrow> smtp_error option"

definition format_mailbox :: "lettre \<Rightarrow> string \<Rightarrow> string option \<Rightarrow> string + string" where
  "format_mailbox le email name =
     (case name of
        Some n \<Rightarrow> if n \<noteq> [] then le_mailbox le (n @ '' <'' @ email @ ''>'') else le_mailbox le email
      | None \<Rightarrow> le_mailbox le email)"

definition classify_smtp_error :: "smtp_error \<Rightarrow> AppError" where
  "classify_smtp_error err =
     (if se_permanent err then permanent_mailer (''SMTP '' @ se_text err)
      else if se_transient err then transient_mailer (''SMTP transient: '' @ se_text err)
      else if se_timeout err \<or> se_tls err then transient_mailer (se_text err)
      else if se_client err then permanent_mailer (''SMTP client error: '' @ se_text err)
      else transient_mailer (se_text err))"

definition mailboxes :: "lettre \<Rightarrow> MailboxRef list \<Rightarrow> string + string list" where
  "mailboxes le rs = collect_results (\<lambda>r. format_mailbox le (mb_email r) (mb_name r)) rs"

definition smtp_parts :: "lettre \<Rightarrow> ResolvedAttachment list \<Rightarrow> AppError + smtp_part list" where
  "smtp_parts le atts =
     collect_results (\<lambda>att.
       case le_content_type le (ra_content_type att) of
         Inl e \<Rightarrow> Err (permanent_mailer (''attachment '' @ CHR 0x27 # ra_filename att @ CHR 0x27 #
                     '' has invalid content-type '' @ CHR 0x27 # ra_content_type att @ CHR 0x27 # '': '' @ e))
       | Inr ct \<Rightarrow> Ok \<lparr>sp_filename = ra_filename att, sp_content_type = ct, sp_data = ra_data att\<rparr>) atts"

definition smtp_build_mail :: "lettre \<Rightarrow> SmtpSender \<Rightarrow> EmailMessage \<Rightarrow> AppError + smtp_mail" where
  "smtp_build_mail le self msg =
     and_then (map_err transient_mailer (format_mailbox le
       (case m_from_email_override msg of Some e \<Rightarrow> e | None \<Rightarrow> ss_from_email self)
       (Some (case m_from_name_override msg of Some n \<Rightarrow> n | None \<Rightarrow> ss_from_name self)))) (\<lambda>from_addr.
     and_then (map_err transient_mailer (format_mailbox le (m_to_email msg) (m_to_name msg))) (\<lambda>to_addr.
     and_then (map_err (\<lambda>e. permanent_mailer (''invalid cc address: '' @ e)) (mailboxes le (m_cc msg))) (\<lambda>ccs.
     and_then (map_err (\<lambda>e. permanent_mailer (''invalid bcc address: '' @ e)) (mailboxes le (m_bcc msg))) (\<lambda>bccs.
     and_then (smtp_parts le (m_attachments msg)) (\<lambda>parts.
     and_then (map_err (\<lambda>e. permanent_mailer (''invalid to address: '' @ e)) (mailboxes le (m_to_extra msg))) (\<lambda>extras.
       let mail = \<lparr>sm_from = from_addr, sm_to = to_addr # extras, sm_cc = ccs, sm_bcc = bccs,
                   sm_subject = m_subject msg, sm_text = m_body_text msg, sm_html = m_body_html msg,
                   sm_parts = parts\<rparr>
       in case le_build le mail of Some e \<Rightarrow> Err (transient_mailer e) | None \<Rightarrow> Ok mail))))))"

definition smtp_send :: "lettre \<Rightarrow> SmtpSender \<Rightarrow> EmailMessage \<Rightarrow> AppError + unit" where
  "smtp_send le self msg =
     and_then (smtp_build_mail le self msg) (\<lambda>mail.
       case le_send le mail of Some e \<Rightarrow> Err (classify_smtp_error e) | None \<Rightarrow> Ok ())"

section \<open>Lemmas\<close>

lemma map_of_filter_other: "a \<noteq> n \<Longrightarrow> map_of (filter (\<lambda>(m, _). m \<noteq> n) reg) a = map_of reg a"
  by (induction reg) auto

lemma registry_resolve_register:
  "registry_resolve (registry_register n s reg) a =
     (if a = Some n then Some s else registry_resolve reg a)"
  by (cases a) (auto simp: registry_resolve_def registry_register_def map_of_filter_other)

lemma collect_results_nth:
  "collect_results f xs = Inr ys \<Longrightarrow> list_all2 (\<lambda>x y. f x = Inr y) xs ys"
  by (induction xs arbitrary: ys) (auto split: sum.splits)

lemma map_err_Inr [simp]: "map_err f r = Inr a \<longleftrightarrow> r = Inr a"
  by (cases r) auto

lemma render_error_kind:
  assumes "render_with_env j esc t p = Err e"
  shows "\<exists>m. e = Template m"
proof (cases "jinja_parse j esc t")
  case (Inl a)
  with assms show ?thesis by (auto simp: render_with_env_def template_err_def)
next
  case (Inr u)
  with assms show ?thesis
    by (cases "jinja_render j esc t p") (auto simp: render_with_env_def template_err_def)
qed

lemma smtp_build_mail_Ok:
  assumes "smtp_build_mail le self msg = Ok mail"
  obtains from_addr to_addr ccs bccs parts extras where
    "format_mailbox le (m_to_email msg) (m_to_name msg) = Inr to_addr"
    "mailboxes le (m_cc msg) = Inr ccs" "mailboxes le (m_bcc msg) = Inr bccs"
    "smtp_parts le (m_attachments msg) = Inr parts" "mailboxes le (m_to_extra msg) = Inr extras"
    "mail = \<lparr>sm_from = from_addr, sm_to = to_addr # extras, sm_cc = ccs, sm_bcc = bccs,
       sm_subject = m_subject msg, sm_text = m_body_text msg, sm_html = m_body_html msg, sm_parts = parts\<rparr>"
  using assms unfolding smtp_build_mail_def and_then_Inr_iff Let_def map_err_Inr
  by (auto split: option.splits)

section \<open>Properties\<close>

text \<open>
  The SMTP message carries exactly the addresses of the email: when a mail is built, its To
  line is the parsed primary address followed by the parsed extra addresses in order, its Cc and
  Bcc lines are the parsed copies in order, and it has one part per attachment with the bytes
  unchanged; no address is dropped, added or moved between the lines.
\<close>

lemma smtp_mail_addresses:
  assumes "smtp_build_mail le self msg = Ok mail"
  shows "\<exists>to extras. sm_to mail = to # extras \<and>
      format_mailbox le (m_to_email msg) (m_to_name msg) = Inr to \<and>
      list_all2 (\<lambda>r a. format_mailbox le (mb_email r) (mb_name r) = Inr a) (m_to_extra msg) extras \<and>
      list_all2 (\<lambda>r a. format_mailbox le (mb_email r) (mb_name r) = Inr a) (m_cc msg) (sm_cc mail) \<and>
      list_all2 (\<lambda>r a. format_mailbox le (mb_email r) (mb_name r) = Inr a) (m_bcc msg) (sm_bcc mail) \<and>
      map (\<lambda>p. (sp_filename p, sp_data p)) (sm_parts mail) = map (\<lambda>a. (ra_filename a, ra_data a)) (m_attachments msg)"
proof -
  have parts: "map (\<lambda>p. (sp_filename p, sp_data p)) ps = map (\<lambda>a. (ra_filename a, ra_data a)) atts"
    if "smtp_parts le atts = Inr ps" for ps atts
    using collect_results_nth [OF that [unfolded smtp_parts_def]]
    by (induction rule: list_all2_induct) (auto split: sum.splits)
  show ?thesis
    using assms
    by (rule smtp_build_mail_Ok) (auto simp: mailboxes_def parts dest!: collect_results_nth)
qed

text \<open>
  Classification of the webhook's answer: any 2xx is success, 429 is the rate-limit error,
  every other 4xx is permanent, and everything else (redirects left over, 5xx, network failures)
  is transient; the text kept of an error body is bounded independently of the body.
\<close>

theorem webhook_classification:
  "case post (wh_url self) (wh_auth_token self) (webhook_body base64 msg) of
     NetworkError e \<Rightarrow> webhook_send lossy status_text base64 post self msg = Err (transient_mailer e)
   | HttpReply status body \<Rightarrow>
       (webhook_send lossy status_text base64 post self msg = Ok () \<longleftrightarrow> status div 100 = 2) \<and>
       ((\<exists>m. webhook_send lossy status_text base64 post self msg = Err (RateLimited m)) \<longleftrightarrow> status = 429) \<and>
       ((\<exists>m. webhook_send lossy status_text base64 post self msg = Err (permanent_mailer m)) \<longleftrightarrow>
          status div 100 = 4 \<and> status \<noteq> 429) \<and>
       ((\<exists>m. webhook_send lossy status_text base64 post self msg = Err (transient_mailer m)) \<longleftrightarrow>
          status div 100 \<noteq> 2 \<and> status div 100 \<noteq> 4) \<and>
       webhook_error_text lossy (Some b) = webhook_error_text lossy (Some (take 512 b)) @
         (if length b > 512 then ellipsis @ '' ('' @ nat_to_string (length b) @ '' bytes total)'' else [])"
proof -
  have d: "status div 100 = k \<longleftrightarrow> 100 * k \<le> status \<and> status < 100 * k + 100" for status k :: nat by auto
  show ?thesis
    by (auto simp: webhook_send_def d is_success_def is_client_error_def Let_def permanent_mailer_def
        transient_mailer_def webhook_error_text_def split: http_reply.splits)
qed

text \<open>
  TLS selection never downgrades an explicit setting, and with no explicit setting the
  encrypted standard ports are always encrypted; credentials reach the transport exactly when a
  user name is configured.
\<close>

theorem smtp_transport_security:
  "(\<forall>m. sc_tls_mode cfg = Some m \<longrightarrow> effective_tls_mode cfg = m) \<and>
   (sc_tls_mode cfg = None \<and> sc_port cfg \<in> {465, 587, 25} \<longrightarrow> effective_tls_mode cfg \<noteq> TlsNone) \<and>
   (\<forall>s. smtp_sender_new relay cfg = Ok s \<longrightarrow>
      st_mode (ss_transport s) = effective_tls_mode cfg \<and>
      (st_credentials (ss_transport s) \<noteq> None \<longleftrightarrow> sc_username cfg \<noteq> []))"
  by (auto simp: effective_tls_mode_def smtp_sender_new_def Let_def
      split: SmtpTlsMode.splits option.splits if_splits)

definition sample_smtp_config :: SmtpConfig where
  "sample_smtp_config = \<lparr>sc_host = ''h'', sc_port = 465, sc_username = ''u'', sc_password = ''p'',
     sc_from_email = ''a@x.org'', sc_from_name = ''A'', sc_tls_mode = None,
     sc_connection_timeout_ms = 5000, sc_read_timeout_ms = 10000, sc_write_timeout_ms = 10000, sc_pool_size = 5\<rparr>"

theorem smtp_transport_security_witness:
  "effective_tls_mode sample_smtp_config \<noteq> TlsNone \<and> sc_tls_mode sample_smtp_config = None \<and>
   sc_port sample_smtp_config \<in> {465, 587, 25}"
  using smtp_transport_security [of sample_smtp_config] by (simp add: sample_smtp_config_def)

end
