(* ===== verification/Rate_Limiter.thy ===== *)
theory Rate_Limiter
  imports Prelude
begin

text \<open>
  \<^verbatim>\<open>crates/rate_limiter\<close>: the token bucket in front of the mail server. The bucket is the
  \<^verbatim>\<open>governor\<close> crate's; what it answers (a token at once, or which of token and shutdown comes
  first) is an argument.
\<close>

datatype TokenResult = Acquired | AcquiredAfterWait | TokenShutdown

record RateLimitConfig =
  rl_emails_per_second :: u32
  rl_burst_size :: u32

definition rate_limit_default :: RateLimitConfig where
  "rate_limit_default = \<lparr>rl_emails_per_second = 10, rl_burst_size = 20\<rparr>"

record quota =
  q_per_second :: u32
  q_burst :: u32

record MailRateLimiter =
  rl_inner :: "quota option"

record limiter_reply =
  lr_check_ok :: bool
  lr_ready_first :: bool

definition limiter_new :: "RateLimitConfig \<Rightarrow> MailRateLimiter" where
  "limiter_new cfg =
     (if rl_emails_per_second cfg = 0 then \<lparr>rl_inner = None\<rparr>
      else \<lparr>rl_inner = Some \<lparr>q_per_second = rl_emails_per_second cfg, q_burst = max (rl_burst_size cfg) 1\<rparr>\<rparr>)"

definition wait_for_token :: "MailRateLimiter \<Rightarrow> limiter_reply \<Rightarrow> TokenResult" where
  "wait_for_token self reply =
     (case rl_inner self of
        None \<Rightarrow> Acquired
      | Some _ \<Rightarrow>
          if lr_check_ok reply then Acquired
          else if lr_ready_first reply then AcquiredAfterWait
          else TokenShutdown)"

definition is_disabled :: "MailRateLimiter \<Rightarrow> bool" where
  "is_disabled self \<longleftrightarrow> rl_inner self = None"

lemma limiter_new_quota_nonzero:
  "rl_inner (limiter_new cfg) = Some q \<Longrightarrow> q_per_second q \<noteq> 0 \<and> q_burst q \<noteq> 0"
proof -
  have "max b (1 :: u32) \<noteq> 0" for b by (simp add: max_def) (metis word_gt_0 word_not_simps(1) not_le)
  then show "rl_inner (limiter_new cfg) = Some q \<Longrightarrow> q_per_second q \<noteq> 0 \<and> q_burst q \<noteq> 0"
    by (auto simp: limiter_new_def split: if_splits)
qed

lemma disabled_never_waits: "is_disabled l \<Longrightarrow> wait_for_token l r = Acquired"
  by (simp add: is_disabled_def wait_for_token_def)

end
