(* ===== verification/Processor.thy ===== *)
theory Processor
  imports Events Log_Invariants Template_Store Block_List_Store Mailer Rate_Limiter
begin

text \<open>
  \<^verbatim>\<open>crates/consumer/src/processor.rs\<close>: processing one recipient, or one group of recipients, of
  an event. The state that the code shares is a \<open>world\<close>: the delivery log, the messages that a
  sender has accepted, the delays slept (in milliseconds), and a counter of the interactions with the environment. What the
  environment answers to the n-th interaction (database faults and time, template resolver,
  block-list checker, rate limiter, mail sender, shutdown) is an \<open>env\<close>, an argument of every
  definition; the trait objects of \<^verbatim>\<open>ProcessorContext\<close> are used only through it.
\<close>

section \<open>State and environment\<close>

record EffectiveCcBcc =
  ec_cc :: "Recipient list"
  ec_bcc :: "Recipient list"

record ProcessorContext =
  ctx_sender :: string
  ctx_sender_registry :: "string SenderRegistry"
  ctx_filter :: RecipientFilter
  ctx_rate_limiter :: MailRateLimiter
  ctx_jinja :: jinja
  ctx_lower :: "string \<Rightarrow> string"

record env =
  env_fault :: "nat \<Rightarrow> db_fault"
  env_now :: "nat \<Rightarrow> datetime"
  env_resolve :: "nat \<Rightarrow> string \<Rightarrow> string \<Rightarrow> AppError + NotificationTemplate"
  env_block_check :: "nat \<Rightarrow> string \<Rightarrow> AppError + unit"
  env_token :: "nat \<Rightarrow> limiter_reply"
  env_send :: "nat \<Rightarrow> string \<Rightarrow> EmailMessage \<Rightarrow> AppError + unit"
  env_sleep_cancelled :: "nat \<Rightarrow> bool"

record world =
  w_log :: log_db
  w_mail :: "(string \<times> EmailMessage) list"
  w_sleeps :: "u64 list"
  w_tick :: nat

datatype RecipientOutcome =
    OSent
  | OBlocked string
  | OSkipped
  | ODuplicate int
  | OFailed AppError
  | GroupFailedWithIndividualRows AppError

datatype SendTargets =
    TargetIndividual uuid string
  | TargetGroup uuid string "string list" GroupRetryMode nat

definition tick :: "world \<Rightarrow> world" where
  "tick w = w\<lparr>w_tick := Suc (w_tick w)\<rparr>"

definition db_op ::
  "env \<Rightarrow> (db_fault \<Rightarrow> datetime \<Rightarrow> log_db \<Rightarrow> 'a db_result) \<Rightarrow> world \<Rightarrow> (AppError + 'a) \<times> world" where
  "db_op env f w =
     (case f (env_fault env (w_tick w)) (env_now env (w_tick w)) (w_log w) of
        (r, db) \<Rightarrow> (r, (tick w)\<lparr>w_log := db\<rparr>))"

text \<open>A read of the log, which leaves it unchanged.\<close>

definition db_read :: "env \<Rightarrow> (db_fault \<Rightarrow> log_db \<Rightarrow> AppError + 'a) \<Rightarrow> world \<Rightarrow> (AppError + 'a) \<times> world" where
  "db_read env f w = (f (env_fault env (w_tick w)) (w_log w), tick w)"

section \<open>Pure helpers\<close>

record RenderedTemplates =
  rt_subject :: string
  rt_body_html :: string
  rt_body_text :: string

record SerializedEmailFields =
  sf_from_override :: "json option"
  sf_attachments :: "json option"
  sf_cc :: "json option"
  sf_bcc :: "json option"

definition resolve_from_override :: "FromOverride option \<Rightarrow> string option \<times> string option" where
  "resolve_from_override ov = (case ov of None \<Rightarrow> (None, None) | Some f \<Rightarrow> (Some (fo_email f), fo_name f))"

definition render_all_templates :: "jinja \<Rightarrow> NotificationTemplate \<Rightarrow> json \<Rightarrow> AppError + RenderedTemplates" where
  "render_all_templates j tpl payload =
     (case render_template j (t_subject tpl) payload of
        Inl e \<Rightarrow> Err e
      | Inr s \<Rightarrow>
          (case render_html_template j (t_body_html tpl) payload of
             Inl e \<Rightarrow> Err e
           | Inr h \<Rightarrow>
               (case render_template j (t_body_text tpl) payload of
                  Inl e \<Rightarrow> Err e
                | Inr t \<Rightarrow> Ok \<lparr>rt_subject = s, rt_body_html = h, rt_body_text = t\<rparr>)))"

text \<open>Serialising these structs to a JSON value cannot fail, so the error branch is absent.\<close>

definition serialize_recipient_list :: "Recipient list \<Rightarrow> json option" where
  "serialize_recipient_list list = (if list = [] then None else Some (enc_vec enc_recipient list))"

definition serialize_email_fields :: "EmailOptions \<Rightarrow> Recipient list \<Rightarrow> Recipient list \<Rightarrow> SerializedEmailFields" where
  "serialize_email_fields opts cc bcc =
     \<lparr>sf_from_override = map_option enc_from_override (eo_from_override opts),
      sf_attachments = (if eo_attachments opts = [] then None else Some (enc_vec enc_attachment (eo_attachments opts))),
      sf_cc = serialize_recipient_list cc,
      sf_bcc = serialize_recipient_list bcc\<rparr>"

definition mailbox_of :: "Recipient \<Rightarrow> MailboxRef" where
  "mailbox_of r = \<lparr>mb_email = r_email r, mb_name = r_name r\<rparr>"

definition build_email_message ::
  "NotificationEvent \<Rightarrow> Recipient \<Rightarrow> MailboxRef list \<Rightarrow> RenderedTemplates \<Rightarrow> string option \<times> string option \<Rightarrow>
   ResolvedAttachment list \<Rightarrow> Recipient list \<Rightarrow> Recipient list \<Rightarrow> EmailMessage" where
  "build_email_message event primary extra rendered from_override attachments cc bcc =
     \<lparr>m_event_id = ne_event_id event, m_to_email = r_email primary, m_to_name = r_name primary, m_to_extra = extra,
      m_subject = rt_subject rendered, m_body_html = rt_body_html rendered, m_body_text = rt_body_text rendered,
      m_from_email_override = fst from_override, m_from_name_override = snd from_override,
      m_attachments = attachments, m_cc = map mailbox_of cc, m_bcc = map mailbox_of bcc\<rparr>"

fun is_retryable :: "AppError \<Rightarrow> bool" where
  "is_retryable (DuplicateError _) = False"
| "is_retryable (NotFound _) = False"
| "is_retryable (Template _) = False"
| "is_retryable (BlockedError _) = False"
| "is_retryable (UnknownStatus _) = False"
| "is_retryable err = (\<not> is_permanent_mailer err)"

fun error_reason_label :: "AppError \<Rightarrow> string" where
  "error_reason_label (RateLimited _) = ''rate_limited''"
| "error_reason_label (Mailer _ Permanent) = ''permanent''"
| "error_reason_label (Mailer _ Transient) = ''transient''"
| "error_reason_label (BlockedError _) = ''blocked''"
| "error_reason_label (Database _) = ''database''"
| "error_reason_label (Template _) = ''template''"
| "error_reason_label (Queue _) = ''queue''"
| "error_reason_label (NotFound _) = ''not_found''"
| "error_reason_label (Deserialize _) = ''deserialize''"
| "error_reason_label (UnknownStatus _) = ''unknown_status''"
| "error_reason_label (DuplicateError _) = ''other''"

definition resolve_sender :: "ProcessorContext \<Rightarrow> string option \<Rightarrow> string" where
  "resolve_sender ctx account =
     (case registry_resolve (ctx_sender_registry ctx) account of Some s \<Rightarrow> s | None \<Rightarrow> ctx_sender ctx)"

section \<open>Sending\<close>

definition acquire_rate_limit_token :: "env \<Rightarrow> ProcessorContext \<Rightarrow> world \<Rightarrow> (RecipientOutcome + unit) \<times> world" where
  "acquire_rate_limit_token env ctx w =
     (case wait_for_token (ctx_rate_limiter ctx) (env_token env (w_tick w)) of
        TokenShutdown \<Rightarrow> (Inl (OFailed (Queue ''service shutdown during rate-limit wait'')), tick w)
      | _ \<Rightarrow> (Inr (), tick w))"

fun mark_each_sent :: "env \<Rightarrow> uuid \<Rightarrow> string list \<Rightarrow> world \<Rightarrow> world" where
  "mark_each_sent env eid [] w = w"
| "mark_each_sent env eid (m # ms) w =
     mark_each_sent env eid ms (snd (db_op env (\<lambda>f n. mark_sent f n eid m) w))"

fun mark_sent_for_targets :: "env \<Rightarrow> SendTargets \<Rightarrow> world \<Rightarrow> world" where
  "mark_sent_for_targets env (TargetIndividual eid email) w = mark_each_sent env eid [email] w"
| "mark_sent_for_targets env (TargetGroup eid primary secondaries _ _) w =
     mark_each_sent env eid (primary # secondaries) w"

fun send_failure :: "SendTargets \<Rightarrow> AppError \<Rightarrow> RecipientOutcome" where
  "send_failure (TargetIndividual _ _) e = OFailed e"
| "send_failure (TargetGroup _ _ _ RetryIndividual _) e = GroupFailedWithIndividualRows e"
| "send_failure (TargetGroup _ _ _ RetryWhole _) e = OFailed e"

definition execute_send ::
  "env \<Rightarrow> ProcessorContext \<Rightarrow> EmailMessage \<Rightarrow> string option \<Rightarrow> SendTargets \<Rightarrow> world \<Rightarrow> RecipientOutcome \<times> world" where
  "execute_send env ctx msg account targets w =
     (case acquire_rate_limit_token env ctx w of
        (Inl outcome, w) \<Rightarrow> (outcome, w)
      | (Inr _, w) \<Rightarrow>
          let sender = resolve_sender ctx account
          in case env_send env (w_tick w) sender msg of
               Inr _ \<Rightarrow>
                 (OSent, mark_sent_for_targets env targets ((tick w)\<lparr>w_mail := w_mail w @ [(sender, msg)]\<rparr>))
             | Inl e \<Rightarrow> (send_failure targets e, tick w))"

section \<open>One recipient\<close>

definition individual_args ::
  "NotificationEvent \<Rightarrow> EmailOptions \<Rightarrow> Recipient \<Rightarrow> EffectiveCcBcc \<Rightarrow> EmailInsertPendingArgs" where
  "individual_args event opts recipient cc_bcc =
     (let fields = serialize_email_fields opts (ec_cc cc_bcc) (ec_bcc cc_bcc)
      in \<lparr>p_event_id = ne_event_id event, p_event_type = ne_event_type event,
          p_recipient_email = r_email recipient, p_payload = ne_payload event,
          p_event_timestamp = ne_timestamp event, p_recipient_name = r_name recipient,
          p_from_override = sf_from_override fields, p_attachments = sf_attachments fields,
          p_sender_account = eo_sender_account opts, p_cc = sf_cc fields, p_bcc = sf_bcc fields,
          p_send_mode = send_mode_as_str (eo_send_mode opts), p_group_retry_mode = None,
          p_to_recipients = None\<rparr>)"

text \<open>Steps 1, 2 and 2c: everything that is checked and rendered before the first write.\<close>

definition prepare ::
  "env \<Rightarrow> ProcessorContext \<Rightarrow> NotificationEvent \<Rightarrow> EmailOptions \<Rightarrow> world \<Rightarrow> (AppError + RenderedTemplates) \<times> world" where
  "prepare env ctx event opts w =
     (case env_resolve env (w_tick w) (ne_event_type event) CHANNEL_EMAIL of
        Inl e \<Rightarrow> (Err e, tick w)
      | Inr tpl \<Rightarrow>
          (case fst (resolve_from_override (eo_from_override opts)) of
             Some addr \<Rightarrow>
               if \<not> is_valid_email addr
               then (Err (permanent_mailer (''invalid from_override email address: '' @ addr)), tick w)
               else (render_all_templates (ctx_jinja ctx) tpl (ne_payload event), tick w)
           | None \<Rightarrow> (render_all_templates (ctx_jinja ctx) tpl (ne_payload event), tick w)))"

text \<open>Steps 4 and 4b: the reason for which a recipient must not be mailed, if any.\<close>

definition blocked_reason :: "env \<Rightarrow> ProcessorContext \<Rightarrow> string \<Rightarrow> world \<Rightarrow> string option \<times> world" where
  "blocked_reason env ctx email w =
     (case (if is_passthrough (ctx_filter ctx) then Ok () else filter_check (ctx_lower ctx) (ctx_filter ctx) email) of
        Inl (BlockedError reason) \<Rightarrow> (Some reason, w)
      | _ \<Rightarrow>
          (case env_block_check env (w_tick w) email of
             Inl (BlockedError reason) \<Rightarrow> (Some reason, tick w)
           | _ \<Rightarrow> (None, tick w)))"

definition process_recipient ::
  "env \<Rightarrow> ProcessorContext \<Rightarrow> NotificationEvent \<Rightarrow> EmailOptions \<Rightarrow> Recipient \<Rightarrow> ResolvedAttachment list \<Rightarrow>
   EffectiveCcBcc \<Rightarrow> world \<Rightarrow> RecipientOutcome \<times> world" where
  "process_recipient env ctx event opts recipient attachments cc_bcc w =
     (if \<not> is_valid_email (r_email recipient)
      then (OFailed (permanent_mailer (''invalid recipient email address: '' @ r_email recipient)), w)
      else case prepare env ctx event opts w of
        (Inl e, w) \<Rightarrow> (OFailed e, w)
      | (Inr rendered, w) \<Rightarrow>
          (case db_op env (\<lambda>f n. insert_pending f n (individual_args event opts recipient cc_bcc)) w of
             (Inl e, w) \<Rightarrow> (OFailed e, w)
           | (Inr (Duplicate retry_count status), w) \<Rightarrow>
               (case status_try_from status of
                  Inl e \<Rightarrow> (OFailed e, w)
                | Inr st \<Rightarrow> if st = Sent \<or> st = Blocked then (OSkipped, w) else (ODuplicate retry_count, w))
           | (Inr Inserted, w) \<Rightarrow>
               (case blocked_reason env ctx (r_email recipient) w of
                  (Some reason, w) \<Rightarrow>
                    (OBlocked reason,
                     snd (db_op env (\<lambda>f n. mark_blocked f n (ne_event_id event) (r_email recipient) reason) w))
                | (None, w) \<Rightarrow>
                    execute_send env ctx
                      (build_email_message event recipient [] rendered
                        (resolve_from_override (eo_from_override opts)) attachments (ec_cc cc_bcc) (ec_bcc cc_bcc))
                      (eo_sender_account opts)
                      (TargetIndividual (ne_event_id event) (r_email recipient)) w)))"

section \<open>A group\<close>

definition group_args ::
  "NotificationEvent \<Rightarrow> EmailOptions \<Rightarrow> EffectiveCcBcc \<Rightarrow> Recipient \<Rightarrow> EmailInsertPendingArgs" where
  "group_args event opts cc_bcc r =
     (individual_args event opts r cc_bcc)
       \<lparr>p_group_retry_mode := Some (group_retry_mode_as_str (eo_group_retry_mode opts)),
        p_to_recipients := (if eo_group_retry_mode opts = RetryWhole
                            then Some (enc_vec enc_recipient (eo_recipients opts)) else None)\<rparr>"

text \<open>Step 3c: secondary addresses whose row is already terminal.\<close>

definition result_terminal :: "InsertResult \<Rightarrow> bool" where
  "result_terminal r =
     (case r of
        Inserted \<Rightarrow> False
      | Duplicate _ status \<Rightarrow> status_try_from status = Ok Sent \<or> status_try_from status = Ok Blocked)"

definition already_sent :: "EmailOptions \<Rightarrow> InsertResult list \<Rightarrow> string list" where
  "already_sent opts results =
     (if eo_group_retry_mode opts = RetryIndividual
      then map (r_email \<circ> fst) (filter (result_terminal \<circ> snd) (zip (drop 1 (eo_recipients opts)) results))
      else [])"

text \<open>Step 4: the recipients the configuration filter lets through; the others are marked blocked.\<close>

fun partition_allowed ::
  "env \<Rightarrow> ProcessorContext \<Rightarrow> uuid \<Rightarrow> Recipient list \<Rightarrow> world \<Rightarrow> Recipient list \<times> world" where
  "partition_allowed env ctx eid [] w = ([], w)"
| "partition_allowed env ctx eid (r # rs) w =
     (case filter_check (ctx_lower ctx) (ctx_filter ctx) (r_email r) of
        Inl (BlockedError reason) \<Rightarrow>
          partition_allowed env ctx eid rs (snd (db_op env (\<lambda>f n. mark_blocked f n eid (r_email r) reason) w))
      | _ \<Rightarrow> apfst (Cons r) (partition_allowed env ctx eid rs w))"

definition group_send ::
  "env \<Rightarrow> ProcessorContext \<Rightarrow> NotificationEvent \<Rightarrow> EmailOptions \<Rightarrow> ResolvedAttachment list \<Rightarrow> EffectiveCcBcc \<Rightarrow>
   RenderedTemplates \<Rightarrow> Recipient \<Rightarrow> InsertResult list \<Rightarrow> world \<Rightarrow> RecipientOutcome \<times> world" where
  "group_send env ctx event opts attachments cc_bcc rendered primary secondary_results w =
     (case partition_allowed env ctx (ne_event_id event) (eo_recipients opts) w of
        ([], w) \<Rightarrow> (OBlocked ''all TO recipients blocked by filter'', w)
      | (allowed, w) \<Rightarrow>
          let done = already_sent opts secondary_results;
              recipients = filter (\<lambda>r. r_email r \<notin> set done) allowed;
              msg = build_email_message event primary (map mailbox_of (drop 1 recipients)) rendered
                      (resolve_from_override (eo_from_override opts)) attachments (ec_cc cc_bcc) (ec_bcc cc_bcc)
          in execute_send env ctx msg (eo_sender_account opts)
               (TargetGroup (ne_event_id event) (r_email primary)
                 (if eo_group_retry_mode opts = RetryIndividual then map r_email (drop 1 recipients) else [])
                 (eo_group_retry_mode opts) (length recipients)) w)"

definition process_group ::
  "env \<Rightarrow> ProcessorContext \<Rightarrow> NotificationEvent \<Rightarrow> EmailOptions \<Rightarrow> ResolvedAttachment list \<Rightarrow> EffectiveCcBcc \<Rightarrow>
   nat \<Rightarrow> world \<Rightarrow> RecipientOutcome \<times> world" where
  "process_group env ctx event opts attachments cc_bcc max_recipients w =
     (case eo_recipients opts of
        [] \<Rightarrow> (OFailed (permanent_mailer ''group send: recipients list is empty''), w)
      | primary # _ \<Rightarrow>
          if length (eo_recipients opts) > max_recipients
          then (OFailed (permanent_mailer (''group send: recipient count '' @ nat_to_string (length (eo_recipients opts))
                  @ '' exceeds maximum allowed ('' @ nat_to_string max_recipients @ '')'')), w)
          else case find (\<lambda>r. \<not> is_valid_email (r_email r)) (eo_recipients opts) of
            Some r \<Rightarrow> (OFailed (permanent_mailer (''invalid recipient email address: '' @ r_email r)), w)
          | None \<Rightarrow>
              (case prepare env ctx event opts w of
                 (Inl e, w) \<Rightarrow> (OFailed e, w)
               | (Inr rendered, w) \<Rightarrow>
                   let rows = (if eo_group_retry_mode opts = RetryIndividual
                               then map (group_args event opts cc_bcc) (eo_recipients opts)
                               else [group_args event opts cc_bcc primary])
                   in case db_op env (\<lambda>f n. insert_pending_batch f n rows) w of
                        (Inl e, w) \<Rightarrow> (OFailed e, w)
                      | (Inr [], w) \<Rightarrow> (OFailed (permanent_mailer ''insert_pending_batch returned empty results''), w)
                      | (Inr (Duplicate retry_count status # _), w) \<Rightarrow>
                          (case status_try_from status of
                             Inl e \<Rightarrow> (OFailed e, w)
                           | Inr st \<Rightarrow> if st = Sent \<or> st = Blocked then (OSkipped, w) else (ODuplicate retry_count, w))
                      | (Inr (Inserted # secondary), w) \<Rightarrow>
                          group_send env ctx event opts attachments cc_bcc rendered primary secondary w))"

end
