(* ===== verification/Backoff.thy ===== *)
theory Backoff
  imports Prelude
begin

text \<open>
  The contract the retry loops rely on when they sleep: delays that never shrink from one attempt
  to the next and never exceed a ceiling. Every loop of the program that backs off interprets it
  (attachment fetch, send retry, provider rate limit, broker reconnection).
\<close>

fun total_wait :: "(nat \<Rightarrow> nat) \<Rightarrow> nat \<Rightarrow> nat" where
  "total_wait delay 0 = 0"
| "total_wait delay (Suc n) = total_wait delay n + delay (Suc n)"

locale backoff =
  fixes delay :: "nat \<Rightarrow> nat" and ceiling :: nat
  assumes step_up: "delay n \<le> delay (Suc n)"
    and capped: "delay n \<le> ceiling"
begin

lemma monotone: "m \<le> n \<Longrightarrow> delay m \<le> delay n"
  by (rule lift_Suc_mono_le [of delay]) (rule step_up)

lemma total_wait_bound: "total_wait delay n \<le> n * ceiling"
proof (induction n)
  case (Suc n)
  with capped [of "Suc n"] show ?case by simp
qed simp

lemma total_wait_mono: "m \<le> n \<Longrightarrow> total_wait delay m \<le> total_wait delay n"
  by (rule lift_Suc_mono_le [of "total_wait delay"]) simp_all

end

text \<open>A doubling delay whose exponent is capped, clamped to a ceiling.\<close>

definition capped_doubling :: "nat \<Rightarrow> nat \<Rightarrow> nat \<Rightarrow> nat \<Rightarrow> nat" where
  "capped_doubling base max_shift ceiling n = min (base * 2 ^ min n max_shift) ceiling"

interpretation doubling: backoff "capped_doubling base max_shift ceiling" ceiling
proof
  show "capped_doubling base max_shift ceiling n \<le> capped_doubling base max_shift ceiling (Suc n)" for n
  proof -
    have "(2::nat) ^ min n max_shift \<le> 2 ^ min (Suc n) max_shift" by (rule power_increasing) auto
    then have "base * 2 ^ min n max_shift \<le> base * 2 ^ min (Suc n) max_shift" by simp
    then show ?thesis unfolding capped_doubling_def by (rule min.mono) simp
  qed
qed (simp add: capped_doubling_def)

end
