(* ===== verification/Fetcher.thy ===== *)
theory Fetcher
  imports Backoff Events Mailer
begin

text \<open>
  \<^verbatim>\<open>crates/mailer/src/fetcher.rs\<close>: downloading the attachments of an event. The HTTP exchange is
  a parameter giving the reply to each attempt; the states of the cancellation token at the
  points where the code reads it are arguments too.
\<close>

definition MAX_ATTACHMENT_BYTES :: nat where
  "MAX_ATTACHMENT_BYTES = 10 * 1024 * 1024"

definition FETCH_MAX_RETRIES :: nat where
  "FETCH_MAX_RETRIES = 3"

text \<open>The reply to one GET: no exchange, or a status and the body or its read error.\<close>

datatype get_reply = GetFailed string | GetReply nat "string + string"

definition quoted :: "string \<Rightarrow> string" where
  "quoted s = CHR 0x27 # s @ [CHR 0x27]"

definition fetch_one :: "(nat \<Rightarrow> string) \<Rightarrow> AttachmentRef \<Rightarrow> nat \<Rightarrow> get_reply \<Rightarrow> AppError + string" where
  "fetch_one status_text att max_bytes reply =
     (case reply of
        GetFailed e \<Rightarrow> Err (transient_mailer (''attachment fetch network error '' @ quoted (a_filename att) @ '': '' @ e))
      | GetReply status body \<Rightarrow>
          if status = 429 then Err (RateLimited (''attachment '' @ quoted (a_filename att) @ '' source returned HTTP 429''))
          else if is_client_error status
          then Err (permanent_mailer (''attachment '' @ quoted (a_filename att) @ '' fetch returned HTTP ''
                      @ status_text status @ '' ('' @ a_url att @ '')''))
          else if is_server_error status
          then Err (transient_mailer (''attachment '' @ quoted (a_filename att) @ '' fetch returned HTTP ''
                      @ status_text status @ '' '' @ em_dash @ '' will retry''))
          else case body of
                 Inl e \<Rightarrow> Err (transient_mailer (''attachment '' @ quoted (a_filename att) @ '' read error: '' @ e))
               | Inr bytes \<Rightarrow>
                   if length bytes > max_bytes
                   then Err (permanent_mailer (''attachment '' @ quoted (a_filename att) @ '' exceeds size limit (''
                               @ nat_to_string (length bytes) @ '' > '' @ nat_to_string max_bytes @ '' bytes)''))
                   else Ok bytes)"

text \<open>Seconds slept before attempt \<open>n \<ge> 1\<close>.\<close>

definition fetch_delay_secs :: "nat \<Rightarrow> nat" where
  "fetch_delay_secs attempt = 2 ^ min (attempt - 1) 3"

text \<open>
  What one attachment's task meets: the reply to each attempt, whether the token was cancelled at
  the head of an attempt, and whether cancellation won the race against the sleep before it.
\<close>

record fetch_env =
  fe_reply :: "nat \<Rightarrow> get_reply"
  fe_cancelled :: "nat \<Rightarrow> bool"
  fe_sleep_cancelled :: "nat \<Rightarrow> bool"

text \<open>
  The loop over attempts \<open>attempt, ..., attempt + n - 1\<close>, with the requests made so far. The
  second component of the result counts the GET requests.
\<close>

fun fetch_attempts ::
  "(nat \<Rightarrow> string) \<Rightarrow> AttachmentRef \<Rightarrow> nat \<Rightarrow> fetch_env \<Rightarrow> nat \<Rightarrow> nat \<Rightarrow> AppError option \<Rightarrow> (AppError + ResolvedAttachment) \<times> nat" where
  "fetch_attempts st att max_bytes env attempt 0 last_err =
     (Err (case last_err of
             Some e \<Rightarrow> e
           | None \<Rightarrow> transient_mailer (''attachment '' @ quoted (a_filename att) @ '' fetch failed after ''
                       @ nat_to_string FETCH_MAX_RETRIES @ '' retries'')), 0)"
| "fetch_attempts st att max_bytes env attempt (Suc n) last_err =
     (if fe_cancelled env attempt
      then (Err (transient_mailer (''shutdown requested during fetch of '' @ quoted (a_filename att))), 0)
      else if attempt > 0 \<and> fe_sleep_cancelled env attempt
      then (Err (transient_mailer (''shutdown requested during fetch retry of '' @ quoted (a_filename att))), 0)
      else case fetch_one st att max_bytes (fe_reply env attempt) of
             Inr bytes \<Rightarrow> (Ok \<lparr>ra_filename = a_filename att, ra_content_type = a_content_type att, ra_data = bytes\<rparr>, 1)
           | Inl e \<Rightarrow>
               if is_permanent_mailer e then (Err e, 1)
               else apsnd Suc (fetch_attempts st att max_bytes env (Suc attempt) n (Some e)))"

definition fetch_one_with_retry ::
  "(nat \<Rightarrow> string) \<Rightarrow> AttachmentRef \<Rightarrow> nat \<Rightarrow> fetch_env \<Rightarrow> (AppError + ResolvedAttachment) \<times> nat" where
  "fetch_one_with_retry st att max_bytes env =
     fetch_attempts st att max_bytes env 0 (Suc FETCH_MAX_RETRIES) None"

text \<open>The metadata pass; \<open>now\<close> and \<open>cancelled\<close> are read once per attachment, in order.\<close>

fun validate_refs :: "AttachmentRef list \<Rightarrow> datetime \<Rightarrow> (nat \<Rightarrow> datetime) \<Rightarrow> (nat \<Rightarrow> bool) \<Rightarrow> nat \<Rightarrow> AppError + unit" where
  "validate_refs [] ts now cancelled i = Ok ()"
| "validate_refs (a # as) ts now cancelled i =
     (case attachment_validate a ts (now i) of
        Inl e \<Rightarrow> Err (permanent_mailer e)
      | Inr _ \<Rightarrow>
          if cancelled i then Err (transient_mailer ''shutdown requested during attachment validation'')
          else validate_refs as ts now cancelled (Suc i))"

text \<open>The error reported for several failed downloads: a transient one if there is any.\<close>

fun representative :: "AppError \<Rightarrow> AppError list \<Rightarrow> AppError" where
  "representative acc [] = acc"
| "representative acc (e # es) =
     representative (if is_permanent_mailer acc \<and> \<not> is_permanent_mailer e then e else acc) es"

fun oks :: "('e + 'a) list \<Rightarrow> 'a list" where
  "oks [] = []"
| "oks (Inr a # rs) = a # oks rs"
| "oks (Inl e # rs) = oks rs"

fun errs :: "('e + 'a) list \<Rightarrow> 'e list" where
  "errs [] = []"
| "errs (Inr a # rs) = errs rs"
| "errs (Inl e # rs) = e # errs rs"

definition collect_fetches :: "(AppError + ResolvedAttachment) list \<Rightarrow> AppError + ResolvedAttachment list" where
  "collect_fetches results =
     (case errs results of
        [] \<Rightarrow> Ok (oks results)
      | e # es \<Rightarrow> Err (representative e es))"

definition fetch_attachments_with_limit ::
  "(nat \<Rightarrow> string) \<Rightarrow> AttachmentRef list \<Rightarrow> datetime \<Rightarrow> nat \<Rightarrow> (nat \<Rightarrow> datetime) \<Rightarrow> (nat \<Rightarrow> bool) \<Rightarrow>
   (nat \<Rightarrow> fetch_env) \<Rightarrow> AppError + ResolvedAttachment list" where
  "fetch_attachments_with_limit st refs ts max_bytes now cancelled envs =
     (case validate_refs refs ts now cancelled 0 of
        Inl e \<Rightarrow> Err e
      | Inr _ \<Rightarrow>
          collect_fetches
            (map (\<lambda>(i, a). fst (fetch_one_with_retry st a max_bytes (envs i))) (enumerate 0 refs)))"

section \<open>Lemmas\<close>

interpretation fetch_backoff: backoff fetch_delay_secs 8
proof
  show "fetch_delay_secs n \<le> fetch_delay_secs (Suc n)" for n
    unfolding fetch_delay_secs_def by (rule power_increasing) auto
  have "min (n - 1) 3 \<le> 3" for n :: nat by simp
  then have "(2::nat) ^ min (n - 1) 3 \<le> 2 ^ 3" for n :: nat by (intro power_increasing) auto
  then show "fetch_delay_secs n \<le> 8" for n by (simp add: fetch_delay_secs_def)
qed

lemma fetch_one_size: "fetch_one st a m r = Ok b \<Longrightarrow> length b \<le> m"
  by (auto simp: fetch_one_def split: get_reply.splits if_splits sum.splits)

lemma fetch_attempts_ok:
  "fst (fetch_attempts st a m env k n le) = Ok res \<Longrightarrow>
   ra_filename res = a_filename a \<and> ra_content_type res = a_content_type a \<and> length (ra_data res) \<le> m"
  by (induction n arbitrary: k le) (auto split: if_splits sum.splits dest: fetch_one_size)

lemma fetch_attempts_count: "snd (fetch_attempts st a m env k n le) \<le> n"
  by (induction n arbitrary: k le) (auto split: sum.splits)

lemma fetch_attempts_all_transient:
  assumes "\<And>i. k \<le> i \<Longrightarrow> i < k + n \<Longrightarrow> \<not> fe_cancelled env i \<and> \<not> fe_sleep_cancelled env i"
    and "\<And>i. k \<le> i \<Longrightarrow> i < k + n \<Longrightarrow> \<exists>e. fetch_one st a m (fe_reply env i) = Err e \<and> \<not> is_permanent_mailer e"
  shows "snd (fetch_attempts st a m env k n le) = n"
  using assms
proof (induction n arbitrary: k le)
  case (Suc n)
  obtain e where "fetch_one st a m (fe_reply env k) = Err e" "\<not> is_permanent_mailer e"
    using Suc.prems(2) [of k] by auto
  moreover have "snd (fetch_attempts st a m env (Suc k) n (Some e)) = n"
    using Suc.prems by (intro Suc.IH) auto
  ultimately show ?case using Suc.prems(1) [of k] by (auto split: prod.splits)
qed simp

lemma representative_permanent:
  "is_permanent_mailer (representative acc es) \<longleftrightarrow> is_permanent_mailer acc \<and> (\<forall>e \<in> set es. is_permanent_mailer e)"
  by (induction es arbitrary: acc) auto

lemma representative_mem: "representative acc es \<in> set (acc # es)"
proof (induction es arbitrary: acc)
  case (Cons e es)
  show ?case using Cons.IH [of "if is_permanent_mailer acc \<and> \<not> is_permanent_mailer e then e else acc"]
    by (auto split: if_splits)
qed simp

lemma errs_Nil_oks: "errs rs = [] \<Longrightarrow> map Inr (oks rs) = rs"
  by (induction rs rule: errs.induct) auto

lemma set_errs: "e \<in> set (errs rs) \<longleftrightarrow> Inl e \<in> set rs"
  by (induction rs rule: errs.induct) auto

lemma oks_errs_map_Inr [simp]: "errs (map Inr as) = []" "oks (map Inr as) = as"
  by (induction as) auto

lemma collect_fetches_Ok: "collect_fetches rs = Ok as \<longleftrightarrow> rs = map Inr as"
proof
  assume "collect_fetches rs = Ok as"
  then show "rs = map Inr as"
    using errs_Nil_oks [of rs] by (auto simp: collect_fetches_def split: list.splits)
next
  show "rs = map Inr as \<Longrightarrow> collect_fetches rs = Ok as" by (simp add: collect_fetches_def)
qed

lemma collect_fetches_Err:
  assumes "collect_fetches rs = Err e"
  shows "Inl e \<in> set rs \<and> (is_permanent_mailer e \<longleftrightarrow> (\<forall>e'. Inl e' \<in> set rs \<longrightarrow> is_permanent_mailer e'))"
proof (cases "errs rs")
  case Nil
  with assms show ?thesis by (simp add: collect_fetches_def)
next
  case (Cons f fs)
  with assms have e: "e = representative f fs" by (simp add: collect_fetches_def)
  have mem: "Inl x \<in> set rs \<longleftrightarrow> x \<in> set (f # fs)" for x
    using set_errs [of x rs] Cons by simp
  from representative_permanent [of f fs] representative_mem [of f fs] e show ?thesis
    unfolding mem by auto
qed

section \<open>Properties\<close>

text \<open>
  C38. Success of the attachment download: the resolved attachments are those of the event, in the
  same order, under the declared names and types, each within the size limit; the limit is per
  attachment, so the sum of the sizes is only bounded by their number times the limit.
\<close>

theorem fetched_attachments_match:
  assumes "fetch_attachments_with_limit st refs ts max_bytes now cancelled envs = Ok atts"
  shows "map ra_filename atts = map a_filename refs \<and> map ra_content_type atts = map a_content_type refs \<and>
    (\<forall>a \<in> set atts. length (ra_data a) \<le> max_bytes) \<and>
    sum_list (map (length \<circ> ra_data) atts) \<le> length refs * max_bytes"
proof -
  have rs: "map (\<lambda>(i, a). fst (fetch_one_with_retry st a max_bytes (envs i))) (enumerate 0 refs) = map Inr atts"
    using assms by (auto simp: fetch_attachments_with_limit_def collect_fetches_Ok split: sum.splits)
  then have len: "length atts = length refs" by (metis length_map length_enumerate)
  have each: "ra_filename (atts ! i) = a_filename (refs ! i) \<and> ra_content_type (atts ! i) = a_content_type (refs ! i) \<and>
      length (ra_data (atts ! i)) \<le> max_bytes" if "i < length refs" for i
  proof -
    have "map (\<lambda>(i, a). fst (fetch_one_with_retry st a max_bytes (envs i))) (enumerate 0 refs) ! i = map Inr atts ! i"
      by (simp only: rs)
    then have "fst (fetch_one_with_retry st (refs ! i) max_bytes (envs i)) = Inr (atts ! i)"
      using that len by (simp add: nth_enumerate_eq)
    then show ?thesis unfolding fetch_one_with_retry_def by (rule fetch_attempts_ok)
  qed
  have bound: "\<forall>a \<in> set atts. length (ra_data a) \<le> max_bytes"
    using each len by (metis in_set_conv_nth)
  then have "sum_list (map (length \<circ> ra_data) atts) \<le> length atts * max_bytes"
    by (induction atts) auto
  with each bound len show ?thesis by (auto intro: nth_equalityI)
qed

definition sample_ref :: AttachmentRef where
  "sample_ref = \<lparr>a_url = ''https://h/f'', a_filename = ''f'', a_content_type = ''text/plain'',
     a_fetch_token = None, a_max_age_secs = None\<rparr>"

definition sample_fetch_env :: fetch_env where
  "sample_fetch_env = \<lparr>fe_reply = (\<lambda>i. if i = 0 then GetReply 503 (Inr []) else GetReply 200 (Inr ''data'')),
     fe_cancelled = (\<lambda>_. False), fe_sleep_cancelled = (\<lambda>_. False)\<rparr>"

theorem fetched_attachments_match_witness:
  "\<exists>atts. fetch_attachments_with_limit nat_to_string [sample_ref, sample_ref] 0 6 (\<lambda>_. 0) (\<lambda>_. False) (\<lambda>_. sample_fetch_env) = Ok atts \<and>
     map ra_filename atts = [''f'', ''f''] \<and> sum_list (map (length \<circ> ra_data) atts) = 8"
proof -
  let ?run = "fetch_attachments_with_limit nat_to_string [sample_ref, sample_ref] 0 6 (\<lambda>_. 0) (\<lambda>_. False) (\<lambda>_. sample_fetch_env)"
  have "?run = Ok [\<lparr>ra_filename = ''f'', ra_content_type = ''text/plain'', ra_data = ''data''\<rparr>,
      \<lparr>ra_filename = ''f'', ra_content_type = ''text/plain'', ra_data = ''data''\<rparr>]"
    by code_simp
  with fetched_attachments_match [OF this] show ?thesis by (simp add: sample_ref_def)
qed

text \<open>
  Bounded retries and the requeue decision: each attachment is requested at most four times;
  and when the download fails after the metadata checks, the reported error is one that some
  attachment really produced and is permanent exactly when every failed attachment failed
  permanently, so an event is dead-lettered only if retrying cannot help.
\<close>

lemma fetch_failure_decision:
  "snd (fetch_one_with_retry st a max_bytes env) \<le> 4 \<and>
   (validate_refs refs ts now cancelled 0 = Ok () \<longrightarrow>
    (\<forall>e. fetch_attachments_with_limit st refs ts max_bytes now cancelled envs = Err e \<longrightarrow>
       (\<exists>i < length refs. fst (fetch_one_with_retry st (refs ! i) max_bytes (envs i)) = Err e) \<and>
       (is_permanent_mailer e \<longleftrightarrow>
          (\<forall>i < length refs. \<forall>e'. fst (fetch_one_with_retry st (refs ! i) max_bytes (envs i)) = Err e' \<longrightarrow>
             is_permanent_mailer e'))))"
proof (intro conjI impI allI)
  show "snd (fetch_one_with_retry st a max_bytes env) \<le> 4"
    using fetch_attempts_count [of st a max_bytes env 0 4 None]
    by (simp add: fetch_one_with_retry_def FETCH_MAX_RETRIES_def eval_nat_numeral)
next
  fix e
  assume v: "validate_refs refs ts now cancelled 0 = Ok ()"
    and e: "fetch_attachments_with_limit st refs ts max_bytes now cancelled envs = Err e"
  let ?rs = "map (\<lambda>(i, a). fst (fetch_one_with_retry st a max_bytes (envs i))) (enumerate 0 refs)"
  have c: "collect_fetches ?rs = Err e" using v e by (simp add: fetch_attachments_with_limit_def)
  have mem: "Inl x \<in> set ?rs \<longleftrightarrow> (\<exists>i < length refs. fst (fetch_one_with_retry st (refs ! i) max_bytes (envs i)) = Err x)" for x
    by (simp only: in_set_conv_nth length_map length_enumerate) (auto simp: nth_enumerate_eq)
  from collect_fetches_Err [OF c]
  show "\<exists>i < length refs. fst (fetch_one_with_retry st (refs ! i) max_bytes (envs i)) = Err e"
    and "is_permanent_mailer e \<longleftrightarrow>
      (\<forall>i < length refs. \<forall>e'. fst (fetch_one_with_retry st (refs ! i) max_bytes (envs i)) = Err e' \<longrightarrow> is_permanent_mailer e')"
    unfolding mem by blast+
qed

end
