(* ===== verification/Broker.thy ===== *)
theory Broker
  imports Prelude
begin

text \<open>
  What the program sees of the message broker (crate \<^verbatim>\<open>lapin\<close>): the reply to a publish with its
  confirmation, and the heartbeat parameter that the consumer and the outbox worker add to the
  broker's URL. The broker itself is a parameter of the components that talk to it.
\<close>

datatype confirmation = ConfirmAck | ConfirmNack | ConfirmNotRequested

datatype publish_reply = PublishError string | ConfirmError string | ConfirmTimedOut | Confirmed confirmation

text \<open>\<^verbatim>\<open>append_heartbeat_param\<close>, the same code in \<^verbatim>\<open>runner.rs\<close> and \<^verbatim>\<open>worker.rs\<close>.\<close>

definition append_heartbeat_param :: "string \<Rightarrow> u16 \<Rightarrow> string" where
  "append_heartbeat_param url heartbeat_secs =
     (if contains_str ''heartbeat='' url then url
      else if contains_str ''?'' url then url @ ''&heartbeat='' @ nat_to_string (unat heartbeat_secs)
      else url @ ''?heartbeat='' @ nat_to_string (unat heartbeat_secs))"

text \<open>The result always carries the parameter, and adding it twice is adding it once.\<close>

lemma heartbeat_present: "contains_str ''heartbeat='' (append_heartbeat_param url h)"
proof -
  have "contains_str ''heartbeat='' (url @ c # ''heartbeat='' @ x)" for c x
    unfolding contains_str_iff by (rule exI [of _ "url @ [c]"]) simp
  then show ?thesis by (simp add: append_heartbeat_param_def)
qed

lemma heartbeat_idempotent: "append_heartbeat_param (append_heartbeat_param url h) h' = append_heartbeat_param url h"
  using heartbeat_present by (subst append_heartbeat_param_def) simp

end
