(* ===== verification/Processor_Props.thy ===== *)
theory Processor_Props
  imports Processor
begin

text \<open>
  What one call of the processor guarantees: every change of the delivery log is a run of the log's
  own operations (so the invariants of \<open>Log_Invariants\<close> carry over), only rows of the event and
  recipients at hand are touched, at most one message is handed to a sender, and that only for a
  recipient that had no row, is valid and is not blocked.
\<close>

section \<open>Frames\<close>

definition only_touches :: "uuid \<Rightarrow> string list \<Rightarrow> log_db \<Rightarrow> log_db \<Rightarrow> bool" where
  "only_touches ev rcs db db' \<longleftrightarrow>
     (\<forall>ev' rc'. ev' \<noteq> ev \<or> rc' \<notin> set rcs \<longrightarrow> find_row db' ev' rc' = find_row db ev' rc')"

lemma only_touches_refl [simp]: "only_touches ev rcs db db"
  by (simp add: only_touches_def)

lemma only_touches_trans:
  "only_touches ev rcs a b \<Longrightarrow> only_touches ev rcs b c \<Longrightarrow> only_touches ev rcs a c"
  by (simp add: only_touches_def)

lemma only_touches_mono: "only_touches ev rcs a b \<Longrightarrow> set rcs \<subseteq> set rcs' \<Longrightarrow> only_touches ev rcs' a b"
  by (auto simp: only_touches_def)

lemma only_touches_update_key:
  "key_preserving f \<Longrightarrow> only_touches ev [rc] db (snd (update_key fault (row_key ev rc) f nf db))"
proof -
  assume kp: "key_preserving f"
  have "find_row (update_where (row_key ev rc) f db) ev' rc' = find_row db ev' rc'"
    if "ev' \<noteq> ev \<or> rc' \<noteq> rc" for ev' rc'
  proof (cases "find_row db ev' rc'")
    case None
    with kp show ?thesis by (simp add: find_row_update_where)
  next
    case (Some r)
    from find_row_Some [OF Some] that have "\<not> row_key ev rc r" by (auto simp: row_key_def)
    with Some kp show ?thesis by (simp add: find_row_update_where)
  qed
  then show ?thesis by (auto simp: only_touches_def update_key_def split: option.splits)
qed

lemma only_touches_marks:
  "only_touches ev [rc] db (snd (mark_sent f n ev rc db))"
  "only_touches ev [rc] db (snd (mark_failed f n ev rc m x db))"
  "only_touches ev [rc] db (snd (mark_blocked f n ev rc m db))"
  unfolding mark_sent_def mark_failed_def mark_blocked_def by (rule only_touches_update_key, simp)+

lemma only_touches_insert_stmts:
  "insert_stmts now a db = Inr (res, db') \<Longrightarrow> only_touches (p_event_id a) [p_recipient_email a] db db'"
  using find_row_inserted [of db a now res db']
  by (cases "find_row db (p_event_id a) (p_recipient_email a)")
    (auto simp: only_touches_def insert_stmts_def)

lemma only_touches_insert:
  "only_touches (p_event_id a) [p_recipient_email a] db (snd (insert_pending f n a db))"
  by (auto simp: insert_pending_def split: option.splits sum.splits dest: only_touches_insert_stmts)

lemma only_touches_batch_stmts:
  "insert_batch_stmts now as db = Inr (ress, db') \<Longrightarrow> (\<forall>a \<in> set as. p_event_id a = ev) \<Longrightarrow>
   only_touches ev (map p_recipient_email as) db db'"
proof (induction now as db arbitrary: ress rule: insert_batch_stmts.induct)
  case (2 now a as db)
  then obtain res db1 ress' where 1: "insert_stmts now a db = Inr (res, db1)"
    and rest: "insert_batch_stmts now as db1 = Inr (ress', db')"
    by (auto split: sum.splits prod.splits)
  have "only_touches ev (map p_recipient_email (a # as)) db db1"
    using only_touches_insert_stmts [OF 1] 2(3) by (auto intro: only_touches_mono)
  moreover have "only_touches ev (map p_recipient_email (a # as)) db1 db'"
    using 2(1) [OF 1 refl rest] 2(3) by (auto intro: only_touches_mono)
  ultimately show ?case by (rule only_touches_trans)
qed simp

lemma only_touches_batch:
  "(\<forall>a \<in> set as. p_event_id a = ev) \<Longrightarrow>
   only_touches ev (map p_recipient_email as) db (snd (insert_pending_batch f n as db))"
  by (auto simp: insert_pending_batch_def split: option.splits sum.splits dest: only_touches_batch_stmts)

text \<open>A world step: log changes are runs of log operations on the named rows.\<close>

definition world_step :: "uuid \<Rightarrow> string list \<Rightarrow> world \<Rightarrow> world \<Rightarrow> bool" where
  "world_step ev rcs w w' \<longleftrightarrow>
     log_step\<^sup>*\<^sup>* (w_log w) (w_log w') \<and> only_touches ev rcs (w_log w) (w_log w')"

lemma world_step_refl: "w_log w' = w_log w \<Longrightarrow> world_step ev rcs w w'"
  by (simp add: world_step_def)

lemma world_step_trans: "world_step ev rcs u v \<Longrightarrow> world_step ev rcs v w \<Longrightarrow> world_step ev rcs u w"
  by (auto simp: world_step_def intro: only_touches_trans)

lemma world_step_mono: "world_step ev rcs u v \<Longrightarrow> set rcs \<subseteq> set rcs' \<Longrightarrow> world_step ev rcs' u v"
  by (auto simp: world_step_def intro: only_touches_mono)

lemma w_tick_simps [simp]: "w_log (tick w) = w_log w" "w_mail (tick w) = w_mail w"
  by (simp_all add: tick_def)

lemma w_log_db_op: "w_log (snd (db_op env F w)) = snd (F (env_fault env (w_tick w)) (env_now env (w_tick w)) (w_log w))"
  by (simp add: db_op_def split: prod.splits)

lemma w_mail_db_op [simp]: "w_mail (snd (db_op env F w)) = w_mail w"
  by (simp add: db_op_def split: prod.splits)

lemma db_op_eq: "db_op env F w = (r, w') \<Longrightarrow> w_mail w' = w_mail w \<and>
   F (env_fault env (w_tick w)) (env_now env (w_tick w)) (w_log w) = (r, w_log w')"
  by (auto simp: db_op_def split: prod.splits)

lemma world_step_db_op:
  assumes "\<And>f n db. consumer_step db (snd (F f n db))" "\<And>f n db. only_touches ev rcs db (snd (F f n db))"
  shows "world_step ev rcs w (snd (db_op env F w))"
  using assms unfolding world_step_def w_log_db_op log_step_def by auto

lemma world_step_marks:
  "world_step ev [rc] w (snd (db_op env (\<lambda>f n. mark_sent f n ev rc) w))"
  "world_step ev [rc] w (snd (db_op env (\<lambda>f n. mark_failed f n ev rc m x) w))"
  "world_step ev [rc] w (snd (db_op env (\<lambda>f n. mark_blocked f n ev rc m) w))"
  by (rule world_step_db_op; (rule consumer_step.intros only_touches_marks))+

lemma world_step_insert:
  "p_event_id a = ev \<Longrightarrow> p_recipient_email a = rc \<Longrightarrow>
   world_step ev [rc] w (snd (db_op env (\<lambda>f n. insert_pending f n a) w))"
  using only_touches_insert by (intro world_step_db_op consumer_step.intros) blast

lemma world_step_batch:
  "(\<forall>a \<in> set as. p_event_id a = ev) \<Longrightarrow>
   world_step ev (map p_recipient_email as) w (snd (db_op env (\<lambda>f n. insert_pending_batch f n as) w))"
  by (intro world_step_db_op consumer_step.intros only_touches_batch)

section \<open>Sending\<close>

lemma mark_each_sent_step:
  "world_step ev ms w (mark_each_sent env ev ms w) \<and> w_mail (mark_each_sent env ev ms w) = w_mail w"
proof (induction ms arbitrary: w)
  case (Cons m ms)
  let ?w = "snd (db_op env (\<lambda>f n. mark_sent f n ev m) w)"
  have "world_step ev (m # ms) w ?w" by (rule world_step_mono [OF world_step_marks(1)]) simp
  moreover have "world_step ev (m # ms) ?w (mark_each_sent env ev ms ?w)"
    using Cons [of ?w] by (auto intro: world_step_mono)
  ultimately show ?case using Cons [of ?w] by (auto intro: world_step_trans)
qed (simp add: world_step_def)

fun target_event :: "SendTargets \<Rightarrow> uuid" where
  "target_event (TargetIndividual ev _) = ev"
| "target_event (TargetGroup ev _ _ _ _) = ev"

fun target_rows :: "SendTargets \<Rightarrow> string list" where
  "target_rows (TargetIndividual _ rc) = [rc]"
| "target_rows (TargetGroup _ p ss _ _) = p # ss"

lemma mark_sent_for_targets_step:
  "world_step (target_event t) (target_rows t) w (mark_sent_for_targets env t w) \<and>
   w_mail (mark_sent_for_targets env t w) = w_mail w"
  using mark_each_sent_step by (cases t) (auto simp del: mark_each_sent.simps)

text \<open>Sending either fails without a trace or hands over exactly this message once.\<close>

lemma execute_send_effect:
  assumes "execute_send env ctx msg acct t w = (out, w')"
  shows "world_step (target_event t) (target_rows t) w w' \<and>
    (w_mail w' = w_mail w \<and> w_log w' = w_log w \<and> out \<noteq> OSent \<or>
     w_mail w' = w_mail w @ [(resolve_sender ctx acct, msg)] \<and> out = OSent)"
proof (cases "acquire_rate_limit_token env ctx w")
  case (Pair r w1)
  have w1: "w_log w1 = w_log w" "w_mail w1 = w_mail w"
    using Pair by (auto simp: acquire_rate_limit_token_def split: TokenResult.splits)
  show ?thesis
  proof (cases r)
    case (Inl o1)
    with Pair have "o1 = OFailed (Queue ''service shutdown during rate-limit wait'')"
      by (auto simp: acquire_rate_limit_token_def split: TokenResult.splits)
    with Pair Inl assms w1 show ?thesis by (auto simp: execute_send_def intro: world_step_refl)
  next
    case (Inr u)
    show ?thesis
    proof (cases "env_send env (w_tick w1) (resolve_sender ctx acct) msg")
      case (Inl e)
      have "send_failure t e \<noteq> OSent" by (cases "(t, e)" rule: send_failure.cases) auto
      with Pair Inr Inl assms w1 show ?thesis
        by (auto simp: execute_send_def Let_def intro: world_step_refl)
    next
      case (Inr u')
      let ?w2 = "(tick w1)\<lparr>w_mail := w_mail w1 @ [(resolve_sender ctx acct, msg)]\<rparr>"
      have "w' = mark_sent_for_targets env t ?w2" "out = OSent"
        using Pair \<open>r = Inr u\<close> Inr assms by (auto simp: execute_send_def Let_def)
      moreover have "world_step (target_event t) (target_rows t) w ?w2"
        by (rule world_step_refl) (simp add: w1)
      ultimately show ?thesis
        using mark_sent_for_targets_step [of t ?w2 env] w1 by (auto intro: world_step_trans)
    qed
  qed
qed

lemma prepare_effect: "prepare env ctx event opts w = (r, w') \<Longrightarrow> w_log w' = w_log w \<and> w_mail w' = w_mail w"
  by (auto simp: prepare_def split: sum.splits option.splits if_splits)

lemma blocked_reason_effect:
  assumes "blocked_reason env ctx email w = (m, w')"
  shows "w_log w' = w_log w \<and> w_mail w' = w_mail w \<and>
    (m = None \<longrightarrow> is_ok (filter_check (ctx_lower ctx) (ctx_filter ctx) email) \<and>
       (\<forall>reason. env_block_check env (w_tick w) email \<noteq> Err (BlockedError reason)))"
proof -
  have pass: "is_ok (filter_check (ctx_lower ctx) f email)" if "is_passthrough f" for f
    using that by (auto simp: is_passthrough_def filter_check_def Let_def split: option.splits)
  have filt: "is_ok (filter_check (ctx_lower ctx) f email) \<or> (\<exists>m. filter_check (ctx_lower ctx) f email = Err (BlockedError m))" for f
    using filter_policy.verdict_cases [of "ctx_lower ctx" f email] by auto
  show ?thesis
    using assms pass [of "ctx_filter ctx"] filt [of "ctx_filter ctx"]
    by (auto simp: blocked_reason_def split: if_splits sum.splits AppError.splits)
qed

text \<open>The three results of the idempotent insert, on the log.\<close>

lemma insert_pending_results:
  assumes "insert_pending f n a db = (r, db')"
  shows "case r of
      Inl e \<Rightarrow> db' = db
    | Inr (Duplicate c st) \<Rightarrow> db' = db \<and>
        (\<exists>row. find_row db (p_event_id a) (p_recipient_email a) = Some row \<and> n_retry_count row = c \<and> n_status row = st)
    | Inr Inserted \<Rightarrow> find_row db (p_event_id a) (p_recipient_email a) = None \<and>
        find_row db' (p_event_id a) (p_recipient_email a) = Some (new_row n a (next_id db))"
proof (cases "find_row db (p_event_id a) (p_recipient_email a)")
  case None
  show ?thesis
  proof (cases "insert_stmts n a db")
    case (Inl e)
    with assms show ?thesis by (auto simp: insert_pending_def split: option.splits)
  next
    case (Inr p)
    then obtain res db1 where p: "insert_stmts n a db = Inr (res, db1)" by (cases p) auto
    from find_row_inserted [OF None p, of "p_event_id a" "p_recipient_email a"] p assms None show ?thesis
      by (auto simp: insert_pending_def split: option.splits)
  qed
next
  case (Some row)
  with assms show ?thesis
    by (auto simp: insert_pending_def insert_stmts_def split: option.splits)
qed

lemma individual_args_key [simp]:
  "p_event_id (individual_args event opts r cb) = ne_event_id event"
  "p_recipient_email (individual_args event opts r cb) = r_email r"
  by (simp_all add: individual_args_def Let_def)

lemma group_args_key [simp]:
  "p_event_id (group_args event opts cb r) = ne_event_id event"
  "p_recipient_email (group_args event opts cb r) = r_email r"
  by (simp_all add: group_args_def)

section \<open>One recipient\<close>

text \<open>Before the insert succeeds nothing is written, and afterwards the row exists.\<close>

lemma process_recipient_cases:
  assumes "process_recipient env ctx event opts r atts cb w = (out, w')"
  obtains (no_write) "w_log w' = w_log w" "w_mail w' = w_mail w"
      "out \<noteq> OSent" "\<forall>m. out \<noteq> OBlocked m"
  | (inserted) w1 w2 rendered where "is_valid_email (r_email r)"
      "db_op env (\<lambda>f n. insert_pending f n (individual_args event opts r cb)) w1 = (Ok Inserted, w2)"
      "w_log w1 = w_log w" "w_mail w1 = w_mail w"
      "(case blocked_reason env ctx (r_email r) w2 of
          (Some reason, w) \<Rightarrow>
            (OBlocked reason, snd (db_op env (\<lambda>f n. mark_blocked f n (ne_event_id event) (r_email r) reason) w))
        | (None, w) \<Rightarrow>
            execute_send env ctx
              (build_email_message event r [] rendered (resolve_from_override (eo_from_override opts)) atts (ec_cc cb) (ec_bcc cb))
              (eo_sender_account opts) (TargetIndividual (ne_event_id event) (r_email r)) w) = (out, w')"
proof (cases "prepare env ctx event opts w")
  case (Pair r1 w1)
  note w1 = prepare_effect [OF Pair]
  show thesis
  proof (cases "is_valid_email (r_email r) \<and> (\<exists>rendered. r1 = Inr rendered)")
    case False
    then show thesis using assms Pair w1 no_write
      by (auto simp: process_recipient_def split: if_splits sum.splits)
  next
    case True
    then obtain rendered where r1: "is_valid_email (r_email r)" "r1 = Inr rendered" by blast
    obtain r2 w2 where op: "db_op env (\<lambda>f n. insert_pending f n (individual_args event opts r cb)) w1 = (r2, w2)"
      by fastforce
    note ins = db_op_eq [OF op]
    show thesis
    proof (cases "r2 = Ok Inserted")
      case True
      with assms Pair r1 op w1 show thesis by (intro inserted [of w1 w2 rendered]) (auto simp: process_recipient_def)
    next
      case False
      then have "w_log w2 = w_log w1"
        using insert_pending_results [OF conjunct2 [OF ins]] by (auto split: sum.splits InsertResult.splits)
      with False assms Pair r1 op w1 ins no_write show thesis
        by (auto simp: process_recipient_def split: sum.splits InsertResult.splits if_splits)
    qed
  qed
qed

lemma process_recipient_step:
  assumes "process_recipient env ctx event opts r atts cb w = (out, w')"
  shows "world_step (ne_event_id event) [r_email r] w w'"
  using assms
proof (cases rule: process_recipient_cases)
  case no_write
  then show ?thesis by (simp add: world_step_refl)
next
  case (inserted w1 w2 rendered)
  obtain m w3 where b: "blocked_reason env ctx (r_email r) w2 = (m, w3)" by fastforce
  have w3: "world_step (ne_event_id event) [r_email r] w w3"
  proof -
    have "world_step (ne_event_id event) [r_email r] w w1" using inserted by (simp add: world_step_refl)
    moreover have "world_step (ne_event_id event) [r_email r] w1 w2"
      using world_step_insert [of "individual_args event opts r cb", OF refl refl, of w1 env] inserted(2) by simp
    moreover have "world_step (ne_event_id event) [r_email r] w2 w3"
      using blocked_reason_effect [OF b] by (simp add: world_step_refl)
    ultimately show ?thesis by (blast intro: world_step_trans)
  qed
  show ?thesis
  proof (cases m)
    case (Some reason)
    with inserted(5) b w3 show ?thesis by (auto intro: world_step_trans world_step_marks(3))
  next
    case None
    with inserted(5) b have "execute_send env ctx
        (build_email_message event r [] rendered (resolve_from_override (eo_from_override opts)) atts (ec_cc cb) (ec_bcc cb))
        (eo_sender_account opts) (TargetIndividual (ne_event_id event) (r_email r)) w3 = (out, w')"
      by simp
    from execute_send_effect [OF this] w3 show ?thesis by (auto intro: world_step_trans)
  qed
qed

lemma process_recipient_mail:
  assumes "process_recipient env ctx event opts r atts cb w = (out, w')"
  shows "w_mail w' = w_mail w \<and> out \<noteq> OSent \<or>
    (\<exists>rendered t. out = OSent \<and>
       w_mail w' = w_mail w @ [(resolve_sender ctx (eo_sender_account opts),
         build_email_message event r [] rendered (resolve_from_override (eo_from_override opts)) atts (ec_cc cb) (ec_bcc cb))] \<and>
       find_row (w_log w) (ne_event_id event) (r_email r) = None \<and> is_valid_email (r_email r) \<and>
       is_ok (filter_check (ctx_lower ctx) (ctx_filter ctx) (r_email r)) \<and>
       (\<forall>reason. env_block_check env t (r_email r) \<noteq> Err (BlockedError reason)))"
  using assms
proof (cases rule: process_recipient_cases)
  case no_write
  then show ?thesis by simp
next
  case (inserted w1 w2 rendered)
  obtain m w3 where b: "blocked_reason env ctx (r_email r) w2 = (m, w3)" by fastforce
  have fresh: "find_row (w_log w) (ne_event_id event) (r_email r) = None"
    using insert_pending_results [OF conjunct2 [OF db_op_eq [OF inserted(2)]]] inserted(3) by simp
  have mail: "w_mail w3 = w_mail w"
    using blocked_reason_effect [OF b] db_op_eq [OF inserted(2)] inserted(4) by simp
  show ?thesis
  proof (cases m)
    case (Some reason)
    with inserted(5) b mail show ?thesis by auto
  next
    case None
    with inserted(5) b have "execute_send env ctx
        (build_email_message event r [] rendered (resolve_from_override (eo_from_override opts)) atts (ec_cc cb) (ec_bcc cb))
        (eo_sender_account opts) (TargetIndividual (ne_event_id event) (r_email r)) w3 = (out, w')"
      by simp
    from execute_send_effect [OF this] mail fresh inserted(1) blocked_reason_effect [OF b] None show ?thesis by auto
  qed
qed

lemma process_recipient_row:
  assumes "process_recipient env ctx event opts r atts cb w = (OSent, w')"
  shows "find_row (w_log w') (ne_event_id event) (r_email r) \<noteq> None"
  using assms
proof (cases rule: process_recipient_cases)
  case (inserted w1 w2 rendered)
  have "find_row (w_log w2) (ne_event_id event) (r_email r) \<noteq> None"
    using insert_pending_results [OF conjunct2 [OF db_op_eq [OF inserted(2)]]] by simp
  moreover obtain m w3 where b: "blocked_reason env ctx (r_email r) w2 = (m, w3)" by fastforce
  ultimately have w3: "find_row (w_log w3) (ne_event_id event) (r_email r) \<noteq> None"
    using blocked_reason_effect [OF b] by simp
  have "m = None" using inserted(5) b by (cases m) auto
  with inserted(5) b have "execute_send env ctx
      (build_email_message event r [] rendered (resolve_from_override (eo_from_override opts)) atts (ec_cc cb) (ec_bcc cb))
      (eo_sender_account opts) (TargetIndividual (ne_event_id event) (r_email r)) w3 = (OSent, w')" by simp
  from execute_send_effect [OF this] have "log_step\<^sup>*\<^sup>* (w_log w3) (w_log w')" by (auto simp: world_step_def)
  from find_row_evolves [OF log_steps_evolve [OF this] w3] show ?thesis .
qed simp

section \<open>A group\<close>

lemma partition_allowed_effect:
  assumes "partition_allowed env ctx ev rs w = (allowed, w')"
  shows "allowed = filter (\<lambda>r. is_ok (filter_check (ctx_lower ctx) (ctx_filter ctx) (r_email r))) rs \<and>
    world_step ev (map r_email rs) w w' \<and> w_mail w' = w_mail w"
  using assms
proof (induction rs arbitrary: w allowed)
  case Nil
  then show ?case by (simp add: world_step_refl)
next
  case (Cons r rs)
  show ?case
  proof (cases "filter_check (ctx_lower ctx) (ctx_filter ctx) (r_email r)")
    case (Inl e)
    with filter_check_error_kind obtain reason where e: "e = BlockedError reason" by blast
    let ?w = "snd (db_op env (\<lambda>f n. mark_blocked f n ev (r_email r) reason) w)"
    have "world_step ev (map r_email (r # rs)) w ?w"
      by (rule world_step_mono [OF world_step_marks(3)]) simp
    moreover have "world_step ev (map r_email (r # rs)) ?w w'"
      using Cons.IH [of ?w allowed] Cons.prems Inl e by (auto intro: world_step_mono)
    ultimately show ?thesis
      using Cons.IH [of ?w allowed] Cons.prems Inl e by (auto intro: world_step_trans)
  next
    case (Inr u)
    obtain al where al: "partition_allowed env ctx ev rs w = (al, w')" "allowed = r # al"
      using Cons.prems Inr by (cases "partition_allowed env ctx ev rs w") auto
    from Cons.IH [OF al(1)] Inr al(2) show ?thesis by (auto intro: world_step_mono)
  qed
qed

definition group_to :: "ProcessorContext \<Rightarrow> EmailOptions \<Rightarrow> InsertResult list \<Rightarrow> Recipient list" where
  "group_to ctx opts results =
     filter (\<lambda>r. r_email r \<notin> set (already_sent opts results))
       (filter (\<lambda>r. is_ok (filter_check (ctx_lower ctx) (ctx_filter ctx) (r_email r))) (eo_recipients opts))"

lemma group_send_effect:
  assumes "group_send env ctx event opts atts cb rendered primary results w = (out, w')"
    and "primary \<in> set (eo_recipients opts)"
  shows "world_step (ne_event_id event) (map r_email (eo_recipients opts)) w w' \<and>
    (w_mail w' = w_mail w \<and> out \<noteq> OSent \<or>
     out = OSent \<and> w_mail w' = w_mail w @ [(resolve_sender ctx (eo_sender_account opts),
       build_email_message event primary (map mailbox_of (drop 1 (group_to ctx opts results))) rendered
         (resolve_from_override (eo_from_override opts)) atts (ec_cc cb) (ec_bcc cb))])"
proof -
  let ?ev = "ne_event_id event" and ?rcs = "map r_email (eo_recipients opts)"
  obtain allowed w1 where p: "partition_allowed env ctx ?ev (eo_recipients opts) w = (allowed, w1)" by fastforce
  note pe = partition_allowed_effect [OF p]
  show ?thesis
  proof (cases allowed)
    case Nil
    with assms(1) p pe show ?thesis by (auto simp: group_send_def)
  next
    case (Cons a as)
    let ?t = "TargetGroup ?ev (r_email primary)
        (if eo_group_retry_mode opts = RetryIndividual then map r_email (drop 1 (group_to ctx opts results)) else [])
        (eo_group_retry_mode opts) (length (group_to ctx opts results))"
    have allowed: "filter (\<lambda>r. r_email r \<notin> set (already_sent opts results)) allowed = group_to ctx opts results"
      using pe by (simp add: group_to_def)
    have "execute_send env ctx (build_email_message event primary (map mailbox_of (drop 1 (group_to ctx opts results)))
        rendered (resolve_from_override (eo_from_override opts)) atts (ec_cc cb) (ec_bcc cb))
        (eo_sender_account opts) ?t w1 = (out, w')"
      using assms(1) by (simp only: group_send_def p Cons prod.case list.case Let_def allowed [unfolded Cons])
    from execute_send_effect [OF this] have e: "world_step ?ev (target_rows ?t) w1 w'"
      "w_mail w' = w_mail w1 \<and> out \<noteq> OSent \<or> out = OSent \<and> w_mail w' = w_mail w1 @ [(resolve_sender ctx (eo_sender_account opts),
        build_email_message event primary (map mailbox_of (drop 1 (group_to ctx opts results))) rendered
         (resolve_from_override (eo_from_override opts)) atts (ec_cc cb) (ec_bcc cb))]"
      by auto
    have "set (target_rows ?t) \<subseteq> set ?rcs"
      using assms(2) by (auto simp: group_to_def dest!: in_set_dropD)
    with e(1) have "world_step ?ev ?rcs w1 w'" by (rule world_step_mono)
    with pe e(2) show ?thesis by (auto intro: world_step_trans)
  qed
qed

lemma batch_first_result:
  assumes "insert_pending_batch f n (a # as) db = (Ok (Inserted # ress), db')"
  shows "find_row db (p_event_id a) (p_recipient_email a) = None"
proof (rule ccontr)
  assume "find_row db (p_event_id a) (p_recipient_email a) \<noteq> None"
  then obtain r where "find_row db (p_event_id a) (p_recipient_email a) = Some r" by blast
  then have "insert_stmts n a db = Inr (Duplicate (n_retry_count r) (n_status r), db)"
    by (simp add: insert_stmts_def)
  with assms show False
    by (auto simp: insert_pending_batch_def split: option.splits sum.splits prod.splits)
qed

lemma process_group_effect:
  assumes "process_group env ctx event opts atts cb maxr w = (out, w')" "eo_recipients opts = primary # rest"
  shows "world_step (ne_event_id event) (map r_email (eo_recipients opts)) w w' \<and>
    (w_mail w' = w_mail w \<and> out \<noteq> OSent \<or>
     (\<exists>rendered results. out = OSent \<and> find_row (w_log w) (ne_event_id event) (r_email primary) = None \<and>
        w_mail w' = w_mail w @ [(resolve_sender ctx (eo_sender_account opts),
          build_email_message event primary (map mailbox_of (drop 1 (group_to ctx opts results))) rendered
            (resolve_from_override (eo_from_override opts)) atts (ec_cc cb) (ec_bcc cb))]))"
proof (cases "length (eo_recipients opts) > maxr \<or> find (\<lambda>r. \<not> is_valid_email (r_email r)) (eo_recipients opts) \<noteq> None")
  case True
  then show ?thesis
    using assms by (auto simp: process_group_def world_step_refl split: if_splits option.splits)
next
  case False
  obtain r1 w1 where prep: "prepare env ctx event opts w = (r1, w1)" by fastforce
  note w1 = prepare_effect [OF prep]
  let ?rows = "if eo_group_retry_mode opts = RetryIndividual then map (group_args event opts cb) (eo_recipients opts)
    else [group_args event opts cb primary]"
  obtain r2 w2 where op: "db_op env (\<lambda>f n. insert_pending_batch f n ?rows) w1 = (r2, w2)" by fastforce
  have "world_step (ne_event_id event) (map p_recipient_email ?rows) w1 w2"
    using world_step_batch [of ?rows "ne_event_id event" w1 env] op by auto
  then have step: "world_step (ne_event_id event) (map r_email (eo_recipients opts)) w w2"
    using w1 assms(2) by (auto simp: world_step_def comp_def split: if_splits intro: only_touches_mono)
  have mail: "w_mail w2 = w_mail w" using db_op_eq [OF op] w1 by simp
  show ?thesis
  proof (cases "\<exists>rendered results. r1 = Inr rendered \<and> r2 = Ok (Inserted # results)")
    case True
    then obtain rendered results where r: "r1 = Inr rendered" "r2 = Ok (Inserted # results)" by blast
    have "group_send env ctx event opts atts cb rendered primary results w2 = (out, w')"
      using assms False prep op r by (simp add: process_group_def)
    from group_send_effect [OF this] assms(2)
    have g: "world_step (ne_event_id event) (map r_email (eo_recipients opts)) w2 w'"
      "w_mail w' = w_mail w2 \<and> out \<noteq> OSent \<or> out = OSent \<and> w_mail w' = w_mail w2 @ [(resolve_sender ctx (eo_sender_account opts),
         build_email_message event primary (map mailbox_of (drop 1 (group_to ctx opts results))) rendered
            (resolve_from_override (eo_from_override opts)) atts (ec_cc cb) (ec_bcc cb))]"
      by simp_all
    have "\<exists>as. ?rows = group_args event opts cb primary # as" using assms(2) by simp
    then obtain as where rows: "?rows = group_args event opts cb primary # as" by blast
    have "insert_pending_batch (env_fault env (w_tick w1)) (env_now env (w_tick w1)) (group_args event opts cb primary # as) (w_log w1)
        = (Ok (Inserted # results), w_log w2)"
      using db_op_eq [OF op] unfolding rows r(2) by blast
    from batch_first_result [OF this] have "find_row (w_log w1) (ne_event_id event) (r_email primary) = None"
      by simp
    with g step mail w1 show ?thesis by (auto intro: world_step_trans)
  next
    case no: False
    then have "(\<exists>e. out = OFailed e) \<or> out = OSkipped \<or> (\<exists>n. out = ODuplicate n)" "w' = w1 \<or> w' = w2"
      using assms False prep op
      by (auto simp: process_group_def split: sum.splits list.splits InsertResult.splits if_splits)
    with step mail w1 show ?thesis by (auto simp: world_step_refl)
  qed
qed

section \<open>Properties\<close>

text \<open>
  C4. No mail without a record, never twice, never to a blocked address: one call for a recipient
  hands at most one message to a sender; if it does, the message is addressed to that recipient
  alone, the address is valid, passes the configuration filter and was not refused by the
  run-time block list, no row existed for it before, and one exists afterwards. Whatever happens,
  only that recipient's row of that event changes and the log stays consistent.
\<close>

theorem process_recipient_safe:
  assumes "process_recipient env ctx event opts r atts cb w = (out, w')" "log_inv (w_log w)"
  shows "log_inv (w_log w') \<and> only_touches (ne_event_id event) [r_email r] (w_log w) (w_log w') \<and>
    (w_mail w' = w_mail w \<and> out \<noteq> OSent \<or>
     (\<exists>sender msg t. out = OSent \<and> w_mail w' = w_mail w @ [(sender, msg)] \<and>
        m_to_email msg = r_email r \<and> m_to_extra msg = [] \<and> m_cc msg = map mailbox_of (ec_cc cb) \<and>
        m_bcc msg = map mailbox_of (ec_bcc cb) \<and> is_valid_email (r_email r) \<and>
        is_ok (filter_check (ctx_lower ctx) (ctx_filter ctx) (r_email r)) \<and>
        (\<forall>reason. env_block_check env t (r_email r) \<noteq> Err (BlockedError reason)) \<and>
        find_row (w_log w) (ne_event_id event) (r_email r) = None \<and>
        find_row (w_log w') (ne_event_id event) (r_email r) \<noteq> None))"
proof -
  have step: "log_step\<^sup>*\<^sup>* (w_log w) (w_log w')" "only_touches (ne_event_id event) [r_email r] (w_log w) (w_log w')"
    using process_recipient_step [OF assms(1)] by (simp_all add: world_step_def)
  have present: "find_row (w_log w') (ne_event_id event) (r_email r) \<noteq> None" if "out = OSent"
    using process_recipient_row assms(1) that by blast
  show ?thesis
    using process_recipient_mail [OF assms(1)] step present log_steps_inv [OF step(1) assms(2)]
    by (auto simp: build_email_message_def) blast+
qed

text \<open>A concrete environment in which every dependency answers.\<close>

definition echo_jinja :: jinja where
  "echo_jinja = \<lparr>jinja_parse = (\<lambda>_ _. Ok ()), jinja_render = (\<lambda>_ t _. Ok t)\<rparr>"

definition sample_ctx :: ProcessorContext where
  "sample_ctx = \<lparr>ctx_sender = ''smtp'', ctx_sender_registry = [], 
     ctx_filter = filter_new ascii_lowercase \<lparr>blocked_emails = [''blocked@x.org''], blocked_domains = [], allowed_emails = [], allowed_domains = []\<rparr>,
     ctx_rate_limiter = \<lparr>rl_inner = None\<rparr>, ctx_jinja = echo_jinja, ctx_lower = ascii_lowercase\<rparr>"

definition sample_env :: "(nat \<Rightarrow> string \<Rightarrow> EmailMessage \<Rightarrow> AppError + unit) \<Rightarrow> env" where
  "sample_env send = \<lparr>env_fault = (\<lambda>_. None), env_now = int,
     env_resolve = (\<lambda>_ _ _. Ok \<lparr>t_subject = ''s'', t_body_html = ''h'', t_body_text = ''t''\<rparr>),
     env_block_check = (\<lambda>_ _. Ok ()), env_token = (\<lambda>_. \<lparr>lr_check_ok = True, lr_ready_first = True\<rparr>),
     env_send = send, env_sleep_cancelled = (\<lambda>_. False)\<rparr>"

definition sample_world :: world where
  "sample_world = \<lparr>w_log = empty_db, w_mail = [], w_sleeps = [], w_tick = 0\<rparr>"

definition to_all :: "string list \<Rightarrow> EmailOptions" where
  "to_all addrs = \<lparr>eo_send_mode = SendGroup, eo_group_retry_mode = RetryWhole, eo_retry_policy = Retry,
     eo_recipients = map (\<lambda>a. \<lparr>r_email = a, r_name = None\<rparr>) addrs, eo_cc = [], eo_bcc = [], eo_from_override = None,
     eo_attachments = [], eo_sender_account = None, eo_send_at = None, eo_priority = None\<rparr>"

definition no_copies :: EffectiveCcBcc where
  "no_copies = \<lparr>ec_cc = [], ec_bcc = []\<rparr>"

theorem process_recipient_safe_witness:
  "\<exists>w'. process_recipient (sample_env (\<lambda>_ _ _. Ok ())) sample_ctx sample_event (to_all []) \<lparr>r_email = ''a@x.org'', r_name = None\<rparr> [] no_copies sample_world = (OSent, w') \<and>
     length (w_mail w') = 1 \<and> log_inv (w_log w')"
proof -
  let ?run = "process_recipient (sample_env (\<lambda>_ _ _. Ok ())) sample_ctx sample_event (to_all []) \<lparr>r_email = ''a@x.org'', r_name = None\<rparr> [] no_copies sample_world"
  have "fst ?run = OSent" by code_simp
  then obtain w' where run: "?run = (OSent, w')" by (metis prod.collapse)
  have "log_inv (w_log sample_world)" by (simp add: sample_world_def log_inv_empty)
  from process_recipient_safe [OF run this] run show ?thesis by (auto simp: sample_world_def)
qed

text \<open>
  A group message goes out at most once per event and its To line is fixed by the filter: in
  whole-group mode a sent message has the first recipient of the event as its To address, followed
  by all but the first of the recipients the configuration filter lets through. When the first
  recipient itself passes, that is exactly the allowed recipients in order; the primary had no row
  before, and only rows of the event's recipients change.
\<close>

theorem process_group_to_line:
  assumes "process_group env ctx event opts atts cb maxr w = (OSent, w')"
    and "eo_recipients opts = primary # rest" "eo_group_retry_mode opts = RetryWhole"
  shows "\<exists>sender msg. w_mail w' = w_mail w @ [(sender, msg)] \<and> m_to_email msg = r_email primary \<and>
      m_to_extra msg = map mailbox_of (drop 1
        (filter (\<lambda>r. is_ok (filter_check (ctx_lower ctx) (ctx_filter ctx) (r_email r))) (eo_recipients opts))) \<and>
      find_row (w_log w) (ne_event_id event) (r_email primary) = None \<and>
      only_touches (ne_event_id event) (map r_email (eo_recipients opts)) (w_log w) (w_log w') \<and>
      (is_ok (filter_check (ctx_lower ctx) (ctx_filter ctx) (r_email primary)) \<longrightarrow>
         m_to_email msg # map mb_email (m_to_extra msg) =
         map r_email (filter (\<lambda>r. is_ok (filter_check (ctx_lower ctx) (ctx_filter ctx) (r_email r))) (eo_recipients opts)))"
proof -
  have "group_to ctx opts results =
      filter (\<lambda>r. is_ok (filter_check (ctx_lower ctx) (ctx_filter ctx) (r_email r))) (eo_recipients opts)" for results
    using assms(3) by (simp add: group_to_def already_sent_def)
  with process_group_effect [OF assms(1,2)] show ?thesis
    using assms(2) by (auto simp: build_email_message_def world_step_def mailbox_of_def)
qed

theorem process_group_to_line_witness:
  "\<exists>w'. process_group (sample_env (\<lambda>_ _ _. Ok ())) sample_ctx sample_event (to_all [''a@x.org'', ''blocked@x.org'', ''c@x.org'']) [] no_copies 10 sample_world = (OSent, w') \<and>
     map (\<lambda>(_, m). m_to_email m # map mb_email (m_to_extra m)) (w_mail w') = [[''a@x.org'', ''c@x.org'']]"
proof -
  let ?o = "to_all [''a@x.org'', ''blocked@x.org'', ''c@x.org'']"
  let ?run = "process_group (sample_env (\<lambda>_ _ _. Ok ())) sample_ctx sample_event ?o [] no_copies 10 sample_world"
  have "fst ?run = OSent" by code_simp
  then obtain w' where run: "?run = (OSent, w')" by (metis prod.collapse)
  have f: "map r_email (filter (\<lambda>r. is_ok (filter_check (ctx_lower sample_ctx) (ctx_filter sample_ctx) (r_email r))) (eo_recipients ?o)) = [''a@x.org'', ''c@x.org'']"
    by code_simp
  have p: "is_ok (filter_check (ctx_lower sample_ctx) (ctx_filter sample_ctx) ''a@x.org'')" by code_simp
  have "eo_recipients ?o = \<lparr>r_email = ''a@x.org'', r_name = None\<rparr> # tl (eo_recipients ?o)" by (simp add: to_all_def)
  from process_group_to_line [OF run this] p f run show ?thesis
    by (auto simp: sample_world_def to_all_def)
qed

text \<open>
  C12. A blocked first recipient is mailed all the same: when the configuration filter blocks the
  first recipient of a whole-mode group but not all of them, every sent message still has the
  blocked address as its To address, and the first recipient that the filter allows is not on the
  To line at all (recipients with pairwise different addresses).
\<close>

theorem group_blocked_primary_mailed:
  assumes "process_group env ctx event opts atts cb maxr w = (OSent, w')"
    and "eo_recipients opts = primary # rest" "eo_group_retry_mode opts = RetryWhole"
    and "\<not> is_ok (filter_check (ctx_lower ctx) (ctx_filter ctx) (r_email primary))"
    and "filter (\<lambda>r. is_ok (filter_check (ctx_lower ctx) (ctx_filter ctx) (r_email r))) rest = first # others"
    and "distinct (map r_email (eo_recipients opts))"
  shows "\<exists>sender msg. w_mail w' = w_mail w @ [(sender, msg)] \<and> m_to_email msg = r_email primary \<and>
    r_email first \<notin> set (m_to_email msg # map mb_email (m_to_extra msg))"
proof -
  have "group_to ctx opts results = first # others" for results
    using assms(2-5) by (simp add: group_to_def already_sent_def)
  with process_group_effect [OF assms(1,2)] obtain sender msg where m: "w_mail w' = w_mail w @ [(sender, msg)]"
    "m_to_email msg = r_email primary" "m_to_extra msg = map mailbox_of others"
    by (auto simp: build_email_message_def)
  have "first \<in> set (filter (\<lambda>r. is_ok (filter_check (ctx_lower ctx) (ctx_filter ctx) (r_email r))) rest)"
    unfolding assms(5) by simp
  then have "first \<in> set rest" by simp
  moreover have "distinct (map r_email (first # others))"
    using assms(2,6) distinct_map_filter [of r_email rest] by (simp flip: assms(5))
  moreover have "r_email first \<noteq> r_email primary"
    using calculation(1) assms(2,6) by (metis distinct.simps(2) list.simps(9) image_eqI list.set_map)
  ultimately show ?thesis using m by (auto simp: mailbox_of_def)
qed

theorem group_blocked_primary_mailed_witness:
  "\<exists>w'. process_group (sample_env (\<lambda>_ _ _. Ok ())) sample_ctx sample_event (to_all [''blocked@x.org'', ''a@x.org'', ''c@x.org'']) [] no_copies 10 sample_world = (OSent, w') \<and>
     (\<exists>sender msg. w_mail w' = [(sender, msg)] \<and> m_to_email msg = ''blocked@x.org'' \<and>
        ''a@x.org'' \<notin> set (m_to_email msg # map mb_email (m_to_extra msg)))"
proof -
  let ?o = "to_all [''blocked@x.org'', ''a@x.org'', ''c@x.org'']"
  let ?run = "process_group (sample_env (\<lambda>_ _ _. Ok ())) sample_ctx sample_event ?o [] no_copies 10 sample_world"
  have "fst ?run = OSent" by code_simp
  then obtain w' where run: "?run = (OSent, w')" by (metis prod.collapse)
  let ?r = "\<lambda>a. \<lparr>r_email = a, r_name = None\<rparr>"
  have rs: "eo_recipients ?o = ?r ''blocked@x.org'' # [?r ''a@x.org'', ?r ''c@x.org'']" by (simp add: to_all_def)
  have b: "\<not> is_ok (filter_check (ctx_lower sample_ctx) (ctx_filter sample_ctx) (r_email (?r ''blocked@x.org'')))" by code_simp
  have a: "filter (\<lambda>r. is_ok (filter_check (ctx_lower sample_ctx) (ctx_filter sample_ctx) (r_email r))) [?r ''a@x.org'', ?r ''c@x.org''] =
      ?r ''a@x.org'' # [?r ''c@x.org'']" by code_simp
  have "eo_group_retry_mode ?o = RetryWhole" "distinct (map r_email (eo_recipients ?o))" by (simp_all add: to_all_def)
  from group_blocked_primary_mailed [OF run rs this(1) b a this(2)] run show ?thesis
    by (auto simp: sample_world_def)
qed

end
