(* ===== verification/Delivery_Props.thy ===== *)
theory Delivery_Props
  imports Delivery Processor_Props "HOL-Library.Sublist"
begin

text \<open>
  What a delivery guarantees: bounded and monotone back-off, at most one message per address and
  event in individual mode whatever the interleaving with redeliveries, the acknowledgement
  decision, and when the retry loops return. The last part shows that they return when no retry
  is due, and that a retry never returns: once a row exists in a non-terminal state the loop
  spins without sending.
\<close>

section \<open>Back-off\<close>

lemma unat_min_word: "unat (min a b) = min (unat a) (unat b)" for a b :: "'a::len word"
  by (simp add: min_def word_le_nat_alt)

lemma retry_delay_doubling:
  "unat (retry_delay_ms base attempt) = capped_doubling (unat base) 10 1800000 (unat attempt)"
proof -
  have s: "unat (shl_u64 1 (min (unat attempt) 10)) = 2 ^ min (unat attempt) 10"
    by (rule shl_u64_one) simp
  have "unat (min attempt 10) = min (unat attempt) 10" by (simp add: unat_min_word)
  then have "unat (retry_delay_ms base attempt) = min (min (unat base * 2 ^ min (unat attempt) 10) (2 ^ 64 - 1)) 1800000"
    by (simp add: retry_delay_ms_def unat_min_word saturating_mul_u64_unat s MAX_RETRY_DELAY_MS_def)
  also have "\<dots> = min (unat base * 2 ^ min (unat attempt) 10) 1800000" by (simp add: min.assoc)
  finally show ?thesis by (simp add: capped_doubling_def)
qed

lemma rl_delay_doubling: "unat (rl_delay_ms rl) = capped_doubling 30000 3 240000 (unat rl)"
proof -
  have "unat (min rl 3) = min (unat rl) 3" by (simp add: unat_min_word)
  moreover have "min (unat rl) 3 \<in> {0, 1, 2, 3}" by (auto simp: min_def)
  ultimately show ?thesis
    by (auto simp: rl_delay_ms_def capped_doubling_def shl_u64_def push_bit_eq_mult)
qed

section \<open>Turns of the loop\<close>

lemma note_failed_step:
  "world_step eid [rc] w (note_failed env eid (Some rc) m x w) \<and> w_mail (note_failed env eid (Some rc) m x w) = w_mail w"
  using world_step_marks(2) by simp

lemma note_failed_absent:
  assumes "log_inv (w_log w)" "find_row (w_log w) eid rc = None"
  shows "w_log (note_failed env eid (Some rc) m x w) = w_log w"
  using assms
  by (cases "env_fault env (w_tick w)") (simp_all add: w_log_db_op mark_failed_def update_key_result)

lemma back_off_step:
  "case back_off env eid (Some rc) m m' d a rl w of
     Inl w' \<Rightarrow> world_step eid [rc] w w' \<and> w_mail w' = w_mail w
   | Inr (a', rl', w') \<Rightarrow> world_step eid [rc] w w' \<and> w_mail w' = w_mail w"
proof -
  let ?w1 = "note_failed env eid (Some rc) m False w"
  let ?w2 = "(tick ?w1)\<lparr>w_sleeps := w_sleeps ?w1 @ [d]\<rparr>"
  have 1: "world_step eid [rc] w ?w2" "w_mail ?w2 = w_mail w"
    using note_failed_step [of eid rc w env m False] by (simp_all add: world_step_def)
  have 2: "world_step eid [rc] ?w2 (note_failed env eid (Some rc) m' True ?w2)"
    "w_mail (note_failed env eid (Some rc) m' True ?w2) = w_mail ?w2"
    using note_failed_step [of eid rc ?w2 env m' True] by simp_all
  from 1 2 world_step_trans [OF 1(1) 2(1)] show ?thesis
    by (simp add: back_off_def Let_def del: note_failed.simps)
qed

lemma recipient_turn_step:
  "case recipient_turn env cfg eid p rc a rl out w of
     Inl w' \<Rightarrow> world_step eid [rc] w w' \<and> w_mail w' = w_mail w
   | Inr (a', rl', w') \<Rightarrow> world_step eid [rc] w w' \<and> w_mail w' = w_mail w"
proof -
  have f: "case on_failed env cfg eid p (Some rc) a rl e w of
     Inl w' \<Rightarrow> world_step eid [rc] w w' \<and> w_mail w' = w_mail w
   | Inr (a', rl', w') \<Rightarrow> world_step eid [rc] w w' \<and> w_mail w' = w_mail w" for e
    using note_failed_step back_off_step
    by (auto simp: on_failed_def Let_def simp del: note_failed.simps split: AppError.split)
  show ?thesis
    using note_failed_step f
    by (cases out) (auto simp: recipient_turn_def world_step_refl simp del: note_failed.simps)
qed

section \<open>What a returning loop has done\<close>

text \<open>
  The guarantee of a run of the recipient loop: log steps on its own row only, and at most one
  message, to this address, and none at all if the row existed when it started.
\<close>

definition loop_effect :: "uuid \<Rightarrow> string \<Rightarrow> world \<Rightarrow> world \<Rightarrow> bool" where
  "loop_effect eid rc w w' \<longleftrightarrow>
     world_step eid [rc] w w' \<and>
     (w_mail w' = w_mail w \<or>
      find_row (w_log w) eid rc = None \<and> find_row (w_log w') eid rc \<noteq> None \<and>
      (\<exists>s msg. w_mail w' = w_mail w @ [(s, msg)] \<and> m_to_email msg = rc \<and> m_to_extra msg = [] \<and> m_event_id msg = eid))"

lemma world_step_keeps_row: "world_step eid rcs w w' \<Longrightarrow> find_row (w_log w) ev rc \<noteq> None \<Longrightarrow> find_row (w_log w') ev rc \<noteq> None"
  unfolding world_step_def using find_row_evolves [OF log_steps_evolve] by blast

lemma loop_effect_trans_quiet:
  assumes "world_step eid [rc] w w1" "w_mail w1 = w_mail w" "loop_effect eid rc w1 w'"
  shows "loop_effect eid rc w w'"
proof -
  have "find_row (w_log w) eid rc = None" if "find_row (w_log w1) eid rc = None"
    using world_step_keeps_row [OF assms(1)] that by blast
  then show ?thesis using assms unfolding loop_effect_def by (auto intro: world_step_trans)
qed

lemma process_recipient_no_mail:
  assumes "process_recipient env ctx event opts r atts cb w = (out, w1)" "out \<noteq> OSent"
  shows "world_step (ne_event_id event) [r_email r] w w1 \<and> w_mail w1 = w_mail w"
  using process_recipient_step [OF assms(1)] process_recipient_mail [OF assms(1)] assms(2) by auto

lemma process_recipient_sent:
  assumes "process_recipient env ctx event opts r atts cb w = (OSent, w1)"
  shows "loop_effect (ne_event_id event) (r_email r) w w1"
proof -
  obtain rendered where m: "w_mail w1 = w_mail w @ [(resolve_sender ctx (eo_sender_account opts),
      build_email_message event r [] rendered (resolve_from_override (eo_from_override opts)) atts (ec_cc cb) (ec_bcc cb))]"
    "find_row (w_log w) (ne_event_id event) (r_email r) = None"
    using process_recipient_mail [OF assms] by auto
  have "find_row (w_log w1) (ne_event_id event) (r_email r) \<noteq> None"
    using process_recipient_row [OF assms] .
  with m process_recipient_step [OF assms] show ?thesis by (auto simp: loop_effect_def build_email_message_def)
qed

text \<open>Induction over the turns of a returning loop.\<close>

lemma recipient_loop_induct [consumes 1, case_names stop turn]:
  assumes "recipient_loop env ctx event opts r atts cb cfg a rl w = Some w'"
    and stop: "\<And>a rl w out w1 w'. process_recipient env ctx event opts r atts cb w = (out, w1) \<Longrightarrow>
      recipient_turn env cfg (ne_event_id event) (eo_retry_policy opts) (r_email r) a rl out w1 = Inl w' \<Longrightarrow> P a rl w w'"
    and turn: "\<And>a rl w out w1 a' rl' w2 w'. process_recipient env ctx event opts r atts cb w = (out, w1) \<Longrightarrow>
      recipient_turn env cfg (ne_event_id event) (eo_retry_policy opts) (r_email r) a rl out w1 = Inr (a', rl', w2) \<Longrightarrow>
      P a' rl' w2 w' \<Longrightarrow> P a rl w w'"
  shows "P a rl w w'"
proof -
  let ?Q = "\<lambda>env' ctx' event' opts' r' atts' cb' cfg' a rl w w'.
    env' = env \<and> ctx' = ctx \<and> event' = event \<and> opts' = opts \<and> r' = r \<and> atts' = atts \<and> cb' = cb \<and> cfg' = cfg \<longrightarrow> P a rl w w'"
  have "?Q env ctx event opts r atts cb cfg a rl w w'"
  proof (rule recipient_loop.raw_induct [of ?Q, OF _ assms(1)], intro impI, elim conjE, goal_cases)
    case (1 loop env' ctx' event' opts' r' atts' cb' cfg' a rl w w')
    then show ?case using stop turn by (auto split: prod.splits sum.splits)
  qed
  then show ?thesis by simp
qed

lemma recipient_loop_effect:
  assumes "recipient_loop env ctx event opts r atts cb cfg a rl w = Some w'"
  shows "loop_effect (ne_event_id event) (r_email r) w w'"
  using assms
proof (induction rule: recipient_loop_induct)
  case (stop a rl w out w1 w')
  show ?case
  proof (cases "out = OSent")
    case True
    with stop show ?thesis using process_recipient_sent by (auto simp: recipient_turn_def)
  next
    case False
    from process_recipient_no_mail [OF stop(1) False]
      recipient_turn_step [of "ne_event_id event" "r_email r" w1 env cfg "eo_retry_policy opts" a rl out] stop(2)
    show ?thesis by (auto simp: loop_effect_def intro: world_step_trans)
  qed
next
  case (turn a rl w out w1 a' rl' w2 w')
  then have "out \<noteq> OSent" by (auto simp: recipient_turn_def)
  note q = process_recipient_no_mail [OF turn(1) this]
  have "world_step (ne_event_id event) [r_email r] w1 w2" "w_mail w2 = w_mail w1"
    using recipient_turn_step [of "ne_event_id event" "r_email r" w1 env cfg "eo_retry_policy opts" a rl out] turn(2) by auto
  with q world_step_trans have "world_step (ne_event_id event) [r_email r] w w2" "w_mail w2 = w_mail w" by metis+
  then show ?case using turn(3) by (rule loop_effect_trans_quiet)
qed

section \<open>Individual mode as a whole\<close>

lemma process_recipients_effect:
  assumes "process_recipients env ctx event opts rs atts cb cfg w = Some w'"
  shows "world_step (ne_event_id event) (map r_email rs) w w' \<and>
    (\<exists>ms. w_mail w' = w_mail w @ ms \<and> distinct (map (m_to_email \<circ> snd) ms) \<and>
       (\<forall>(s, m) \<in> set ms. m_to_email m \<in> r_email ` set rs \<and> m_to_extra m = [] \<and> m_event_id m = ne_event_id event \<and>
          find_row (w_log w) (ne_event_id event) (m_to_email m) = None \<and>
          find_row (w_log w') (ne_event_id event) (m_to_email m) \<noteq> None))"
  using assms
proof (induction rs arbitrary: w)
  case Nil
  then show ?case by (auto intro: world_step_refl)
next
  case (Cons r rs)
  let ?eid = "ne_event_id event"
  from Cons.prems obtain w1 where one: "loop_effect ?eid (r_email r) w w1"
    and rest: "process_recipients env ctx event opts rs atts cb cfg w1 = Some w'"
    by (auto simp: bind_eq_Some_conv process_one_recipient_def dest: recipient_loop_effect)
  from Cons.IH [OF rest] obtain ms where ws: "world_step ?eid (map r_email rs) w1 w'"
    and ms: "w_mail w' = w_mail w1 @ ms" "distinct (map (m_to_email \<circ> snd) ms)"
    and each: "\<And>s m. (s, m) \<in> set ms \<Longrightarrow> m_to_email m \<in> r_email ` set rs \<and> m_to_extra m = [] \<and> m_event_id m = ?eid \<and>
          find_row (w_log w1) ?eid (m_to_email m) = None \<and> find_row (w_log w') ?eid (m_to_email m) \<noteq> None" by blast
  from one have w1: "world_step ?eid [r_email r] w w1" by (simp add: loop_effect_def)
  have step: "world_step ?eid (map r_email (r # rs)) w w'"
    by (rule world_step_trans [OF world_step_mono [OF w1] world_step_mono [OF ws]]) auto
  have old: "find_row (w_log w) ?eid a = None" if "find_row (w_log w1) ?eid a = None" for a
    using world_step_keeps_row [OF w1] that by blast
  from one consider "w_mail w1 = w_mail w"
    | s m where "w_mail w1 = w_mail w @ [(s, m)]" "m_to_email m = r_email r" "m_to_extra m = []" "m_event_id m = ?eid"
        "find_row (w_log w) ?eid (r_email r) = None" "find_row (w_log w1) ?eid (r_email r) \<noteq> None"
    by (auto simp: loop_effect_def)
  then show ?case
  proof cases
    case 1
    with step ms each old show ?thesis by fastforce
  next
    case 2
    have "r_email r \<notin> set (map (m_to_email \<circ> snd) ms)" using each 2(6) by fastforce
    moreover have "find_row (w_log w') ?eid (r_email r) \<noteq> None" using world_step_keeps_row [OF ws 2(6)] .
    ultimately have "w_mail w' = w_mail w @ ((s, m) # ms) \<and> distinct (map (m_to_email \<circ> snd) ((s, m) # ms)) \<and>
       (\<forall>(s, m) \<in> set ((s, m) # ms). m_to_email m \<in> r_email ` set (r # rs) \<and> m_to_extra m = [] \<and> m_event_id m = ?eid \<and>
          find_row (w_log w) ?eid (m_to_email m) = None \<and> find_row (w_log w') ?eid (m_to_email m) \<noteq> None)"
      using 2 ms each old by auto
    with step show ?thesis by blast
  qed
qed

section \<open>Properties\<close>

text \<open>
  At most one message per address and event in individual mode: whatever the recipient list
  (repeated addresses included), the environment and the log before, the messages that a
  returning run hands to a sender have pairwise different addresses of the recipient list, each
  address had no row for the event before the run and has one after it (so a later delivery of
  the same event mails none of them again), and the log stays consistent.
\<close>

lemma individual_mode_at_most_once:
  assumes "process_recipients env ctx event opts rs atts cb cfg w = Some w'" "log_inv (w_log w)"
  shows "log_inv (w_log w') \<and> only_touches (ne_event_id event) (map r_email rs) (w_log w) (w_log w') \<and>
    (\<exists>ms. w_mail w' = w_mail w @ ms \<and> distinct (map (m_to_email \<circ> snd) ms) \<and>
       (\<forall>(s, m) \<in> set ms. m_to_email m \<in> r_email ` set rs \<and> m_to_extra m = [] \<and>
          find_row (w_log w) (ne_event_id event) (m_to_email m) = None \<and>
          find_row (w_log w') (ne_event_id event) (m_to_email m) \<noteq> None))"
  using process_recipients_effect [OF assms(1)] assms(2)
  by (fastforce simp: world_step_def dest: log_steps_inv)

text \<open>The first turn of the loop, when it stops there.\<close>

lemma one_turn:
  assumes "process_recipient env ctx event opts r atts cb w = (out, w1)"
    and "recipient_turn env cfg (ne_event_id event) (eo_retry_policy opts) (r_email r) 0 0 out w1 = Inl w2"
  shows "process_one_recipient env ctx event opts r atts cb cfg w = Some w2"
  unfolding process_one_recipient_def by (subst recipient_loop.simps) (simp add: assms)

lemma individual_mode_at_most_once_witness:
  "let rs = [\<lparr>r_email = ''a@x.org'', r_name = None\<rparr>, \<lparr>r_email = ''a@x.org'', r_name = None\<rparr>] in
   \<exists>w'. process_recipients (sample_env (\<lambda>_ _ _. Ok ())) sample_ctx sample_event (to_all []) rs [] no_copies consumer_config_default sample_world = Some w' \<and>
     length (w_mail w') = 1 \<and> log_inv (w_log w')"
proof -
  let ?r = "\<lparr>r_email = ''a@x.org'', r_name = None\<rparr>"
  let ?pr = "process_recipient (sample_env (\<lambda>_ _ _. Ok ())) sample_ctx sample_event (to_all []) ?r [] no_copies"
  let ?w1 = "snd (?pr sample_world)"
  let ?w2 = "snd (?pr ?w1)"
  have o: "fst (?pr sample_world) = OSent" "fst (?pr ?w1) = OSkipped" "length (w_mail ?w2) = 1" by code_simp+
  have t: "?pr sample_world = (OSent, ?w1)" "?pr ?w1 = (OSkipped, ?w2)" using o by (metis prod.collapse)+
  have run: "process_recipients (sample_env (\<lambda>_ _ _. Ok ())) sample_ctx sample_event (to_all []) [?r, ?r] [] no_copies consumer_config_default sample_world = Some ?w2"
    using one_turn [OF t(1)] one_turn [OF t(2)] by (simp add: recipient_turn_def)
  have "log_inv (w_log sample_world)" by (simp add: sample_world_def log_inv_empty)
  from individual_mode_at_most_once [OF run this] run o(3) show ?thesis by (auto simp: Let_def)
qed

text \<open>
  The back-off delays: the retry delay is the base doubled once per attempt (at most ten
  times) and clamped to thirty minutes; the product never wraps around, whatever the configured
  base; the provider's rate limit is waited out for 30 s doubled at most three times; and neither
  delay shrinks as its counter grows.
\<close>

lemma back_off_delays:
  "unat (retry_delay_ms base n) = min (unat base * 2 ^ min (unat n) 10) (30 * 60 * 1000) \<and>
   unat (rl_delay_ms n) = 30000 * 2 ^ min (unat n) 3 \<and>
   (m \<le> n \<longrightarrow> retry_delay_ms base m \<le> retry_delay_ms base n \<and> rl_delay_ms m \<le> rl_delay_ms n)"
proof -
  have "(2::nat) ^ min (unat n) 3 \<le> 2 ^ 3" by (rule power_increasing) auto
  then have "unat (rl_delay_ms n) = 30000 * 2 ^ min (unat n) 3"
    by (simp add: rl_delay_doubling capped_doubling_def)
  moreover have "retry_delay_ms base m \<le> retry_delay_ms base n \<and> rl_delay_ms m \<le> rl_delay_ms n" if "m \<le> n"
    using that doubling.monotone by (auto simp: word_le_nat_alt retry_delay_doubling rl_delay_doubling)
  ultimately show ?thesis by (simp add: retry_delay_doubling capped_doubling_def)
qed

section \<open>Which runs return\<close>

definition non_terminal_row :: "log_db \<Rightarrow> uuid \<Rightarrow> string \<Rightarrow> bool" where
  "non_terminal_row db ev rc \<longleftrightarrow>
     (\<exists>r st. find_row db ev rc = Some r \<and> status_try_from (n_status r) = Ok st \<and> st \<noteq> Sent \<and> st \<noteq> Blocked)"

text \<open>An environment whose database always answers and whose templates always render.\<close>

definition dependable :: "env \<Rightarrow> ProcessorContext \<Rightarrow> NotificationEvent \<Rightarrow> EmailOptions \<Rightarrow> bool" where
  "dependable env ctx event opts \<longleftrightarrow>
     (\<forall>t. env_fault env t = None) \<and> (\<forall>w. is_ok (fst (prepare env ctx event opts w)))"

lemma dependable_prepare:
  assumes "dependable env ctx event opts"
  obtains rendered w1 where "prepare env ctx event opts w = (Inr rendered, w1)" "w_log w1 = w_log w" "w_mail w1 = w_mail w"
proof -
  obtain x w1 where p: "prepare env ctx event opts w = (x, w1)" by fastforce
  have "is_ok (fst (prepare env ctx event opts w))" using assms by (simp add: dependable_def)
  with p obtain rendered where "x = Inr rendered" by (cases x) (auto simp: is_ok_def)
  with p prepare_effect [OF p] that show thesis by blast
qed

lemma process_recipient_stuck:
  assumes "dependable env ctx event opts" "is_valid_email (r_email r)"
    and "non_terminal_row (w_log w) (ne_event_id event) (r_email r)"
  obtains n w1 where "process_recipient env ctx event opts r atts cb w = (ODuplicate n, w1)" "w_log w1 = w_log w"
proof -
  obtain rendered w0 where p: "prepare env ctx event opts w = (Inr rendered, w0)" "w_log w0 = w_log w"
    using dependable_prepare [OF assms(1)] by blast
  obtain row st where row: "find_row (w_log w) (ne_event_id event) (r_email r) = Some row"
    "status_try_from (n_status row) = Ok st" "st \<noteq> Sent" "st \<noteq> Blocked"
    using assms(3) by (auto simp: non_terminal_row_def)
  have "env_fault env t = None" for t using assms(1) by (simp add: dependable_def)
  with row p have "db_op env (\<lambda>f n. insert_pending f n (individual_args event opts r cb)) w0 =
      (Inr (Duplicate (n_retry_count row) (n_status row)), (tick w0)\<lparr>w_log := w_log w0\<rparr>)"
    by (simp add: db_op_def insert_pending_def insert_stmts_def)
  with row p assms(2) that show thesis by (simp add: process_recipient_def)
qed

lemma turn_duplicate: "recipient_turn env cfg eid p rc a rl (ODuplicate n) w = Inr (word_of_int n, rl, w)"
  by (simp add: recipient_turn_def)

lemma stuck_loop_never_returns:
  assumes "dependable env ctx event opts" "is_valid_email (r_email r)"
    and "non_terminal_row (w_log w) (ne_event_id event) (r_email r)"
  shows "recipient_loop env ctx event opts r atts cb cfg a rl w = None"
proof -
  have False if "recipient_loop env ctx event opts r atts cb cfg a rl w = Some w'" for w'
    using that assms(3)
  proof (induction rule: recipient_loop_induct)
    case (stop a rl w out w1 w')
    obtain n v where "process_recipient env ctx event opts r atts cb w = (ODuplicate n, v)"
      using process_recipient_stuck [OF assms(1,2) stop(3)] by blast
    with stop(1,2) show False by (auto simp: turn_duplicate)
  next
    case (turn a rl w out w1 a' rl' w2 w')
    obtain n v where "process_recipient env ctx event opts r atts cb w = (ODuplicate n, v)" "w_log v = w_log w"
      using process_recipient_stuck [OF assms(1,2) turn(4)] by blast
    with turn show False by (auto simp: turn_duplicate)
  qed
  then show ?thesis by (cases "recipient_loop env ctx event opts r atts cb cfg a rl w") auto
qed

lemma note_failed_non_terminal:
  assumes "log_inv (w_log w)" "non_terminal_row (w_log w) ev rc"
  shows "non_terminal_row (w_log (note_failed env ev (Some rc) m x w)) ev rc"
proof -
  let ?f = "env_fault env (w_tick w)" and ?n = "env_now env (w_tick w)"
  obtain row where row: "find_row (w_log w) ev rc = Some row" using assms(2) by (auto simp: non_terminal_row_def)
  have kp: "key_preserving (failed_update ?n m x)" by simp
  have st: "status_try_from (if x then ''FAILED'' else ''PENDING'') = Ok (if x then Failed else Pending)"
    by (simp add: status_try_from_Ok)
  show ?thesis
  proof (cases "snd (mark_failed ?f ?n ev rc m x (w_log w)) = w_log w")
    case True
    with assms show ?thesis by (simp add: w_log_db_op)
  next
    case False
    then have "snd (mark_failed ?f ?n ev rc m x (w_log w)) = update_where (row_key ev rc) (failed_update ?n m x) (w_log w)"
      by (auto simp: mark_failed_def update_key_def split: option.splits)
    with st find_row_updated [OF kp row, of ev rc] show ?thesis
      by (auto simp: w_log_db_op non_terminal_row_def failed_update_def)
  qed
qed

lemma back_off_non_terminal:
  assumes "log_inv (w_log w)" "non_terminal_row (w_log w) ev rc" "\<forall>t. \<not> env_sleep_cancelled env t"
  shows "\<exists>w'. back_off env ev (Some rc) m m' d a rl w = Inr (a, rl, w') \<and> non_terminal_row (w_log w') ev rc"
  using assms note_failed_non_terminal [OF assms(1,2), of env m False]
  by (simp add: back_off_def Let_def del: note_failed.simps)

lemma failed_after_written:
  assumes "db_op env (\<lambda>f n. insert_pending f n (individual_args event opts r cb)) w2 = (Ok Inserted, w3)"
    and "(case blocked_reason env ctx (r_email r) w3 of
          (Some reason, w) \<Rightarrow>
            (OBlocked reason, snd (db_op env (\<lambda>f n. mark_blocked f n (ne_event_id event) (r_email r) reason) w))
        | (None, w) \<Rightarrow> execute_send env ctx msg acct (TargetIndividual (ne_event_id event) (r_email r)) w) = (OFailed e, w1)"
  shows "non_terminal_row (w_log w1) (ne_event_id event) (r_email r)"
proof -
  obtain m w4 where b: "blocked_reason env ctx (r_email r) w3 = (m, w4)" by fastforce
  with assms(2) have m: "m = None" by (cases m) auto
  have "w_log w1 = w_log w4"
    using assms(2) b m execute_send_effect [of env ctx _ acct "TargetIndividual (ne_event_id event) (r_email r)" w4 "OFailed e" w1]
    by auto
  moreover have "w_log w4 = w_log w3" using blocked_reason_effect [OF b] by simp
  moreover have "find_row (w_log w3) (ne_event_id event) (r_email r) = Some (new_row (env_now env (w_tick w2)) (individual_args event opts r cb) (next_id (w_log w2)))"
    using insert_pending_results [OF conjunct2 [OF db_op_eq [OF assms(1)]]] by simp
  moreover have "status_try_from ''PENDING'' = Ok Pending" by (simp add: status_try_from_Ok)
  ultimately show ?thesis by (simp add: non_terminal_row_def new_row_def)
qed


lemma first_failure_backs_off:
  assumes "is_retryable e" "0 < cf_max_retries cfg" "\<And>m. e = RateLimited m \<Longrightarrow> 0 < cf_max_rl_waits cfg"
    and "\<And>m m' d a rl. Q (back_off env ev rc m m' d a rl w)"
  shows "Q (on_failed env cfg ev Retry rc 0 0 e w)"
proof -
  have "\<And>m. e = RateLimited m \<Longrightarrow> cf_max_rl_waits cfg \<noteq> 0" "cf_max_retries cfg \<noteq> 0" using assms(2,3) by auto
  then show ?thesis using assms(1,4) by (cases e) (simp_all add: on_failed_def Let_def)
qed



text \<open>
  Only a duplicate makes a turn go round without progress: every other turn stops, or uses up one
  attempt, or one of the consecutive rate-limit waits.
\<close>

lemma unat_plus_one_less: "a < b \<Longrightarrow> unat (a + 1) = Suc (unat a)" for a b :: u32
proof -
  assume "a < b"
  then have "Suc (unat a) < 2 ^ 32" using unsigned_less [of b, where ?'a = nat] by (simp add: word_less_nat_alt)
  then show ?thesis by (simp add: unat_word_ariths)
qed

lemma turn_progress:
  assumes "recipient_turn env cfg eid p rc a rl out w = Inr (a', rl', w')" "\<forall>n. out \<noteq> ODuplicate n"
    and "rl \<le> cf_max_rl_waits cfg" "cf_max_rl_waits cfg < - 1"
  shows "rl' \<le> cf_max_rl_waits cfg \<and>
    ((unat (cf_max_retries cfg) - unat a', unat (cf_max_rl_waits cfg) - unat rl'),
     (unat (cf_max_retries cfg) - unat a, unat (cf_max_rl_waits cfg) - unat rl)) \<in> less_than <*lex*> less_than"
proof -
  obtain e where out: "out = OFailed e" using assms(1,2) by (cases out) (auto simp: recipient_turn_def)
  have on: "on_failed env cfg eid p (Some rc) a rl e w = Inr (a', rl', w')" using assms(1) out by (simp add: recipient_turn_def)
  have bo: "x = a' \<and> y = rl'" if "back_off env eid (Some rc) m m' d x y w = Inr (a', rl', w')" for m m' d x y
    using that by (auto simp: back_off_def Let_def simp del: note_failed.simps split: if_splits)
  have lt: "a < cf_max_retries cfg" using on by (auto simp: on_failed_def not_le split: if_splits)
  consider m where "e = RateLimited m" | "\<forall>m. e \<noteq> RateLimited m" by blast
  then show ?thesis
  proof cases
    case 1
    with on have n: "a' = a" "rl' = rl + 1" "rl + 1 \<le> cf_max_rl_waits cfg"
      by (auto simp: on_failed_def Let_def not_less split: if_splits dest: bo)
    have "rl < - 1" using assms(3,4) by simp
    then have "unat (rl + 1) = Suc (unat rl)" by (rule unat_plus_one_less)
    with n show ?thesis by (auto simp: word_le_nat_alt)
  next
    case 2
    with on have n: "a' = a + 1" "rl' = 0"
      by (cases e; auto simp: on_failed_def Let_def simp del: note_failed.simps app_error_to_string.simps split: if_splits dest: bo)+
    have "unat (a + 1) = Suc (unat a)" using lt by (rule unat_plus_one_less)
    with n lt show ?thesis by (auto simp: word_less_nat_alt)
  qed
qed

text \<open>
  When the log cannot be reached, so that no call of the processor meets a row of its own, every retry brings the loop
  closer to the attempt limit or the wait limit, and it returns.
\<close>

lemma loop_returns_without_duplicates:
  assumes "\<forall>w n w1. process_recipient env ctx event opts r atts cb w \<noteq> (ODuplicate n, w1)"
    and "cf_max_rl_waits cfg < - 1"
  shows "\<exists>w'. process_one_recipient env ctx event opts r atts cb cfg w = Some w'"
proof -
  let ?m = "\<lambda>(a :: u32, rl :: u32, w :: world). (unat (cf_max_retries cfg) - unat a, unat (cf_max_rl_waits cfg) - unat rl)"
  have wf: "wf (inv_image (less_than <*lex*> less_than) ?m)" by (intro wf_inv_image wf_lex_prod wf_less_than)
  have "rl \<le> cf_max_rl_waits cfg \<longrightarrow> (\<exists>w'. recipient_loop env ctx event opts r atts cb cfg a rl w = Some w')" (is "?Q (a, rl, w)") for a rl w
  proof (induction "(a, rl, w)" arbitrary: a rl w rule: wf_induct_rule [OF wf])
    case (1 a rl w)
    obtain out w1 where pr: "process_recipient env ctx event opts r atts cb w = (out, w1)" by fastforce
    let ?turn = "recipient_turn env cfg (ne_event_id event) (eo_retry_policy opts) (r_email r) a rl out w1"
    show ?case
    proof (cases ?turn)
      case (Inl w2)
      then show ?thesis by (subst recipient_loop.simps) (simp add: pr)
    next
      case (Inr x)
      then obtain a' rl' w2 where t: "?turn = Inr (a', rl', w2)" by (cases x) auto
      have "\<forall>n. out \<noteq> ODuplicate n" using assms(1) pr by blast
      then have "rl \<le> cf_max_rl_waits cfg \<longrightarrow> (\<exists>w'. recipient_loop env ctx event opts r atts cb cfg a' rl' w2 = Some w')"
        using turn_progress [OF t _ _ assms(2)] 1 by fastforce
      then show ?thesis by (subst recipient_loop.simps) (simp add: pr t)
    qed
  qed
  then show ?thesis by (simp add: process_one_recipient_def)
qed


lemma duplicate_row:
  assumes "process_recipient env ctx event opts r atts cb w = (ODuplicate n, w1)"
  shows "non_terminal_row (w_log w) (ne_event_id event) (r_email r)"
proof -
  obtain x w0 where p: "prepare env ctx event opts w = (x, w0)" by fastforce
  obtain y w2 where op: "db_op env (\<lambda>f n. insert_pending f n (individual_args event opts r cb)) w0 = (y, w2)" by fastforce
  have b: "blocked_reason env ctx (r_email r) w2 = (m, w3) \<Longrightarrow> m = None \<Longrightarrow>
      execute_send env ctx msg acct (TargetIndividual i a) w3 \<noteq> (ODuplicate n, w1)" for m w3 msg acct i a
    by (auto simp: execute_send_def acquire_rate_limit_token_def Let_def split: TokenResult.splits sum.splits)
  from assms p op b obtain st c where "y = Inr (Duplicate c st)"
    and st: "\<exists>s. status_try_from st = Ok s \<and> s \<noteq> Sent \<and> s \<noteq> Blocked"
    by (fastforce simp: process_recipient_def split: if_splits sum.splits InsertResult.splits prod.splits option.splits)
  with insert_pending_results [OF conjunct2 [OF db_op_eq [OF op]]] prepare_effect [OF p] show ?thesis
    by (auto simp: non_terminal_row_def)
qed

text \<open>The outcomes of a first call after which the loop goes round.\<close>

fun goes_round :: "ConsumerConfig \<Rightarrow> RetryPolicy \<Rightarrow> RecipientOutcome \<Rightarrow> bool" where
  "goes_round cfg policy (ODuplicate n) = True"
| "goes_round cfg policy (OFailed e) \<longleftrightarrow>
     is_retryable e \<and> policy = Retry \<and> 0 < cf_max_retries cfg \<and> (\<forall>m. e = RateLimited m \<longrightarrow> 0 < cf_max_rl_waits cfg)"
| "goes_round cfg policy _ = False"

lemma policy_cases: "p = Retry \<or> p = NoRetry"
  by (cases p) simp_all

lemma first_turn_stops:
  assumes "\<not> goes_round cfg policy out"
  shows "\<exists>w2. recipient_turn env cfg eid policy rc 0 0 out w = Inl w2"
proof (cases out)
  case (OFailed e)
  with assms consider "\<not> is_retryable e" | "policy = NoRetry" | "cf_max_retries cfg = 0" | m where "e = RateLimited m" "cf_max_rl_waits cfg = 0"
    using policy_cases [of policy] by (auto simp: word_gt_0)
  then show ?thesis
    by cases (use OFailed in \<open>auto simp: recipient_turn_def on_failed_def simp del: note_failed.simps\<close>)
qed (use assms in \<open>auto simp: recipient_turn_def simp del: note_failed.simps\<close>)

text \<open>With a working database a retryable failure comes after the row was written.\<close>

lemma dependable_failure:
  assumes "dependable env ctx event opts" "process_recipient env ctx event opts r atts cb w = (OFailed e, w1)" "is_retryable e"
  shows "is_valid_email (r_email r) \<and> non_terminal_row (w_log w1) (ne_event_id event) (r_email r)"
proof -
  let ?args = "individual_args event opts r cb"
  have v: "is_valid_email (r_email r)" using assms(2,3) by (auto simp: process_recipient_def permanent_mailer_def split: if_splits)
  obtain rendered w0 where p: "prepare env ctx event opts w = (Inr rendered, w0)" "w_log w0 = w_log w"
    using dependable_prepare [OF assms(1)] by blast
  obtain y w2 where op: "db_op env (\<lambda>f n. insert_pending f n ?args) w0 = (y, w2)" by fastforce
  have chk: "email_row_check (new_email_row ?args i)" for i
    by (cases "eo_send_mode opts") (simp_all add: email_row_check_def new_email_row_def individual_args_def Let_def)
  have "env_fault env t = None" for t using assms(1) by (simp add: dependable_def)
  then consider "y = Inr Inserted" | c st where "y = Inr (Duplicate c st)"
    using op chk by (auto simp: db_op_def insert_pending_def insert_stmts_def Let_def split: option.splits)
  then show ?thesis
  proof cases
    case 1
    from assms(2) v p(1) op 1 failed_after_written [OF op [unfolded 1], of ctx] show ?thesis by (simp add: process_recipient_def)
  next
    case 2
    with assms(2,3) v p(1) op show ?thesis
      by (auto simp: process_recipient_def status_try_from_def split: if_splits sum.splits)
  qed
qed

text \<open>
  C25. Exactly when a delivery to a recipient ends: take a working service, whose database answers, whose templates render and which is not
  shut down, and look at the processor's first call for a recipient, whatever the log holds. The recipient's loop returns, right after this call, exactly if the call did not answer duplicate and did not fail
  with a retryable error while the policy, the attempt limit and (for a provider's rate limit) the wait limit leave a
  retry; in these cases it never returns, because every further call meets the recipient's own row.
  So the retry budget is never used up: each of its retries ends in a loop without an end.
\<close>

theorem recipient_loop_returns_iff:
  assumes "dependable env ctx event opts" "\<forall>t. \<not> env_sleep_cancelled env t" "log_inv (w_log w)"
    and "process_recipient env ctx event opts r atts cb w = (out, w1)"
  shows "if goes_round cfg (eo_retry_policy opts) out
    then process_one_recipient env ctx event opts r atts cb cfg w = None
    else \<exists>w2. recipient_turn env cfg (ne_event_id event) (eo_retry_policy opts) (r_email r) 0 0 out w1 = Inl w2 \<and>
      process_one_recipient env ctx event opts r atts cb cfg w = Some w2"
proof (cases "goes_round cfg (eo_retry_policy opts) out")
  case False
  with first_turn_stops [OF False] one_turn [OF assms(4)] show ?thesis by fastforce
next
  case True
  then consider n where "out = ODuplicate n" | e where "out = OFailed e" by (cases out) auto
  then have "process_one_recipient env ctx event opts r atts cb cfg w = None"
  proof cases
    case 1
    have "is_valid_email (r_email r)" using assms(4) 1 by (auto simp: process_recipient_def split: if_splits)
    with stuck_loop_never_returns [OF assms(1)] duplicate_row [OF assms(4) [unfolded 1]] show ?thesis
      by (simp add: process_one_recipient_def)
  next
    case 2
    with True have pol: "eo_retry_policy opts = Retry" and e: "is_retryable e" by auto
    note nt = dependable_failure [OF assms(1) assms(4) [unfolded 2] e]
    have inv: "log_inv (w_log w1)"
      using process_recipient_step [OF assms(4)] assms(3) by (auto simp: world_step_def dest: log_steps_inv)
    let ?turn = "on_failed env cfg (ne_event_id event) Retry (Some (r_email r)) 0 0 e w1"
    have "\<exists>a' rl' w2. ?turn = Inr (a', rl', w2) \<and> non_terminal_row (w_log w2) (ne_event_id event) (r_email r)"
      by (rule first_failure_backs_off [OF e]) (use True 2 in simp, use True 2 in simp, use back_off_non_terminal [OF inv _ assms(2)] nt in metis)
    then obtain a' rl' w2 where t: "?turn = Inr (a', rl', w2)" "non_terminal_row (w_log w2) (ne_event_id event) (r_email r)" by blast
    from nt t(2) stuck_loop_never_returns [OF assms(1)] show ?thesis
      unfolding process_one_recipient_def by (subst recipient_loop.simps) (simp add: assms(4) 2 pol recipient_turn_def t(1))
  qed
  with True show ?thesis by simp
qed

theorem recipient_loop_returns_iff_witness:
  "let run = (\<lambda>reply. process_one_recipient (sample_env (\<lambda>_ _ _. reply)) sample_ctx sample_event (to_all [])
       \<lparr>r_email = ''a@x.org'', r_name = None\<rparr> [] no_copies consumer_config_default sample_world)
   in (\<exists>w'. run (Ok ()) = Some w' \<and> length (w_mail w') = 1) \<and> (\<exists>w'. run (Err (permanent_mailer ''550 no'')) = Some w') \<and>
      run (Err (transient_mailer ''421 try again'')) = None"
proof -
  let ?r = "\<lparr>r_email = ''a@x.org'', r_name = None\<rparr>"
  let ?env = "\<lambda>reply. sample_env (\<lambda>_ _ _. reply)"
  let ?pr = "\<lambda>reply. process_recipient (?env reply) sample_ctx sample_event (to_all []) ?r [] no_copies sample_world"
  have d: "dependable (?env reply) sample_ctx sample_event (to_all [])" "\<forall>t. \<not> env_sleep_cancelled (?env reply) t" for reply
    by (simp_all add: dependable_def prepare_def sample_env_def to_all_def resolve_from_override_def sample_ctx_def echo_jinja_def
        render_all_templates_def render_template_def render_html_template_def render_with_env_def)
  have w: "log_inv (w_log sample_world)" by (simp add: sample_world_def log_inv_empty)
  have o: "fst (?pr (Ok ())) = OSent" "length (w_mail (snd (?pr (Ok ())))) = 1"
    "fst (?pr (Err (permanent_mailer ''550 no''))) = OFailed (permanent_mailer ''550 no'')"
    "fst (?pr (Err (transient_mailer ''421 try again''))) = OFailed (transient_mailer ''421 try again'')" by code_simp+
  note iff = recipient_loop_returns_iff [OF d w prod.collapse [symmetric], where r = ?r and atts = "[]" and cb = no_copies and cfg = consumer_config_default]
  have 1: "process_one_recipient (?env (Ok ())) sample_ctx sample_event (to_all []) ?r [] no_copies consumer_config_default sample_world = Some (snd (?pr (Ok ())))"
    using iff [of "Ok ()"] o(1) by (simp add: recipient_turn_def)
  have 2: "\<exists>w'. process_one_recipient (?env (Err (permanent_mailer ''550 no''))) sample_ctx sample_event (to_all []) ?r [] no_copies consumer_config_default sample_world = Some w'"
    using iff [of "Err (permanent_mailer ''550 no'')"] o(3) by (auto simp: permanent_mailer_def)
  have 3: "process_one_recipient (?env (Err (transient_mailer ''421 try again''))) sample_ctx sample_event (to_all []) ?r [] no_copies consumer_config_default sample_world = None"
    using iff [of "Err (transient_mailer ''421 try again'')"] o(4) by (simp add: transient_mailer_def to_all_def consumer_config_default_def)
  from 1 2 3 o(2) show ?thesis by (simp add: Let_def)
qed

text \<open>
  An event that asks for no retry ends, whatever goes wrong: with the no-retry policy, or with no retries
  configured, a recipient without a row, or with one that is already sent or blocked, is settled after
  one call of the processor.
\<close>

theorem no_retry_returns:
  assumes "eo_retry_policy opts = NoRetry \<or> cf_max_retries cfg = 0"
    and "\<not> non_terminal_row (w_log w) (ne_event_id event) (r_email r)"
  shows "\<exists>w'. process_one_recipient env ctx event opts r atts cb cfg w = Some w'"
proof -
  obtain out w1 where pr: "process_recipient env ctx event opts r atts cb w = (out, w1)" by fastforce
  have "out \<noteq> ODuplicate n" for n using duplicate_row pr assms(2) by blast
  then have "\<exists>w2. recipient_turn env cfg (ne_event_id event) (eo_retry_policy opts) (r_email r) 0 0 out w1 = Inl w2"
    using assms(1) by (cases out) (auto simp: recipient_turn_def on_failed_def)
  then obtain w2 where "recipient_turn env cfg (ne_event_id event) (eo_retry_policy opts) (r_email r) 0 0 out w1 = Inl w2" by blast
  from one_turn [OF pr this] show ?thesis by blast
qed

theorem no_retry_returns_witness:
  "\<exists>w'. process_one_recipient (sample_env (\<lambda>_ _ _. Err (transient_mailer ''421 try again''))) sample_ctx sample_event
     ((to_all [])\<lparr>eo_retry_policy := NoRetry\<rparr>) \<lparr>r_email = ''a@x.org'', r_name = None\<rparr> [] no_copies consumer_config_default sample_world = Some w'"
  by (rule no_retry_returns)
    (simp_all add: non_terminal_row_def sample_world_def find_row_def empty_db_def)

text \<open>
  A recipient with a malformed address leaves no trace: the run returns, nothing is mailed, and the log is as
  before, so no row shows that the notification was requested.
\<close>

lemma invalid_recipient_unrecorded:
  assumes "\<not> is_valid_email (r_email r)" "log_inv (w_log w)"
    and "find_row (w_log w) (ne_event_id event) (r_email r) = None"
  shows "\<exists>w'. process_one_recipient env ctx event opts r atts cb cfg w = Some w' \<and> w_log w' = w_log w \<and> w_mail w' = w_mail w"
proof -
  let ?e = "permanent_mailer (''invalid recipient email address: '' @ r_email r)"
  let ?w2 = "note_failed env (ne_event_id event) (Some (r_email r)) (app_error_to_string ?e) True w"
  have pr: "process_recipient env ctx event opts r atts cb w = (OFailed ?e, w)"
    using assms(1) by (simp add: process_recipient_def)
  have "\<not> is_retryable ?e" by (simp add: permanent_mailer_def)
  then have "recipient_turn env cfg (ne_event_id event) (eo_retry_policy opts) (r_email r) 0 0 (OFailed ?e) w = Inl ?w2"
    by (simp add: recipient_turn_def on_failed_def)
  from one_turn [OF pr this] note_failed_absent [OF assms(2,3)] note_failed_step [of "ne_event_id event" "r_email r" w]
  show ?thesis by blast
qed

section \<open>Groups\<close>

text \<open>Induction over the turns of a returning group loop.\<close>

lemma group_loop_not_stuck:
  assumes "group_loop env ctx event opts atts cb cfg a rl w = Some w'"
    and dup: "\<And>w. stuck w \<Longrightarrow> \<exists>n w1. process_group env ctx event opts atts cb (cf_max_recipients_per_event cfg) w = (ODuplicate n, w1) \<and> stuck w1"
  shows "\<not> stuck w"
proof -
  let ?Q = "\<lambda>env' ctx' event' opts' atts' cb' cfg' a rl w w'.
    env' = env \<and> ctx' = ctx \<and> event' = event \<and> opts' = opts \<and> atts' = atts \<and> cb' = cb \<and> cfg' = cfg \<longrightarrow> \<not> stuck w"
  have "?Q env ctx event opts atts cb cfg a rl w w'"
  proof (rule group_loop.raw_induct [of ?Q, OF _ assms(1)], intro impI notI, elim conjE, goal_cases)
    case (1 loop env' ctx' event' opts' atts' cb' cfg' a rl w w')
    then show ?case using dup [of w] by (auto split: prod.splits)
  qed
  then show ?thesis by simp
qed

lemma process_group_stuck:
  assumes "dependable env ctx event opts" "eo_recipients opts = primary # rest" "length (eo_recipients opts) \<le> maxr"
    and "\<forall>r \<in> set (eo_recipients opts). is_valid_email (r_email r)" "eo_group_retry_mode opts = RetryWhole"
    and "non_terminal_row (w_log w) (ne_event_id event) (r_email primary)"
  shows "\<exists>n w1. process_group env ctx event opts atts cb maxr w = (ODuplicate n, w1) \<and> w_log w1 = w_log w"
proof -
  obtain rendered w0 where p: "prepare env ctx event opts w = (Inr rendered, w0)" "w_log w0 = w_log w"
    using dependable_prepare [OF assms(1)] by blast
  obtain row st where row: "find_row (w_log w) (ne_event_id event) (r_email primary) = Some row"
    "status_try_from (n_status row) = Ok st" "st \<noteq> Sent" "st \<noteq> Blocked"
    using assms(6) by (auto simp: non_terminal_row_def)
  have f: "env_fault env t = None" for t using assms(1) by (simp add: dependable_def)
  have "find (\<lambda>r. \<not> is_valid_email (r_email r)) (eo_recipients opts) = None" using assms(4) by (simp add: find_None_iff)
  with row p f assms(2,3,5) show ?thesis
    by (simp add: process_group_def db_op_def insert_pending_batch_def insert_stmts_def)
qed

text \<open>
  C26. A group message that was interrupted is never finished: when an event in group mode with
  whole-group retries is delivered again and the row of its first recipient is pending or failed (a send
  error, or a crash before the acknowledgement), the group loop does not return, so the event is neither sent nor
  acknowledged while the database and the templates keep working.
\<close>

theorem interrupted_group_never_returns:
  assumes "dependable env ctx event opts" "eo_recipients opts = primary # rest"
    and "length (eo_recipients opts) \<le> cf_max_recipients_per_event cfg"
    and "\<forall>r \<in> set (eo_recipients opts). is_valid_email (r_email r)" "eo_group_retry_mode opts = RetryWhole"
    and "non_terminal_row (w_log w) (ne_event_id event) (r_email primary)"
  shows "process_one_group env ctx event opts atts cb cfg w = None"
proof -
  have "\<not> non_terminal_row (w_log w) (ne_event_id event) (r_email primary)"
    if "group_loop env ctx event opts atts cb cfg 0 0 w = Some w'" for w'
    using process_group_stuck [OF assms(1-5)]
    by (intro group_loop_not_stuck [OF that, where stuck = "\<lambda>w. non_terminal_row (w_log w) (ne_event_id event) (r_email primary)"]) metis
  with assms(6) show ?thesis by (cases "group_loop env ctx event opts atts cb cfg 0 0 w") (auto simp: process_one_group_def)
qed

theorem interrupted_group_never_returns_witness:
  "let env = sample_env (\<lambda>_ _ _. Ok ()); opts = to_all [''a@x.org'', ''c@x.org''];
       db = snd (insert_pending None 0 (group_args sample_event opts no_copies (hd (eo_recipients opts))) empty_db)
   in process_one_group env sample_ctx sample_event opts [] no_copies consumer_config_default (sample_world\<lparr>w_log := db\<rparr>) = None"
proof -
  let ?env = "sample_env (\<lambda>_ _ _. Ok ())" and ?o = "to_all [''a@x.org'', ''c@x.org'']"
  let ?p = "hd (eo_recipients ?o)"
  let ?db = "snd (insert_pending None 0 (group_args sample_event ?o no_copies ?p) empty_db)"
  have rs: "eo_recipients ?o = ?p # tl (eo_recipients ?o)" by (simp add: to_all_def)
  have n: "length (eo_recipients ?o) \<le> cf_max_recipients_per_event consumer_config_default"
    by (simp add: to_all_def consumer_config_default_def)
  have "list_all (\<lambda>r. is_valid_email (r_email r)) (eo_recipients ?o)" by code_simp
  then have v: "\<forall>r \<in> set (eo_recipients ?o). is_valid_email (r_email r)" by (simp add: list_all_iff)
  have "map_option n_status (find_row ?db (ne_event_id sample_event) (r_email ?p)) = Some ''PENDING''" by code_simp
  moreover have "status_try_from ''PENDING'' = Ok Pending" by (simp add: status_try_from_Ok)
  ultimately have nt: "non_terminal_row (w_log (sample_world\<lparr>w_log := ?db\<rparr>)) (ne_event_id sample_event) (r_email ?p)"
    by (auto simp: non_terminal_row_def)
  have d: "dependable ?env sample_ctx sample_event ?o"
    by (simp add: dependable_def prepare_def sample_env_def to_all_def resolve_from_override_def sample_ctx_def echo_jinja_def
        render_all_templates_def render_template_def render_html_template_def render_with_env_def)
  have "eo_group_retry_mode ?o = RetryWhole" by (simp add: to_all_def)
  from interrupted_group_never_returns [OF d rs n v this nt] show ?thesis by (simp add: Let_def)
qed

section \<open>Copies\<close>

text \<open>An address that is valid, passes the configuration filter and is not refused by the block list at a moment.\<close>

definition permitted :: "env \<Rightarrow> ProcessorContext \<Rightarrow> nat \<Rightarrow> string \<Rightarrow> bool" where
  "permitted env ctx t addr \<longleftrightarrow>
     is_valid_email addr \<and> is_ok (filter_check (ctx_lower ctx) (ctx_filter ctx) addr) \<and>
     (\<forall>reason. env_block_check env t addr \<noteq> Err (BlockedError reason))"

lemma cc_bcc_allowed_effect:
  assumes "cc_bcc_allowed env ctx r w = (keep, w')"
  shows "w_log w' = w_log w \<and> w_mail w' = w_mail w \<and> keep = permitted env ctx (w_tick w) (r_email r)"
  using assms filter_policy.verdict_cases [of "ctx_lower ctx" "ctx_filter ctx" "r_email r"]
  by (auto simp: cc_bcc_allowed_def permitted_def split: if_splits sum.splits AppError.splits)

text \<open>
  Copies go to permitted addresses only: the CC (or BCC) list that a message gets is the event's
  list in its order with addresses left out; each address kept was permitted (valid, allowed by the configuration filter, not
  refused by the run-time block list) when it was checked; an address that is permitted throughout is kept; and
  checking the list writes nothing and mails nothing.
\<close>

lemma filter_copies_sound:
  assumes "filter_copies env ctx rs w = (kept, w')"
  shows "subseq kept rs \<and> w_log w' = w_log w \<and> w_mail w' = w_mail w \<and>
    (\<forall>r \<in> set kept. \<exists>t. permitted env ctx t (r_email r)) \<and>
    (\<forall>r \<in> set rs. (\<forall>t. permitted env ctx t (r_email r)) \<longrightarrow> r \<in> set kept)"
  using assms
proof (induction rs arbitrary: w w' kept)
  case (Cons r rs)
  obtain keep w1 where k: "cc_bcc_allowed env ctx r w = (keep, w1)" by fastforce
  obtain kept1 w2 where rest: "filter_copies env ctx rs w1 = (kept1, w2)" by fastforce
  have eq: "kept = (if keep then r # kept1 else kept1)" "w' = w2" using Cons.prems k rest by auto
  from cc_bcc_allowed_effect [OF k] Cons.IH [OF rest] eq show ?case by auto
qed simp

section \<open>Settling a delivery\<close>

text \<open>The event of a delivery that is neither rejected nor deferred.\<close>

definition due :: "delivery_env \<Rightarrow> ConsumerConfig \<Rightarrow> string \<Rightarrow> NotificationEvent \<Rightarrow> EmailOptions \<Rightarrow> bool" where
  "due dv cfg data event opts \<longleftrightarrow>
     decode_event dv data = Some event \<and> co_email (ne_channel_overrides event) = Some opts \<and> eo_recipients opts \<noteq> [] \<and>
     length (eo_recipients opts) \<le> cf_max_recipients_per_event cfg \<and>
     (\<forall>t. eo_send_at opts = Some t \<longrightarrow> t \<le> dv_utc_now dv)"

definition deferred :: "delivery_env \<Rightarrow> ConsumerConfig \<Rightarrow> string \<Rightarrow> EmailOptions \<Rightarrow> datetime \<Rightarrow> bool" where
  "deferred dv cfg data opts send_at \<longleftrightarrow>
     (\<exists>event. decode_event dv data = Some event \<and> co_email (ne_channel_overrides event) = Some opts \<and> eo_recipients opts \<noteq> [] \<and>
       length (eo_recipients opts) \<le> cf_max_recipients_per_event cfg \<and> eo_send_at opts = Some send_at \<and> send_at > dv_utc_now dv)"

definition attachments_of ::
  "delivery_env \<Rightarrow> ConsumerConfig \<Rightarrow> NotificationEvent \<Rightarrow> EmailOptions \<Rightarrow> AppError + ResolvedAttachment list" where
  "attachments_of dv cfg event opts =
     (if eo_attachments opts = [] then Ok []
      else fetch_attachments_with_limit (dv_status_text dv) (eo_attachments opts) (ne_timestamp event)
             (cf_max_attachment_bytes cfg) (dv_fetch_now dv) (dv_fetch_cancelled dv) (dv_fetch_envs dv))"

lemma handle_delivery_due:
  "due dv cfg data event opts \<Longrightarrow> handle_delivery env dv ctx cfg data w = dispatch env dv ctx cfg event opts w"
  by (auto simp: due_def handle_delivery_def split: option.splits)

lemma handle_delivery_deferred:
  "deferred dv cfg data opts t \<Longrightarrow> handle_delivery env dv ctx cfg data w = Some (defer_delivery dv cfg data t w)"
  by (auto simp: deferred_def handle_delivery_def)

lemma dispatch_failed_fetch:
  "attachments_of dv cfg event opts = Inl e \<Longrightarrow>
   dispatch env dv ctx cfg event opts w = Some (finish (Nacked (\<not> is_permanent_mailer e)) w)"
  by (simp add: dispatch_def attachments_of_def split: if_splits)

lemma dispatch_fetched:
  "attachments_of dv cfg event opts = Inr atts \<Longrightarrow> dispatch env dv ctx cfg event opts w = Some res \<Longrightarrow> dr_settlement res = Acked"
  by (auto simp: dispatch_def attachments_of_def finish_def Let_def split: if_splits prod.splits)

lemma handle_delivery_cases:
  assumes "handle_delivery env dv ctx cfg data w = Some res"
  obtains (undecodable) "decode_event dv data = None" "res = finish (Nacked False) w"
  | (refused) event w1 where "decode_event dv data = Some event" "res = finish Acked w1"
      "\<nexists>opts. due dv cfg data event opts" "\<nexists>opts t. deferred dv cfg data opts t"
  | (deferral) opts t where "deferred dv cfg data opts t" "res = defer_delivery dv cfg data t w"
  | (due) event opts where "due dv cfg data event opts" "dispatch env dv ctx cfg event opts w = Some res"
proof (cases "decode_event dv data")
  case None
  with assms undecodable show thesis by (simp add: handle_delivery_def)
next
  case (Some event)
  show thesis
  proof (cases "(\<exists>opts. due dv cfg data event opts) \<or> (\<exists>opts t. deferred dv cfg data opts t)")
    case True
    with assms show thesis using deferral due handle_delivery_due handle_delivery_deferred by fastforce
  next
    case False
    then have "\<exists>w1. res = finish Acked w1"
      using assms Some unfolding due_def deferred_def handle_delivery_def
      by (fastforce split: option.splits if_splits simp: not_less)
    with False Some refused show thesis by blast
  qed
qed

lemma due_unique: "due dv cfg data e o1 \<Longrightarrow> due dv cfg data e' o2 \<Longrightarrow> e' = e \<and> o2 = o1"
  by (auto simp: due_def)

lemma due_not_deferred: "due dv cfg data e o1 \<Longrightarrow> \<not> deferred dv cfg data o2 t"
  by (auto simp: due_def deferred_def)

lemma deferred_unique: "deferred dv cfg data o1 t1 \<Longrightarrow> deferred dv cfg data o2 t2 \<Longrightarrow> t2 = t1"
  by (auto simp: deferred_def)

text \<open>
  C7. The acknowledgement decision: a delivery is rejected for good (to the dead-letter queue) exactly
  when its bytes decode as neither envelope or an attachment of a due event failed permanently; it is
  requeued exactly when a deferred copy was not confirmed or an attachment failed transiently; in both cases nothing was
  written and nothing mailed, so redelivery starts from the same state; every other delivery that
  ends is acknowledged.
\<close>

theorem settlement_decision:
  assumes "handle_delivery env dv ctx cfg data w = Some res"
  shows "(dr_settlement res = Nacked False \<longleftrightarrow> decode_event dv data = None \<or>
       (\<exists>event opts e. due dv cfg data event opts \<and> attachments_of dv cfg event opts = Err e \<and> is_permanent_mailer e)) \<and>
    (dr_settlement res = Nacked True \<longleftrightarrow>
       (\<exists>opts t msg. deferred dv cfg data opts t \<and> dr_delayed res = Some msg \<and> dv_publish dv msg \<noteq> Confirmed ConfirmAck) \<or>
       (\<exists>event opts e. due dv cfg data event opts \<and> attachments_of dv cfg event opts = Err e \<and> \<not> is_permanent_mailer e)) \<and>
    (dr_settlement res \<noteq> Acked \<longrightarrow> dr_world res = w)"
  using assms
proof (cases rule: handle_delivery_cases)
  case undecodable
  then show ?thesis by (auto simp: finish_def due_def deferred_def)
next
  case (refused event w1)
  then show ?thesis by (auto simp: finish_def due_def)
next
  case (deferral opts t)
  have "decode_event dv data \<noteq> None" using deferral(1) by (auto simp: deferred_def)
  moreover have "\<not> due dv cfg data e opts'" for e opts' using due_not_deferred deferral(1) by blast
  ultimately show ?thesis using deferral by (auto simp: defer_delivery_def Let_def)
next
  case (due event opts)
  have nd: "\<And>opts' t. \<not> deferred dv cfg data opts' t" using due_not_deferred [OF due(1)] by blast
  have u: "(\<exists>event opts e. due dv cfg data event opts \<and> attachments_of dv cfg event opts = Err e \<and> P e) \<longleftrightarrow>
      (\<exists>e. attachments_of dv cfg event opts = Err e \<and> P e)" for P
    using due(1) due_unique by metis
  have d: "decode_event dv data \<noteq> None" using due(1) by (simp add: due_def)
  show ?thesis
  proof (cases "attachments_of dv cfg event opts")
    case (Inl e)
    with dispatch_failed_fetch [OF Inl] due(2) have "res = finish (Nacked (\<not> is_permanent_mailer e)) w" by simp
    with Inl d nd show ?thesis unfolding u by (auto simp: finish_def)
  next
    case (Inr atts)
    with dispatch_fetched [OF Inr due(2)] d nd show ?thesis unfolding u by auto
  qed
qed

text \<open>A JSON reader that knows one text, for concrete deliveries.\<close>

definition sample_dv :: "json \<Rightarrow> (delayed_publish \<Rightarrow> publish_reply) \<Rightarrow> delivery_env" where
  "sample_dv j publish = \<lparr>dv_parse = (\<lambda>s. if s = ''event'' then Some j else None), dv_formats = sample_formats, dv_utc_now = 1000,
     dv_publish = publish, dv_status_text = nat_to_string, dv_fetch_now = (\<lambda>_. 0), dv_fetch_cancelled = (\<lambda>_. False),
     dv_fetch_envs = (\<lambda>_. sample_fetch_env)\<rparr>"

theorem settlement_decision_witness:
  "\<exists>res. handle_delivery (sample_env (\<lambda>_ _ _. Ok ())) (sample_dv JNull (\<lambda>_. Confirmed ConfirmAck)) sample_ctx consumer_config_default ''garbage'' sample_world = Some res \<and>
     dr_settlement res = Nacked False \<and> dr_world res = sample_world"
proof -
  let ?dv = "sample_dv JNull (\<lambda>_. Confirmed ConfirmAck)"
  let ?w = sample_world
  have d: "decode_event ?dv ''garbage'' = None" by (simp add: decode_event_def sample_dv_def)
  then have run: "handle_delivery (sample_env (\<lambda>_ _ _. Ok ())) ?dv sample_ctx consumer_config_default ''garbage'' ?w = Some (finish (Nacked False) ?w)"
    by (simp add: handle_delivery_def)
  from settlement_decision [OF run] run d show ?thesis by (auto simp: finish_def)
qed

text \<open>
  A deferred event is delivered twice unless the broker confirms the copy: whenever the delayed copy of an event was handed to
  the broker and the reply is anything but a positive confirmation (in particular the reply of a channel on which
  confirmations were never requested), the original goes back to the queue as well; the copy carries
  the same bytes and a time to live of at least one millisecond.
\<close>

lemma unconfirmed_deferral_duplicates:
  assumes "deferred dv cfg data opts send_at" "\<forall>msg. dv_publish dv msg = Confirmed ConfirmNotRequested"
    and "num_milliseconds (send_at - dv_utc_now dv) < 2 ^ 64"
  shows "\<exists>res msg. handle_delivery env dv ctx cfg data w = Some res \<and> dr_settlement res = Nacked True \<and>
    dr_delayed res = Some msg \<and> dp_data msg = data \<and> dp_exchange msg = cf_exchange cfg @ ''.delayed'' \<and>
    uint (dp_ttl_ms msg) = max (num_milliseconds (send_at - dv_utc_now dv)) 1 \<and> dr_world res = w"
  using handle_delivery_deferred [OF assms(1)] assms(2,3)
  by (auto simp: defer_delivery_def Let_def uint_word_of_int_eq take_bit_eq_mod max_def)

text \<open>The sample event with a send time, as JSON.\<close>

section \<open>Legacy publishers\<close>

lemma mark_skipped_rows:
  "find_row (snd (mark_skipped fault now ev ty rc reason ts pl db)) ev' rc' =
     (if fault = None \<and> ev' = ev \<and> rc' = rc \<and> find_row db ev rc = None
      then Some (skipped_row now ev ty rc reason ts pl (next_id db)) else find_row db ev' rc')"
  by (auto simp: mark_skipped_def find_row_def find_append row_key_skipped_row split: option.splits)

text \<open>
  C35. Legacy publishers are never served: a delivery whose body is an object that decodes as the legacy flat envelope, recipients and all, and that has
  no \<^verbatim>\<open>channel_overrides\<close> key is acknowledged without a mail, in every environment. The decoder tries the new envelope first, whose extra fields all have defaults and which
  ignores unknown keys, so it takes the body for an event without email options and the promotion of the legacy envelope is not reached; the
  log gets one skipped row under the event's own key if it had none (and the database answers), and no row of any recipient is written or changed.
\<close>

theorem legacy_delivery_skipped:
  assumes "dv_parse dv data = Some (JObj kvs)" "dec_email_event (dv_formats dv) (JObj kvs) = Ok legacy"
    and "''channel_overrides'' \<notin> fst ` set kvs"
  shows "\<exists>w'. handle_delivery env dv ctx cfg data w = Some (finish Acked w') \<and> w_mail w' = w_mail w \<and>
    (let ev = ee_event_id legacy; key = ''event:'' @ ev in
      (\<forall>ev' rc. (ev', rc) \<noteq> (ev, key) \<longrightarrow> find_row (w_log w') ev' rc = find_row (w_log w) ev' rc) \<and>
      (env_fault env (w_tick w) = None \<and> find_row (w_log w) ev key = None \<longrightarrow>
         (\<exists>row. find_row (w_log w') ev key = Some row \<and> n_status row = ''SKIPPED'')))"
proof -
  obtain e where e: "dec_event (dv_formats dv) (JObj kvs) = Ok e" "ne_event_id e = ee_event_id legacy" "co_email (ne_channel_overrides e) = None"
    using legacy_envelope_shadowed [OF assms(2,3)] by blast
  let ?why = "''no email channel_overrides in event '' @ em_dash @ '' publisher must re-publish with corrected data''"
  let ?w = "skip_event env e ?why w"
  have "handle_delivery env dv ctx cfg data w = Some (finish Acked ?w)"
    using e assms(1) by (simp add: handle_delivery_def decode_event_def)
  moreover have "w_mail ?w = w_mail w" by (simp add: skip_event_def db_op_def split: prod.split)
  ultimately show ?thesis
    using e(2) by (intro exI [of _ ?w]) (auto simp: skip_event_def w_log_db_op mark_skipped_rows skipped_row_def Let_def)
qed

theorem legacy_delivery_skipped_witness:
  "\<exists>legacy w' row. dec_email_event sample_formats (JObj legacy_json) = Ok legacy \<and> map r_email (ee_recipients legacy) = [''a@x.org''] \<and>
     handle_delivery (sample_env (\<lambda>_ _ _. Ok ())) (sample_dv (JObj legacy_json) (\<lambda>_. Confirmed ConfirmAck)) sample_ctx consumer_config_default ''event'' sample_world
       = Some (finish Acked w') \<and>
     w_mail w' = [] \<and> find_row (w_log w') ''e1'' ''event:e1'' = Some row \<and> n_status row = ''SKIPPED'' \<and> find_row (w_log w') ''e1'' ''a@x.org'' = None"
proof -
  let ?dv = "sample_dv (JObj legacy_json) (\<lambda>_. Confirmed ConfirmAck)"
  obtain legacy where l: "dec_email_event sample_formats (JObj legacy_json) = Ok legacy" "map r_email (ee_recipients legacy) = [''a@x.org'']" "ee_event_id legacy = ''e1''"
    by (simp add: dec_email_event_def email_event_fields_def legacy_json_def map_slot_def dec_uuid_def dec_datetime_def
        sample_formats_def dec_recipient_def)
  have p: "dv_parse ?dv ''event'' = Some (JObj legacy_json)" "dec_email_event (dv_formats ?dv) (JObj legacy_json) = Ok legacy"
    "''channel_overrides'' \<notin> fst ` set legacy_json"
    using l(1) by (simp_all add: sample_dv_def legacy_json_def)
  have w: "w_mail sample_world = []" "find_row (w_log sample_world) ev rc = None" "env_fault (sample_env (\<lambda>_ _ _. Ok ())) t = None" for ev rc t
    by (simp_all add: sample_world_def find_row_def empty_db_def sample_env_def)
  from legacy_delivery_skipped [OF p, of "sample_env (\<lambda>_ _ _. Ok ())" sample_ctx consumer_config_default sample_world] obtain w' where
    w': "handle_delivery (sample_env (\<lambda>_ _ _. Ok ())) ?dv sample_ctx consumer_config_default ''event'' sample_world = Some (finish Acked w')"
      "w_mail w' = []" "\<forall>ev' rc. (ev', rc) \<noteq> (''e1'', ''event:'' @ ''e1'') \<longrightarrow> find_row (w_log w') ev' rc = None"
      "\<exists>row. find_row (w_log w') ''e1'' (''event:'' @ ''e1'') = Some row \<and> n_status row = ''SKIPPED''"
    unfolding Let_def l(3) w by blast
  from w'(3) have "find_row (w_log w') ''e1'' ''a@x.org'' = None" by simp
  moreover from w'(4) obtain row where "find_row (w_log w') ''e1'' ''event:e1'' = Some row" "n_status row = ''SKIPPED''" by auto
  ultimately show ?thesis using w'(1,2) l(1,2) by (intro exI [of _ legacy] exI [of _ w'] exI [of _ row] conjI)
qed

end
