(* ===== verification/Step_Machines.thy ===== *)
theory Step_Machines
  imports Main "HOL-Library.Multiset"
begin

text \<open>
  Two facts about transition systems that the tasks of the consumer rest on. A loop of the code and a machine that
  takes its steps one by one are the same program when the machine makes one turn of the loop whenever the loop
  does (\<open>turn_machine\<close>). And when a permission to act on a key is only handed out by a step that marks the key
  for ever, nobody acts twice on a key, however the steps interleave (\<open>minting\<close>).
\<close>

section \<open>Runs of a step function\<close>

definition reaches :: "('c \<Rightarrow> 'c) \<Rightarrow> 'c \<Rightarrow> 'c \<Rightarrow> bool" where
  "reaches step c d \<longleftrightarrow> (\<exists>n. (step ^^ n) c = d)"

lemma reaches_refl [simp]: "reaches step c c"
  unfolding reaches_def by (rule exI [of _ 0]) simp

lemma reaches_step: "reaches step (step c) d \<Longrightarrow> reaches step c d"
  unfolding reaches_def by (metis funpow_Suc_right comp_apply)

lemma reaches_one: "step c = d \<Longrightarrow> reaches step c d"
  by (rule reaches_step) simp

lemma reaches_via: "step c = d \<Longrightarrow> reaches step d e \<Longrightarrow> reaches step c e"
  by (rule reaches_step) simp

lemma reaches_trans: "reaches step c d \<Longrightarrow> reaches step d e \<Longrightarrow> reaches step c e"
  unfolding reaches_def by (metis funpow_add comp_apply)

lemma run_stays: "step d = d \<Longrightarrow> (step ^^ n) d = d"
  by (induction n) simp_all

lemma run_past:
  assumes "step d = d" "(step ^^ n) c = d" "(step ^^ k) c = e"
  shows "(step ^^ (n - k)) e = d"
proof -
  show ?thesis
  proof (cases "k \<le> n")
    case True
    then have "(step ^^ n) c = (step ^^ (n - k)) ((step ^^ k) c)" by (metis le_add_diff_inverse2 funpow_add comp_apply)
    with assms show ?thesis by simp
  next
    case False
    then have "(step ^^ k) c = (step ^^ (k - n)) ((step ^^ n) c)"
      by (metis nat_le_linear le_add_diff_inverse2 funpow_add comp_apply)
    with assms run_stays [of step d, OF assms(1)] False show ?thesis by simp
  qed
qed

lemma final_states_agree:
  assumes "step d = d" "step e = e" "(step ^^ n) c = d" "(step ^^ k) c = e"
  shows "d = e"
  using run_past [of step d, OF assms(1,3,4)] run_stays [of step e, OF assms(2)] by simp

section \<open>A loop and its machine\<close>

locale turn_machine =
  fixes step :: "'c \<Rightarrow> 'c" and at_turn :: "'x \<Rightarrow> 'c" and stopped :: "'y \<Rightarrow> 'c"
    and turn :: "'x \<Rightarrow> 'y + 'x" and after :: "'y \<Rightarrow> 'r option" and loop :: "'x \<Rightarrow> 'r option"
  assumes stays_stopped: "step (stopped y) = stopped y"
    and stopped_inj: "stopped y = stopped z \<Longrightarrow> y = z"
    and not_stopped: "at_turn x \<noteq> stopped y"
    and makes_turn: "reaches step (step (at_turn x)) (case turn x of Inl y \<Rightarrow> stopped y | Inr x' \<Rightarrow> at_turn x')"
    and loop_turn: "loop x = (case turn x of Inl y \<Rightarrow> after y | Inr x' \<Rightarrow> loop x')"
    and loop_ends: "loop x = Some r \<Longrightarrow> (\<And>x y. turn x = Inl y \<Longrightarrow> after y = Some r \<Longrightarrow> P x) \<Longrightarrow>
      (\<And>x x'. turn x = Inr x' \<Longrightarrow> P x' \<Longrightarrow> P x) \<Longrightarrow> P x"
begin

lemma loop_reaches:
  assumes "loop x = Some r"
  shows "\<exists>y. reaches step (at_turn x) (stopped y) \<and> after y = Some r"
  using assms
proof (rule loop_ends)
  fix x y
  assume "turn x = Inl y" "after y = Some r"
  with makes_turn [of x] show "\<exists>y. reaches step (at_turn x) (stopped y) \<and> after y = Some r" by (auto intro: reaches_step)
next
  fix x x'
  assume "turn x = Inr x'" "\<exists>y. reaches step (at_turn x') (stopped y) \<and> after y = Some r"
  with makes_turn [of x] show "\<exists>y. reaches step (at_turn x) (stopped y) \<and> after y = Some r"
    by (auto dest: reaches_trans intro: reaches_step)
qed

lemma run_is_loop: "(step ^^ n) (at_turn x) = stopped y \<Longrightarrow> loop x = after y"
proof (induction n arbitrary: x rule: less_induct)
  case (less n)
  obtain m where n: "n = Suc m" using less.prems not_stopped by (cases n) auto
  with less.prems have m: "(step ^^ m) (step (at_turn x)) = stopped y" by (simp add: funpow_swap1)
  show ?case
  proof (cases "turn x")
    case (Inl z)
    with makes_turn [of x] obtain k where "(step ^^ k) (step (at_turn x)) = stopped z" by (auto simp: reaches_def)
    from final_states_agree [of step, OF stays_stopped stays_stopped this m] Inl show ?thesis
      by (auto simp: loop_turn [of x] dest: stopped_inj)
  next
    case (Inr x')
    with makes_turn [of x] obtain k where "(step ^^ k) (step (at_turn x)) = at_turn x'" by (auto simp: reaches_def)
    from run_past [of step, OF stays_stopped m this] less.IH [of "m - k" x'] n Inr show ?thesis by (simp add: loop_turn [of x])
  qed
qed

lemma machine_is_loop: "loop x = Some r \<longleftrightarrow> (\<exists>y. reaches step (at_turn x) (stopped y) \<and> after y = Some r)"
  using loop_reaches run_is_loop by (fastforce simp: reaches_def)

end

section \<open>Permissions that are minted once\<close>

locale minting =
  fixes step :: "'s \<Rightarrow> 's \<Rightarrow> bool" and good :: "'s \<Rightarrow> bool"
    and tokens :: "'s \<Rightarrow> 'k multiset" and marked :: "'s \<Rightarrow> 'k \<Rightarrow> bool"
  assumes stays_good: "step s s' \<Longrightarrow> good s \<Longrightarrow> good s'"
    and marks_stay: "step s s' \<Longrightarrow> marked s k \<Longrightarrow> marked s' k"
    and minted: "step s s' \<Longrightarrow> good s \<Longrightarrow> tokens s' \<subseteq># tokens s \<or>
      (\<exists>k. \<not> marked s k \<and> marked s' k \<and> tokens s' \<subseteq># add_mset k (tokens s))"
begin

definition minted_once :: "'s \<Rightarrow> 's \<Rightarrow> bool" where
  "minted_once s0 s \<longleftrightarrow> good s \<and> (\<forall>k. marked s0 k \<longrightarrow> marked s k) \<and>
     (\<forall>k \<in># tokens s. count (tokens s) k = 1 \<and> marked s k \<and> \<not> marked s0 k)"

lemma minted_once_step:
  assumes "minted_once s0 s" "step s s'"
  shows "minted_once s0 s'"
proof -
  have stay: "marked s0 k \<Longrightarrow> marked s' k" "marked s k \<Longrightarrow> marked s' k" for k
    using assms marks_stay by (auto simp: minted_once_def)
  have good: "good s" "good s'" using assms stays_good by (auto simp: minted_once_def)
  have "count (tokens s') k = 1 \<and> marked s' k \<and> \<not> marked s0 k" if k: "k \<in># tokens s'" for k
    using minted [OF assms(2) good(1)]
  proof (elim disjE exE conjE)
    assume sub: "tokens s' \<subseteq># tokens s"
    have old: "k \<in># tokens s" using sub k by (rule mset_subset_eqD)
    with assms(1) have "count (tokens s) k = 1" by (simp add: minted_once_def)
    with mset_subset_eq_count [OF sub, of k] k have "count (tokens s') k = 1"
      by (simp add: le_Suc_eq not_in_iff [symmetric])
    with assms(1) stay old show ?thesis by (auto simp: minted_once_def)
  next
    fix n
    assume n: "\<not> marked s n" "marked s' n" "tokens s' \<subseteq># add_mset n (tokens s)"
    then have fresh: "n \<notin># tokens s" "\<not> marked s0 n" using assms(1) by (auto simp: minted_once_def)
    have "count (add_mset n (tokens s)) k = 1"
      using assms(1) fresh mset_subset_eqD [OF n(3) k] by (auto simp: minted_once_def not_in_iff)
    with mset_subset_eq_count [OF n(3), of k] k have "count (tokens s') k = 1"
      by (simp add: le_Suc_eq not_in_iff [symmetric])
    with assms(1) n fresh stay mset_subset_eqD [OF n(3) k] show ?thesis by (auto simp: minted_once_def)
  qed
  with stay good show ?thesis by (simp add: minted_once_def)
qed

lemma minted_once_run:
  assumes "step\<^sup>*\<^sup>* s0 s" "good s0" "tokens s0 = {#}"
  shows "minted_once s0 s"
  using assms(1)
proof (induction rule: rtranclp_induct)
  case base
  then show ?case using assms(2,3) by (simp add: minted_once_def)
next
  case (step s s')
  then show ?case using minted_once_step by blast
qed

end

lemma mset_count_distinct: "(\<And>x. x \<in> set xs \<Longrightarrow> count (mset xs) x \<le> 1) \<Longrightarrow> distinct xs"
  by (simp add: distinct_count_atmost_1 le_Suc_eq count_mset_0_iff)

end
