(* ===== verification/Delivery_Tasks.thy ===== *)
theory Delivery_Tasks
  imports Delivery_Props Step_Machines
begin

text \<open>
  The tasks of \<^verbatim>\<open>crates/consumer/src/delivery.rs\<close> and \<^verbatim>\<open>processor.rs\<close> one interaction at a time. A delivery in
  individual mode spawns a task per recipient, one in group mode drives the whole group; a task is a state machine
  here whose every step is one interaction with the database, the template store, the rate limiter, the mail server
  or the clock, so that the steps of several tasks can be interleaved. A task that runs alone computes what
  \<^verbatim>\<open>process_one_recipient\<close> and \<^verbatim>\<open>process_one_group\<close> compute.
\<close>

section \<open>The machine\<close>

text \<open>A task is for one recipient of the event, or for the whole group (\<open>None\<close>).\<close>

record delivery_job =
  job_ctx :: ProcessorContext
  job_cfg :: ConsumerConfig
  job_event :: NotificationEvent
  job_opts :: EmailOptions
  job_attachments :: "ResolvedAttachment list"
  job_cc_bcc :: EffectiveCcBcc
  job_recipient :: "Recipient option"

text \<open>
  Where a task stands. The first two numbers are the attempts and the rate-limit waits so far; a list of
  recipients is the To line, or what is left to do.
\<close>

datatype task_pc =
    Preparing u32 u32
  | Inserting u32 u32 RenderedTemplates
  | Checking u32 u32 RenderedTemplates
  | MarkingBlocked string
  | Partitioning u32 u32 RenderedTemplates "InsertResult list" "Recipient list" "Recipient list"
  | AwaitingToken u32 u32 RenderedTemplates "Recipient list"
  | Sending u32 u32 RenderedTemplates "Recipient list"
  | MarkingSent "string list"
  | NotingFailure string
  | NotingRetry string string u64 u32 u32
  | Sleeping string u64 u32 u32
  | LookingUp "Recipient list" "string list"
  | Spawning "Recipient list"
  | Finished

definition job_id :: "delivery_job \<Rightarrow> uuid" where
  "job_id job = ne_event_id (job_event job)"

definition job_primary :: "delivery_job \<Rightarrow> Recipient" where
  "job_primary job = (case job_recipient job of Some r \<Rightarrow> r | None \<Rightarrow> hd (eo_recipients (job_opts job)))"

definition job_address :: "delivery_job \<Rightarrow> string option" where
  "job_address job = (case job_recipient job of Some r \<Rightarrow> Some (r_email r) | None \<Rightarrow> primary_email (job_opts job))"

definition failure_pc :: "delivery_job \<Rightarrow> u32 \<Rightarrow> u32 \<Rightarrow> AppError \<Rightarrow> task_pc" where
  "failure_pc job attempt rl_count e =
     (let cfg = job_cfg job in
      if \<not> is_retryable e \<or> attempt \<ge> cf_max_retries cfg \<or> eo_retry_policy (job_opts job) = NoRetry
      then NotingFailure (app_error_to_string e)
      else case e of
             RateLimited msg \<Rightarrow>
               if rl_count + 1 > cf_max_rl_waits cfg then NotingFailure msg
               else NotingRetry msg ''service shutdown during rate-limit backoff'' (rl_delay_ms (rl_count + 1)) attempt (rl_count + 1)
           | _ \<Rightarrow>
               NotingRetry (app_error_to_string e) ''service shutdown during retry backoff''
                 (retry_delay_ms (cf_retry_base_ms cfg) (attempt + 1)) (attempt + 1) 0)"

definition outcome_pc :: "delivery_job \<Rightarrow> u32 \<Rightarrow> u32 \<Rightarrow> RecipientOutcome \<Rightarrow> task_pc" where
  "outcome_pc job attempt rl_count outcome =
     (case outcome of
        OSent \<Rightarrow> Finished
      | OBlocked _ \<Rightarrow> Finished
      | OSkipped \<Rightarrow> Finished
      | ODuplicate retry_count \<Rightarrow> Preparing (word_of_int retry_count) rl_count
      | OFailed e \<Rightarrow> failure_pc job attempt rl_count e
      | GroupFailedWithIndividualRows e \<Rightarrow>
          (case job_recipient job of
             Some _ \<Rightarrow> NotingFailure (app_error_to_string e)
           | None \<Rightarrow> LookingUp (eo_recipients (job_opts job)) []))"

text \<open>The checks before the first interaction.\<close>

definition job_check :: "delivery_job \<Rightarrow> AppError option" where
  "job_check job =
     (case job_recipient job of
        Some r \<Rightarrow>
          if is_valid_email (r_email r) then None
          else Some (permanent_mailer (''invalid recipient email address: '' @ r_email r))
      | None \<Rightarrow>
          let rs = eo_recipients (job_opts job); max_recipients = cf_max_recipients_per_event (job_cfg job) in
          if rs = [] then Some (permanent_mailer ''group send: recipients list is empty'')
          else if length rs > max_recipients
          then Some (permanent_mailer (''group send: recipient count '' @ nat_to_string (length rs)
                 @ '' exceeds maximum allowed ('' @ nat_to_string max_recipients @ '')''))
          else case find (\<lambda>r. \<not> is_valid_email (r_email r)) rs of
                 Some r \<Rightarrow> Some (permanent_mailer (''invalid recipient email address: '' @ r_email r))
               | None \<Rightarrow> None)"

definition group_rows :: "delivery_job \<Rightarrow> EmailInsertPendingArgs list" where
  "group_rows job =
     (let args = group_args (job_event job) (job_opts job) (job_cc_bcc job) in
      if eo_group_retry_mode (job_opts job) = RetryIndividual then map args (eo_recipients (job_opts job))
      else [args (job_primary job)])"

fun insert_pc :: "delivery_job \<Rightarrow> u32 \<Rightarrow> u32 \<Rightarrow> task_pc \<Rightarrow> InsertResult \<Rightarrow> task_pc" where
  "insert_pc job a rl proceed (Duplicate retry_count status) =
     (case status_try_from status of
        Inl e \<Rightarrow> outcome_pc job a rl (OFailed e)
      | Inr st \<Rightarrow> outcome_pc job a rl (if st = Sent \<or> st = Blocked then OSkipped else ODuplicate retry_count))"
| "insert_pc job a rl proceed Inserted = proceed"

fun batch_pc :: "delivery_job \<Rightarrow> u32 \<Rightarrow> u32 \<Rightarrow> RenderedTemplates \<Rightarrow> InsertResult list \<Rightarrow> task_pc" where
  "batch_pc job a rl rendered [] = outcome_pc job a rl (OFailed (permanent_mailer ''insert_pending_batch returned empty results''))"
| "batch_pc job a rl rendered (first # secondary) =
     insert_pc job a rl (Partitioning a rl rendered secondary (eo_recipients (job_opts job)) []) first"

definition job_message :: "delivery_job \<Rightarrow> RenderedTemplates \<Rightarrow> Recipient list \<Rightarrow> EmailMessage" where
  "job_message job rendered to =
     build_email_message (job_event job) (job_primary job) (map mailbox_of (drop 1 to)) rendered
       (resolve_from_override (eo_from_override (job_opts job))) (job_attachments job)
       (ec_cc (job_cc_bcc job)) (ec_bcc (job_cc_bcc job))"

definition job_target :: "delivery_job \<Rightarrow> Recipient list \<Rightarrow> SendTargets" where
  "job_target job to =
     (case job_recipient job of
        Some r \<Rightarrow> TargetIndividual (job_id job) (r_email r)
      | None \<Rightarrow>
          TargetGroup (job_id job) (r_email (job_primary job))
            (if eo_group_retry_mode (job_opts job) = RetryIndividual then map r_email (drop 1 to) else [])
            (eo_group_retry_mode (job_opts job)) (length to))"

fun target_addresses :: "SendTargets \<Rightarrow> string list" where
  "target_addresses (TargetIndividual _ email) = [email]"
| "target_addresses (TargetGroup _ primary secondaries _ _) = primary # secondaries"

fun task_step :: "env \<Rightarrow> delivery_job \<Rightarrow> task_pc \<times> world \<Rightarrow> task_pc \<times> world" where
  "task_step env job (Preparing a rl, w) =
     (case job_check job of
        Some e \<Rightarrow> (outcome_pc job a rl (OFailed e), w)
      | None \<Rightarrow>
          (case prepare env (job_ctx job) (job_event job) (job_opts job) w of
             (Inl e, w) \<Rightarrow> (outcome_pc job a rl (OFailed e), w)
           | (Inr rendered, w) \<Rightarrow> (Inserting a rl rendered, w)))"
| "task_step env job (Inserting a rl rendered, w) =
     (case job_recipient job of
        Some r \<Rightarrow>
          (case db_op env (\<lambda>f n. insert_pending f n (individual_args (job_event job) (job_opts job) r (job_cc_bcc job))) w of
             (Inl e, w) \<Rightarrow> (outcome_pc job a rl (OFailed e), w)
           | (Inr res, w) \<Rightarrow> (insert_pc job a rl (Checking a rl rendered) res, w))
      | None \<Rightarrow>
          (case db_op env (\<lambda>f n. insert_pending_batch f n (group_rows job)) w of
             (Inl e, w) \<Rightarrow> (outcome_pc job a rl (OFailed e), w)
           | (Inr ress, w) \<Rightarrow> (batch_pc job a rl rendered ress, w)))"
| "task_step env job (Checking a rl rendered, w) =
     (case blocked_reason env (job_ctx job) (r_email (job_primary job)) w of
        (Some reason, w) \<Rightarrow> (MarkingBlocked reason, w)
      | (None, w) \<Rightarrow> (AwaitingToken a rl rendered [job_primary job], w))"
| "task_step env job (MarkingBlocked reason, w) =
     (Finished, snd (db_op env (\<lambda>f n. mark_blocked f n (job_id job) (r_email (job_primary job)) reason) w))"
| "task_step env job (Partitioning a rl rendered secondary [] allowed, w) =
     (if allowed = [] then (outcome_pc job a rl (OBlocked ''all TO recipients blocked by filter''), w)
      else (AwaitingToken a rl rendered
              (filter (\<lambda>r. r_email r \<notin> set (already_sent (job_opts job) secondary)) allowed), w))"
| "task_step env job (Partitioning a rl rendered secondary (r # rs) allowed, w) =
     (case filter_check (ctx_lower (job_ctx job)) (ctx_filter (job_ctx job)) (r_email r) of
        Inl (BlockedError reason) \<Rightarrow>
          (Partitioning a rl rendered secondary rs allowed,
           snd (db_op env (\<lambda>f n. mark_blocked f n (job_id job) (r_email r) reason) w))
      | _ \<Rightarrow> (Partitioning a rl rendered secondary rs (allowed @ [r]), w))"
| "task_step env job (AwaitingToken a rl rendered to, w) =
     (case acquire_rate_limit_token env (job_ctx job) w of
        (Inl outcome, w) \<Rightarrow> (outcome_pc job a rl outcome, w)
      | (Inr _, w) \<Rightarrow> (Sending a rl rendered to, w))"
| "task_step env job (Sending a rl rendered to, w) =
     (let sender = resolve_sender (job_ctx job) (eo_sender_account (job_opts job)); msg = job_message job rendered to
      in case env_send env (w_tick w) sender msg of
           Inr _ \<Rightarrow> (MarkingSent (target_addresses (job_target job to)), (tick w)\<lparr>w_mail := w_mail w @ [(sender, msg)]\<rparr>)
         | Inl e \<Rightarrow> (outcome_pc job a rl (send_failure (job_target job to) e), tick w))"
| "task_step env job (MarkingSent [], w) = (Finished, w)"
| "task_step env job (MarkingSent (m # ms), w) =
     (MarkingSent ms, snd (db_op env (\<lambda>f n. mark_sent f n (job_id job) m) w))"
| "task_step env job (NotingFailure msg, w) = (Finished, note_failed env (job_id job) (job_address job) msg True w)"
| "task_step env job (NotingRetry msg shutdown_msg delay a rl, w) =
     (Sleeping shutdown_msg delay a rl, note_failed env (job_id job) (job_address job) msg False w)"
| "task_step env job (Sleeping shutdown_msg delay a rl, w) =
     (if env_sleep_cancelled env (w_tick w) then NotingFailure shutdown_msg else Preparing a rl,
      (tick w)\<lparr>w_sleeps := w_sleeps w @ [delay]\<rparr>)"
| "task_step env job (LookingUp [] terminal, w) =
     (Spawning (filter (\<lambda>r. r_email r \<notin> set terminal) (eo_recipients (job_opts job))), w)"
| "task_step env job (LookingUp (r # rs) terminal, w) =
     (case db_read env (\<lambda>f. get_by_event_and_recipient f (job_id job) (r_email r)) w of
        (Inr log, w) \<Rightarrow>
          (LookingUp rs (if l_status log = Sent \<or> l_status log = Blocked then terminal @ [r_email r] else terminal), w)
      | (Inl _, w) \<Rightarrow> (LookingUp rs terminal, w))"
| "task_step env job (Spawning rs, w) = (Spawning rs, w)"
| "task_step env job (Finished, w) = (Finished, w)"

section \<open>Parts that both kinds of task share\<close>

lemma marking_reaches: "reaches (task_step env job) (MarkingSent ms, w) (Finished, mark_each_sent env (job_id job) ms w)"
proof (induction ms arbitrary: w)
  case Nil
  show ?case by (rule reaches_one) simp
next
  case (Cons m ms)
  from Cons.IH [of "snd (db_op env (\<lambda>f n. mark_sent f n (job_id job) m) w)"] show ?case by (intro reaches_step [of _ "(MarkingSent (m # ms), w)"]) simp
qed

lemma mark_targets: "mark_sent_for_targets env (job_target job to) w = mark_each_sent env (job_id job) (target_addresses (job_target job to)) w"
  by (cases "job_recipient job") (simp_all add: job_target_def)

lemma send_reaches:
  assumes "execute_send env (job_ctx job) (job_message job rendered to) (eo_sender_account (job_opts job)) (job_target job to) w = (out, w')"
  shows "reaches (task_step env job) (AwaitingToken a rl rendered to, w) (outcome_pc job a rl out, w')"
proof (cases "acquire_rate_limit_token env (job_ctx job) w")
  case (Pair r w1)
  show ?thesis
  proof (cases r)
    case (Inl o1)
    with Pair assms show ?thesis by (intro reaches_one) (simp add: execute_send_def)
  next
    case (Inr u)
    have "reaches (task_step env job) (Sending a rl rendered to, w1) (outcome_pc job a rl out, w')"
    proof (cases "env_send env (w_tick w1) (resolve_sender (job_ctx job) (eo_sender_account (job_opts job))) (job_message job rendered to)")
      case (Inl e)
      with assms Pair Inr show ?thesis by (intro reaches_one) (simp add: execute_send_def Let_def)
    next
      case sent: (Inr u')
      let ?w2 = "(tick w1)\<lparr>w_mail := w_mail w1 @ [(resolve_sender (job_ctx job) (eo_sender_account (job_opts job)), job_message job rendered to)]\<rparr>"
      have "task_step env job (Sending a rl rendered to, w1) = (MarkingSent (target_addresses (job_target job to)), ?w2)"
        using sent by (simp add: Let_def)
      moreover have "outcome_pc job a rl out = Finished" "w' = mark_each_sent env (job_id job) (target_addresses (job_target job to)) ?w2"
        using assms Pair Inr sent by (auto simp: execute_send_def Let_def outcome_pc_def mark_targets)
      ultimately show ?thesis using marking_reaches by (metis reaches_via)
    qed
    with Pair Inr show ?thesis by (intro reaches_step [of _ "(AwaitingToken a rl rendered to, w)"]) simp
  qed
qed

text \<open>A turn that has failed: note it, and stop or sleep.\<close>

lemma failure_reaches:
  "reaches (task_step env job) (failure_pc job a rl e, w)
     (case on_failed env (job_cfg job) (job_id job) (eo_retry_policy (job_opts job)) (job_address job) a rl e w of
        Inl w' \<Rightarrow> (Finished, w') | Inr (a', rl', w') \<Rightarrow> (Preparing a' rl', w'))"
proof -
  have final: "reaches (task_step env job) (NotingFailure m, w) (Finished, note_failed env (job_id job) (job_address job) m True w)" for m w
    by (rule reaches_one) simp
  have retry: "reaches (task_step env job) (NotingRetry m sm d a rl, w)
     (case back_off env (job_id job) (job_address job) m sm d a rl w of
        Inl w' \<Rightarrow> (Finished, w') | Inr (a', rl', w') \<Rightarrow> (Preparing a' rl', w'))" for m sm d a rl w
    by (rule reaches_step [of _ "(NotingRetry m sm d a rl, w)"], rule reaches_step)
      (auto simp: back_off_def Let_def simp del: note_failed.simps intro!: reaches_one)
  show ?thesis
    using final retry
    by (auto simp: failure_pc_def on_failed_def Let_def simp del: note_failed.simps split: AppError.split)
qed

section \<open>One recipient\<close>

definition for_recipient :: "delivery_job \<Rightarrow> Recipient \<Rightarrow> delivery_job" where
  "for_recipient job r = job\<lparr>job_recipient := Some r\<rparr>"

lemma for_recipient_simps [simp]:
  "job_recipient (for_recipient job r) = Some r" "job_ctx (for_recipient job r) = job_ctx job"
  "job_cfg (for_recipient job r) = job_cfg job" "job_event (for_recipient job r) = job_event job"
  "job_opts (for_recipient job r) = job_opts job" "job_attachments (for_recipient job r) = job_attachments job"
  "job_cc_bcc (for_recipient job r) = job_cc_bcc job" "job_primary (for_recipient job r) = r"
  "job_address (for_recipient job r) = Some (r_email r)" "job_id (for_recipient job r) = ne_event_id (job_event job)"
  by (simp_all add: for_recipient_def job_primary_def job_address_def job_id_def)

definition recipient_call :: "env \<Rightarrow> delivery_job \<Rightarrow> Recipient \<Rightarrow> world \<Rightarrow> RecipientOutcome \<times> world" where
  "recipient_call env job r = process_recipient env (job_ctx job) (job_event job) (job_opts job) r (job_attachments job) (job_cc_bcc job)"

lemma recipient_call_reaches:
  assumes "recipient_call env job r w = (out, w')"
  shows "reaches (task_step env (for_recipient job r)) (task_step env (for_recipient job r) (Preparing a rl, w))
    (outcome_pc (for_recipient job r) a rl out, w')"
proof (cases "is_valid_email (r_email r)")
  case False
  with assms show ?thesis by (auto simp: recipient_call_def process_recipient_def job_check_def)
next
  case valid: True
  let ?job = "for_recipient job r"
  obtain r1 w1 where p: "prepare env (job_ctx job) (job_event job) (job_opts job) w = (r1, w1)" by fastforce
  obtain r2 w2 where i: "db_op env (\<lambda>f n. insert_pending f n (individual_args (job_event job) (job_opts job) r (job_cc_bcc job))) w1 = (r2, w2)"
    by fastforce
  obtain m w3 where b: "blocked_reason env (job_ctx job) (r_email r) w2 = (m, w3)" by fastforce
  show ?thesis
  proof (cases "\<exists>rendered. r1 = Inr rendered \<and> r2 = Inr Inserted")
    case False
    with assms valid p i show ?thesis
      by (auto simp: recipient_call_def process_recipient_def job_check_def split: sum.splits InsertResult.splits if_splits intro!: reaches_one)
  next
    case True
    then obtain rendered where r: "r1 = Inr rendered" "r2 = Inr Inserted" by blast
    have "reaches (task_step env ?job) (Checking a rl rendered, w2) (outcome_pc ?job a rl out, w')"
    proof (cases m)
      case (Some reason)
      with assms valid p i b r show ?thesis
        by (intro reaches_step [of _ "(Checking a rl rendered, w2)"] reaches_one)
          (auto simp: recipient_call_def process_recipient_def outcome_pc_def)
    next
      case None
      with assms valid p i b r have "execute_send env (job_ctx ?job) (job_message ?job rendered [r]) (eo_sender_account (job_opts ?job)) (job_target ?job [r]) w3 = (out, w')"
        by (simp add: recipient_call_def process_recipient_def job_message_def job_target_def)
      from send_reaches [OF this] b None show ?thesis by (intro reaches_step [of _ "(Checking a rl rendered, w2)"]) simp
    qed
    with valid p i r show ?thesis by (simp add: job_check_def reaches_step)
  qed
qed

definition individual_turn :: "env \<Rightarrow> delivery_job \<Rightarrow> Recipient \<Rightarrow> u32 \<times> u32 \<times> world \<Rightarrow> world + u32 \<times> u32 \<times> world" where
  "individual_turn env job r = (\<lambda>(a, rl, w). case recipient_call env job r w of
     (out, w1) \<Rightarrow> recipient_turn env (job_cfg job) (ne_event_id (job_event job)) (eo_retry_policy (job_opts job)) (r_email r) a rl out w1)"

definition individual_loop :: "env \<Rightarrow> delivery_job \<Rightarrow> Recipient \<Rightarrow> u32 \<times> u32 \<times> world \<Rightarrow> world option" where
  "individual_loop env job r = (\<lambda>(a, rl, w). recipient_loop env (job_ctx job) (job_event job) (job_opts job) r
     (job_attachments job) (job_cc_bcc job) (job_cfg job) a rl w)"

definition at_start :: "u32 \<times> u32 \<times> world \<Rightarrow> task_pc \<times> world" where
  "at_start = (\<lambda>(a, rl, w). (Preparing a rl, w))"

lemma individual_turn_reaches:
  "reaches (task_step env (for_recipient job r)) (task_step env (for_recipient job r) (at_start x))
     (case individual_turn env job r x of Inl w' \<Rightarrow> (Finished, w') | Inr x' \<Rightarrow> at_start x')"
proof -
  obtain a rl w where x: "x = (a, rl, w)" by (cases x)
  obtain out w1 where c: "recipient_call env job r w = (out, w1)" by fastforce
  let ?job = "for_recipient job r"
  have "reaches (task_step env ?job) (outcome_pc ?job a rl out, w1)
     (case recipient_turn env (job_cfg job) (ne_event_id (job_event job)) (eo_retry_policy (job_opts job)) (r_email r) a rl out w1 of
        Inl w' \<Rightarrow> (Finished, w') | Inr (a', rl', w') \<Rightarrow> (Preparing a' rl', w'))"
    using failure_reaches [of env ?job a rl _ w1]
    by (cases out) (auto simp: recipient_turn_def outcome_pc_def simp del: note_failed.simps intro!: reaches_one)
  from reaches_trans [OF recipient_call_reaches [OF c] this] show ?thesis
    by (auto simp: x c individual_turn_def at_start_def split: sum.splits prod.splits)
qed

interpretation individual: turn_machine "task_step env (for_recipient job r)" at_start "\<lambda>w. (Finished, w)"
  "individual_turn env job r" Some "individual_loop env job r"
proof (unfold_locales, goal_cases)
  case (3 x y)
  show ?case by (cases x) (simp add: at_start_def)
next
  case (4 x)
  show ?case by (rule individual_turn_reaches)
next
  case (5 x)
  obtain a rl w where x: "x = (a, rl, w)" by (cases x)
  show ?case unfolding x individual_loop_def individual_turn_def recipient_call_def prod.case
    by (subst recipient_loop.simps) (auto split: prod.splits sum.splits)
next
  case (6 x r' P)
  obtain a rl w where x: "x = (a, rl, w)" by (cases x)
  from 6(1) have "recipient_loop env (job_ctx job) (job_event job) (job_opts job) r (job_attachments job) (job_cc_bcc job) (job_cfg job) a rl w = Some r'"
    by (simp add: x individual_loop_def)
  then have "P (a, rl, w)" using 6(2,3)
  proof (induction rule: recipient_loop_induct)
    case (stop a rl w out w1 w')
    show ?case by (rule stop(3) [of _ w']) (simp_all add: individual_turn_def recipient_call_def stop(1,2))
  next
    case (turn a rl w out w1 a' rl' w2 w')
    show ?case by (rule turn(5) [OF _ turn(3) [OF turn(4,5)]]) (simp add: individual_turn_def recipient_call_def turn(1,2))
  qed
  then show ?case by (simp add: x)
qed simp_all

section \<open>A group\<close>

definition for_group :: "delivery_job \<Rightarrow> delivery_job" where
  "for_group job = job\<lparr>job_recipient := None\<rparr>"

lemma for_group_simps [simp]:
  "job_recipient (for_group job) = None" "job_ctx (for_group job) = job_ctx job"
  "job_cfg (for_group job) = job_cfg job" "job_event (for_group job) = job_event job"
  "job_opts (for_group job) = job_opts job" "job_attachments (for_group job) = job_attachments job"
  "job_cc_bcc (for_group job) = job_cc_bcc job" "job_address (for_group job) = primary_email (job_opts job)"
  "job_primary (for_group job) = hd (eo_recipients (job_opts job))" "job_id (for_group job) = ne_event_id (job_event job)"
  by (simp_all add: for_group_def job_primary_def job_address_def job_id_def)

definition group_call :: "env \<Rightarrow> delivery_job \<Rightarrow> world \<Rightarrow> RecipientOutcome \<times> world" where
  "group_call env job = process_group env (job_ctx job) (job_event job) (job_opts job) (job_attachments job) (job_cc_bcc job)
     (cf_max_recipients_per_event (job_cfg job))"

lemma partitioning_reaches:
  assumes "partition_allowed env (job_ctx job) (job_id job) rs w = (allowed, w')"
  shows "reaches (task_step env job) (Partitioning a rl rendered secondary rs acc, w) (Partitioning a rl rendered secondary [] (acc @ allowed), w')"
  using assms
proof (induction rs arbitrary: acc allowed w)
  case Nil
  then show ?case by simp
next
  case (Cons r rs)
  show ?case
  proof (cases "\<exists>reason. filter_check (ctx_lower (job_ctx job)) (ctx_filter (job_ctx job)) (r_email r) = Inl (BlockedError reason)")
    case True
    then obtain reason where b: "filter_check (ctx_lower (job_ctx job)) (ctx_filter (job_ctx job)) (r_email r) = Inl (BlockedError reason)" ..
    with Cons show ?thesis by (intro reaches_step [of _ "(Partitioning a rl rendered secondary (r # rs) acc, w)"]) simp
  next
    case False
    obtain al where al: "partition_allowed env (job_ctx job) (job_id job) rs w = (al, w')" "allowed = r # al"
      using Cons.prems False
      by (cases "partition_allowed env (job_ctx job) (job_id job) rs w") (auto split: sum.splits AppError.splits)
    have "task_step env job (Partitioning a rl rendered secondary (r # rs) acc, w) = (Partitioning a rl rendered secondary rs (acc @ [r]), w)"
      using False by (auto split: sum.splits AppError.splits)
    from reaches_via [of "task_step env job", OF this Cons.IH [OF al(1)]] al(2) show ?thesis by simp
  qed
qed

lemma group_send_reaches:
  assumes "group_send env (job_ctx job) (job_event job) (job_opts job) (job_attachments job) (job_cc_bcc job) rendered
      (hd (eo_recipients (job_opts job))) secondary w = (out, w')"
  shows "reaches (task_step env (for_group job)) (Partitioning a rl rendered secondary (eo_recipients (job_opts job)) [], w)
    (outcome_pc (for_group job) a rl out, w')"
proof -
  let ?job = "for_group job"
  obtain allowed w1 where p: "partition_allowed env (job_ctx job) (ne_event_id (job_event job)) (eo_recipients (job_opts job)) w = (allowed, w1)" by fastforce
  then have "reaches (task_step env ?job) (Partitioning a rl rendered secondary (eo_recipients (job_opts job)) [], w)
      (Partitioning a rl rendered secondary [] allowed, w1)"
    using partitioning_reaches [of env ?job "eo_recipients (job_opts job)" w allowed w1 a rl rendered secondary "[]"] by simp
  moreover have "reaches (task_step env ?job) (Partitioning a rl rendered secondary [] allowed, w1) (outcome_pc ?job a rl out, w')"
  proof (cases allowed)
    case Nil
    with assms p show ?thesis by (intro reaches_one) (simp add: group_send_def)
  next
    case (Cons r rs)
    let ?to = "filter (\<lambda>r. r_email r \<notin> set (already_sent (job_opts job) secondary)) allowed"
    have "execute_send env (job_ctx ?job) (job_message ?job rendered ?to) (eo_sender_account (job_opts ?job)) (job_target ?job ?to) w1 = (out, w')"
      using assms p Cons by (simp add: group_send_def Let_def job_message_def job_target_def)
    from send_reaches [OF this] Cons show ?thesis
      by (intro reaches_step [of _ "(Partitioning a rl rendered secondary [] allowed, w1)"]) simp
  qed
  ultimately show ?thesis by (rule reaches_trans)
qed

lemma group_call_reaches:
  assumes "group_call env job w = (out, w')"
  shows "reaches (task_step env (for_group job)) (task_step env (for_group job) (Preparing a rl, w)) (outcome_pc (for_group job) a rl out, w')"
proof (cases "job_check (for_group job)")
  case (Some e)
  with assms show ?thesis
    by (auto simp: group_call_def process_group_def job_check_def Let_def split: list.splits if_splits option.splits)
next
  case None
  let ?job = "for_group job"
  obtain primary rest where rs: "eo_recipients (job_opts job) = primary # rest"
    using None by (cases "eo_recipients (job_opts job)") (auto simp: job_check_def)
  obtain r1 w1 where p: "prepare env (job_ctx job) (job_event job) (job_opts job) w = (r1, w1)" by fastforce
  obtain r2 w2 where i: "db_op env (\<lambda>f n. insert_pending_batch f n (group_rows ?job)) w1 = (r2, w2)" by fastforce
  have rows: "group_rows ?job = (if eo_group_retry_mode (job_opts job) = RetryIndividual
      then map (group_args (job_event job) (job_opts job) (job_cc_bcc job)) (eo_recipients (job_opts job))
      else [group_args (job_event job) (job_opts job) (job_cc_bcc job) primary])"
    using rs by (simp add: group_rows_def Let_def)
  have call: "(case prepare env (job_ctx job) (job_event job) (job_opts job) w of
      (Inl e, w) \<Rightarrow> (OFailed e, w)
    | (Inr rendered, w) \<Rightarrow> (case db_op env (\<lambda>f n. insert_pending_batch f n (group_rows ?job)) w of
          (Inl e, w) \<Rightarrow> (OFailed e, w)
        | (Inr [], w) \<Rightarrow> (OFailed (permanent_mailer ''insert_pending_batch returned empty results''), w)
        | (Inr (Duplicate retry_count status # _), w) \<Rightarrow>
            (case status_try_from status of
               Inl e \<Rightarrow> (OFailed e, w)
             | Inr st \<Rightarrow> if st = Sent \<or> st = Blocked then (OSkipped, w) else (ODuplicate retry_count, w))
        | (Inr (Inserted # secondary), w) \<Rightarrow>
            group_send env (job_ctx job) (job_event job) (job_opts job) (job_attachments job) (job_cc_bcc job) rendered primary secondary w)) = (out, w')"
    using assms None unfolding rows group_call_def process_group_def Let_def
    by (simp add: job_check_def rs split: if_splits option.splits)
  show ?thesis
  proof (cases "\<exists>rendered secondary. r1 = Inr rendered \<and> r2 = Inr (Inserted # secondary)")
    case False
    with call None p i show ?thesis
      by (auto split: sum.splits list.splits InsertResult.splits if_splits intro!: reaches_one)
  next
    case True
    then obtain rendered secondary where r: "r1 = Inr rendered" "r2 = Inr (Inserted # secondary)" by blast
    with call p i rs have "group_send env (job_ctx job) (job_event job) (job_opts job) (job_attachments job) (job_cc_bcc job) rendered
        (hd (eo_recipients (job_opts job))) secondary w2 = (out, w')" by simp
    from group_send_reaches [OF this] None p i r show ?thesis by (simp add: reaches_step)
  qed
qed

lemma lookup_reaches:
  assumes "already_terminal env (job_id job) rs w = (es, w')"
  shows "reaches (task_step env job) (LookingUp rs acc, w)
    (Spawning (filter (\<lambda>r. r_email r \<notin> set (acc @ es)) (eo_recipients (job_opts job))), w')"
  using assms
proof (induction rs arbitrary: acc es w)
  case Nil
  then show ?case by (intro reaches_one) simp
next
  case (Cons r rs)
  obtain res w1 where d: "db_read env (\<lambda>f. get_by_event_and_recipient f (job_id job) (r_email r)) w = (res, w1)" by fastforce
  obtain es' w2 where t: "already_terminal env (job_id job) rs w1 = (es', w2)" by fastforce
  let ?new = "case res of Inr log \<Rightarrow> if l_status log = Sent \<or> l_status log = Blocked then [r_email r] else [] | Inl _ \<Rightarrow> []"
  have "task_step env job (LookingUp (r # rs) acc, w) = (LookingUp rs (acc @ ?new), w1)"
    using d by (auto split: sum.splits)
  note step = this
  have e: "w2 = w'" "es = ?new @ es'" using Cons.prems d t by (auto split: sum.splits if_splits)
  from reaches_via [of "task_step env job", OF step Cons.IH [OF t [unfolded e(1)]]] show ?case by (simp only: e(2) append_assoc)
qed

definition group_turn :: "env \<Rightarrow> delivery_job \<Rightarrow> u32 \<times> u32 \<times> world \<Rightarrow> (Recipient list option \<times> world) + u32 \<times> u32 \<times> world" where
  "group_turn env job = (\<lambda>(a, rl, w). case group_call env job w of
     (out, w1) \<Rightarrow>
       (case out of
          OSent \<Rightarrow> Inl (None, w1)
        | OBlocked _ \<Rightarrow> Inl (None, w1)
        | OSkipped \<Rightarrow> Inl (None, w1)
        | ODuplicate retry_count \<Rightarrow> Inr (word_of_int retry_count, rl, w1)
        | GroupFailedWithIndividualRows _ \<Rightarrow>
            (case already_terminal env (ne_event_id (job_event job)) (eo_recipients (job_opts job)) w1 of
               (terminal, w2) \<Rightarrow> Inl (Some (filter (\<lambda>r. r_email r \<notin> set terminal) (eo_recipients (job_opts job))), w2))
        | OFailed e \<Rightarrow>
            (case on_failed env (job_cfg job) (ne_event_id (job_event job)) (eo_retry_policy (job_opts job)) (primary_email (job_opts job)) a rl e w1 of
               Inl w2 \<Rightarrow> Inl (None, w2)
             | Inr x \<Rightarrow> Inr x)))"

fun group_stop :: "Recipient list option \<times> world \<Rightarrow> task_pc \<times> world" where
  "group_stop (None, w) = (Finished, w)"
| "group_stop (Some rs, w) = (Spawning rs, w)"

fun group_after :: "env \<Rightarrow> delivery_job \<Rightarrow> Recipient list option \<times> world \<Rightarrow> world option" where
  "group_after env job (None, w) = Some w"
| "group_after env job (Some rs, w) =
     process_recipients env (job_ctx job) (job_event job) (job_opts job) rs (job_attachments job) (job_cc_bcc job) (job_cfg job) w"

definition whole_loop :: "env \<Rightarrow> delivery_job \<Rightarrow> u32 \<times> u32 \<times> world \<Rightarrow> world option" where
  "whole_loop env job = (\<lambda>(a, rl, w). group_loop env (job_ctx job) (job_event job) (job_opts job)
     (job_attachments job) (job_cc_bcc job) (job_cfg job) a rl w)"

lemma group_turn_reaches:
  "reaches (task_step env (for_group job)) (task_step env (for_group job) (at_start x))
     (case group_turn env job x of Inl y \<Rightarrow> group_stop y | Inr x' \<Rightarrow> at_start x')"
proof -
  obtain a rl w where x: "x = (a, rl, w)" by (cases x)
  obtain out w1 where c: "group_call env job w = (out, w1)" by fastforce
  let ?job = "for_group job"
  have "reaches (task_step env ?job) (outcome_pc ?job a rl out, w1) (case group_turn env job x of Inl y \<Rightarrow> group_stop y | Inr x' \<Rightarrow> at_start x')"
  proof (cases out)
    case (OFailed e)
    with failure_reaches [of env ?job a rl e w1] show ?thesis
      by (auto simp: x c group_turn_def outcome_pc_def at_start_def split: sum.splits)
  next
    case (GroupFailedWithIndividualRows e)
    obtain es w2 where t: "already_terminal env (job_id ?job) (eo_recipients (job_opts job)) w1 = (es, w2)" by fastforce
    with lookup_reaches [OF t, of "[]"] GroupFailedWithIndividualRows show ?thesis
      by (simp add: x c group_turn_def outcome_pc_def)
  qed (auto simp: x c group_turn_def outcome_pc_def at_start_def)
  with group_call_reaches [OF c] show ?thesis by (auto simp: x at_start_def intro: reaches_trans)
qed

text \<open>Induction over the turns of a returning group loop.\<close>

lemma whole_loop_turn:
  "whole_loop env job x = (case group_turn env job x of Inl y \<Rightarrow> group_after env job y | Inr x' \<Rightarrow> whole_loop env job x')"
proof -
  obtain a rl w where x: "x = (a, rl, w)" by (cases x)
  show ?thesis unfolding x whole_loop_def group_turn_def group_call_def prod.case
    by (subst group_loop.simps)
      (auto simp: fallback_to_individual_sends_def split: prod.splits sum.splits RecipientOutcome.splits)
qed

lemma whole_loop_induct:
  assumes "whole_loop env job x = Some r"
    and stop: "\<And>x y. group_turn env job x = Inl y \<Longrightarrow> group_after env job y = Some r \<Longrightarrow> P x"
    and turn: "\<And>x x'. group_turn env job x = Inr x' \<Longrightarrow> P x' \<Longrightarrow> P x"
  shows "P x"
proof -
  obtain a rl w where x: "x = (a, rl, w)" by (cases x)
  let ?Q = "\<lambda>env' ctx event opts atts cb cfg a rl w w'.
    env' = env \<and> ctx = job_ctx job \<and> event = job_event job \<and> opts = job_opts job \<and> atts = job_attachments job \<and>
    cb = job_cc_bcc job \<and> cfg = job_cfg job \<and> w' = r \<longrightarrow> P (a, rl, w)"
  have run: "group_loop env (job_ctx job) (job_event job) (job_opts job) (job_attachments job) (job_cc_bcc job) (job_cfg job) a rl w = Some r"
    using assms(1) by (simp add: x whole_loop_def)
  have "?Q env (job_ctx job) (job_event job) (job_opts job) (job_attachments job) (job_cc_bcc job) (job_cfg job) a rl w r"
  proof (rule group_loop.raw_induct [of ?Q, OF _ run], intro impI, elim conjE, goal_cases)
    case (1 loop env' ctx event opts atts cb cfg a rl w w')
    obtain out w1 where c: "group_call env job w = (out, w1)" by fastforce
    show ?case
    proof (cases "group_turn env job (a, rl, w)")
      case (Inl y)
      with 1(2-) c have "group_after env job y = Some r"
        by (auto simp: group_turn_def group_call_def fallback_to_individual_sends_def split: RecipientOutcome.splits sum.splits prod.splits)
      with Inl show ?thesis by (rule stop)
    next
      case (Inr x')
      obtain a' rl' w2 where x': "x' = (a', rl', w2)" by (cases x')
      with Inr 1(2-) c have "loop env ctx event opts atts cb cfg a' rl' w2 = Some r"
        by (auto simp: group_turn_def group_call_def split: RecipientOutcome.splits sum.splits prod.splits)
      with 1 have "P x'" by (auto simp: x')
      with Inr show ?thesis by (rule turn)
    qed
  qed
  then show ?thesis by (simp add: x)
qed

interpretation grouped: turn_machine "task_step env (for_group job)" at_start group_stop
  "group_turn env job" "group_after env job" "whole_loop env job"
proof (unfold_locales, goal_cases)
  case (1 y)
  show ?case by (cases y rule: group_stop.cases) simp_all
next
  case (2 y z)
  then show ?case by (cases y rule: group_stop.cases; cases z rule: group_stop.cases) simp_all
next
  case (3 x y)
  show ?case by (cases x, cases y rule: group_stop.cases) (simp_all add: at_start_def)
next
  case (4 x)
  show ?case by (rule group_turn_reaches)
next
  case (5 x)
  show ?case by (rule whole_loop_turn)
next
  case (6 x r P)
  then show ?case by (rule whole_loop_induct)
qed

section \<open>Tasks and loops\<close>

text \<open>
  Tasks are the loops, step by step: from its first step, and with nobody else taking steps, a recipient's task
  finishes in a world exactly when \<^verbatim>\<open>process_one_recipient\<close> returns that world; and the group's task
  finishes in the world that \<^verbatim>\<open>process_one_group\<close> returns, or comes to the point where the tasks of the remaining
  recipients are spawned and these return it. This holds in every environment, the runs included that never end.
\<close>

lemma tasks_are_the_loops:
  "(process_one_recipient env (job_ctx job) (job_event job) (job_opts job) r (job_attachments job) (job_cc_bcc job) (job_cfg job) w = Some w' \<longleftrightarrow>
      (\<exists>n. (task_step env (for_recipient job r) ^^ n) (Preparing 0 0, w) = (Finished, w'))) \<and>
   (process_one_group env (job_ctx job) (job_event job) (job_opts job) (job_attachments job) (job_cc_bcc job) (job_cfg job) w = Some w' \<longleftrightarrow>
      (\<exists>n. (task_step env (for_group job) ^^ n) (Preparing 0 0, w) = (Finished, w')) \<or>
      (\<exists>n rs w1. (task_step env (for_group job) ^^ n) (Preparing 0 0, w) = (Spawning rs, w1) \<and>
         process_recipients env (job_ctx job) (job_event job) (job_opts job) rs (job_attachments job) (job_cc_bcc job) (job_cfg job) w1 = Some w'))"
proof (rule conjI, goal_cases)
  case 1
  show ?case using individual.machine_is_loop [of env job r "(0, 0, w)" w']
    by (simp add: individual_loop_def process_one_recipient_def at_start_def reaches_def)
next
  case 2
  have "(\<exists>y. reaches (task_step env (for_group job)) (Preparing 0 0, w) (group_stop y) \<and> group_after env job y = Some w') \<longleftrightarrow>
     reaches (task_step env (for_group job)) (Preparing 0 0, w) (Finished, w') \<or>
     (\<exists>rs w1. reaches (task_step env (for_group job)) (Preparing 0 0, w) (Spawning rs, w1) \<and> group_after env job (Some rs, w1) = Some w')"
    by (metis group_after.simps(1) group_stop.simps option.exhaust option.inject surj_pair)
  with grouped.machine_is_loop [of env job "(0, 0, w)" w'] show ?case
    by (simp add: whole_loop_def process_one_group_def at_start_def) (simp add: reaches_def, blast)
qed

end
