(* ===== verification/Concurrent_Delivery.thy ===== *)
theory Concurrent_Delivery
  imports Delivery_Tasks
begin

text \<open>
  All deliveries at once. The consumer runs up to \<^verbatim>\<open>max_concurrency\<close> deliveries, each with a task per recipient or one
  for its group, several replicas consume the same queue, and a message whose consumer died is delivered again: tasks for the
  same event and the same address can be in flight together. The state is the shared world and the tasks; a step is a
  step of one of them, a spawn, a crash, or a log operation of anybody else.
\<close>

section \<open>The system\<close>

record delivery_system =
  sys_world :: world
  sys_tasks :: "(delivery_job \<times> task_pc) list"

text \<open>
  A delivery of any replica spawns a task, for a recipient or a group; some task makes its next step, whatever the
  environment answers; a failed group hands over to tasks of its recipients; a task disappears because it is done or
  its process died; or the API, the reaper, another consumer or the code around the tasks changes the log by its operations, without mailing.
\<close>

inductive delivery_step :: "delivery_system \<Rightarrow> delivery_system \<Rightarrow> bool" where
  spawn_task: "delivery_step s (s\<lparr>sys_tasks := sys_tasks s @ [(job, Preparing 0 0)]\<rparr>)"
| run_task: "sys_tasks s = xs @ (job, pc) # ys \<Longrightarrow> task_step env job (pc, sys_world s) = (pc', w') \<Longrightarrow>
    delivery_step s \<lparr>sys_world = w', sys_tasks = xs @ (job, pc') # ys\<rparr>"
| hand_over: "sys_tasks s = xs @ (job, Spawning rs) # ys \<Longrightarrow>
    delivery_step s (s\<lparr>sys_tasks := xs @ map (\<lambda>r. (for_recipient job r, Preparing 0 0)) rs @ ys\<rparr>)"
| task_gone: "sys_tasks s = xs @ task # ys \<Longrightarrow> delivery_step s (s\<lparr>sys_tasks := xs @ ys\<rparr>)"
| elsewhere: "log_step\<^sup>*\<^sup>* (w_log (sys_world s)) (w_log w') \<Longrightarrow> w_mail w' = w_mail (sys_world s) \<Longrightarrow>
    delivery_step s (s\<lparr>sys_world := w'\<rparr>)"

section \<open>Who may send\<close>

fun about_to_send :: "task_pc \<Rightarrow> bool" where
  "about_to_send (Checking _ _ _) = True"
| "about_to_send (Partitioning _ _ _ _ _ _) = True"
| "about_to_send (AwaitingToken _ _ _ _) = True"
| "about_to_send (Sending _ _ _ _) = True"
| "about_to_send _ = False"

definition job_key :: "delivery_job \<Rightarrow> uuid \<times> string" where
  "job_key job = (job_id job, r_email (job_primary job))"

definition message_key :: "string \<times> EmailMessage \<Rightarrow> uuid \<times> string" where
  "message_key p = (m_event_id (snd p), m_to_email (snd p))"

fun task_tokens :: "delivery_job \<times> task_pc \<Rightarrow> (uuid \<times> string) multiset" where
  "task_tokens (job, pc) = (if about_to_send pc then {#job_key job#} else {#})"

definition system_tokens :: "delivery_system \<Rightarrow> (uuid \<times> string) multiset" where
  "system_tokens s = mset (map message_key (w_mail (sys_world s))) + sum_list (map task_tokens (sys_tasks s))"

definition has_row :: "world \<Rightarrow> uuid \<times> string \<Rightarrow> bool" where
  "has_row w k \<longleftrightarrow> find_row (w_log w) (fst k) (snd k) \<noteq> None"

lemma outcome_pc_not_sending [simp]: "\<not> about_to_send (outcome_pc job a rl out)"
  by (auto simp: outcome_pc_def failure_pc_def Let_def split: RecipientOutcome.split AppError.split option.split)

lemma job_message_key [simp]: "message_key (s, job_message job rendered to) = job_key job"
  by (simp add: message_key_def job_message_def job_key_def job_id_def build_email_message_def)

lemma acquire_effect: "acquire_rate_limit_token env ctx w = (r, w') \<Longrightarrow> w_log w' = w_log w \<and> w_mail w' = w_mail w"
  by (auto simp: acquire_rate_limit_token_def split: TokenResult.splits)

lemma db_op_log: "(\<And>f n db. consumer_step db (snd (F f n db))) \<Longrightarrow> log_step\<^sup>*\<^sup>* (w_log w) (w_log (snd (db_op env F w)))"
  unfolding w_log_db_op log_step_def by blast

lemma note_failed_log:
  "log_step\<^sup>*\<^sup>* (w_log w) (w_log (note_failed env ev a m x w))" "w_mail (note_failed env ev a m x w) = w_mail w"
  by (cases a; simp add: db_op_log consumer_step.intros)+

lemma task_step_log:
  assumes "task_step env job (pc, w) = (pc', w')"
  shows "log_step\<^sup>*\<^sup>* (w_log w) (w_log w')"
proof (cases "(env, job, pc, w)" rule: task_step.cases)
  case (1 env job a rl w)
  with assms show ?thesis by (auto dest!: prepare_effect split: option.splits prod.splits sum.splits)
next
  case (2 env job a rl rendered w)
  have "log_step\<^sup>*\<^sup>* (w_log w) (w_log (snd (db_op env (\<lambda>f n. insert_pending f n x) w)))"
    "log_step\<^sup>*\<^sup>* (w_log w) (w_log (snd (db_op env (\<lambda>f n. insert_pending_batch f n xs) w)))" for x xs
    by (intro db_op_log consumer_step.intros)+
  with 2 assms show ?thesis by (auto split: option.splits prod.splits sum.splits) (metis snd_conv)+
next
  case (3 env job a rl rendered w)
  with assms show ?thesis by (auto dest!: blocked_reason_effect split: prod.splits option.splits)
next
  case (4 env job reason w)
  with assms show ?thesis by (auto intro!: db_op_log consumer_step.intros)
next
  case (6 env job a rl rendered secondary r rs allowed w)
  with assms show ?thesis
    by (auto intro!: db_op_log consumer_step.intros split: sum.splits AppError.splits)
next
  case (7 env job a rl rendered to w)
  with assms show ?thesis by (auto dest!: acquire_effect split: prod.splits sum.splits)
next
  case (8 env job a rl rendered to w)
  with assms show ?thesis by (auto simp: Let_def split: sum.splits)
next
  case (10 env job m ms w)
  with assms show ?thesis by (auto intro!: db_op_log consumer_step.intros)
next
  case (15 env job r rs terminal w)
  with assms show ?thesis by (auto simp: db_read_def split: sum.splits)
qed (use assms in \<open>auto simp: note_failed_log simp del: note_failed.simps split: if_splits\<close>)

lemma insert_fresh:
  assumes "db_op env (\<lambda>f n. insert_pending f n (individual_args event opts r cb)) w = (Inr Inserted, w')"
  shows "\<not> has_row w (ne_event_id event, r_email r) \<and> has_row w' (ne_event_id event, r_email r)"
  using insert_pending_results [OF conjunct2 [OF db_op_eq [OF assms]]] by (simp add: has_row_def)

lemma batch_fresh:
  assumes "db_op env (\<lambda>f n. insert_pending_batch f n (a # as)) w = (Inr (Inserted # ress), w')"
  shows "\<not> has_row w (p_event_id a, p_recipient_email a) \<and> has_row w' (p_event_id a, p_recipient_email a)"
proof -
  note op = conjunct2 [OF db_op_eq [OF assms]]
  then obtain f n where op: "insert_pending_batch f n (a # as) (w_log w) = (Inr (Inserted # ress), w_log w')" by blast
  then have "insert_batch_stmts n (a # as) (w_log w) = Inr (Inserted # ress, w_log w')"
    by (auto simp: insert_pending_batch_def split: option.splits sum.splits prod.splits)
  from batch_stmts_present [OF this] batch_first_result [OF op] show ?thesis by (simp add: has_row_def)
qed

text \<open>A task that is not yet allowed to send becomes so only by writing the first row of its key.\<close>

definition mail_and_task :: "world \<Rightarrow> delivery_job \<Rightarrow> task_pc \<Rightarrow> (uuid \<times> string) multiset" where
  "mail_and_task w job pc = mset (map message_key (w_mail w)) + task_tokens (job, pc)"

lemma insert_pc_sending: "about_to_send (insert_pc job a rl proceed res) \<Longrightarrow> res = Inserted"
  by (cases "(job, a, rl, proceed, res)" rule: insert_pc.cases) (auto split: sum.splits)

lemma inserting_tokens:
  assumes "task_step env job (Inserting a rl rendered, w) = (pc', w')" "job_recipient job = None \<longrightarrow> eo_recipients (job_opts job) \<noteq> []"
  shows "\<not> about_to_send pc' \<or> \<not> has_row w (job_key job) \<and> has_row w' (job_key job)"
proof (cases "job_recipient job")
  case (Some r)
  then have key: "job_key job = (ne_event_id (job_event job), r_email r)" by (simp add: job_key_def job_id_def job_primary_def)
  from Some assms(1) show ?thesis
    by (auto simp: key split: prod.splits sum.splits dest!: insert_pc_sending insert_fresh)
next
  case None
  then obtain primary rest where rs: "eo_recipients (job_opts job) = primary # rest" using assms(2) by (cases "eo_recipients (job_opts job)") auto
  then have key: "job_key job = (ne_event_id (job_event job), r_email primary)" using None by (simp add: job_key_def job_id_def job_primary_def)
  have "\<exists>as. group_rows job = group_args (job_event job) (job_opts job) (job_cc_bcc job) primary # as"
    using rs None by (simp add: group_rows_def Let_def job_primary_def)
  then obtain as where rows: "group_rows job = group_args (job_event job) (job_opts job) (job_cc_bcc job) primary # as" by blast
  obtain res w1 where op: "db_op env (\<lambda>f n. insert_pending_batch f n (group_rows job)) w = (res, w1)" by fastforce
  show ?thesis
  proof (cases "\<exists>ress. res = Inr (Inserted # ress)")
    case True
    then obtain ress where res: "res = Inr (Inserted # ress)" by blast
    with op assms(1) None batch_fresh [OF op [unfolded rows res]] show ?thesis by (auto simp: key)
  next
    case False
    then have "\<not> about_to_send pc'"
      using op assms(1) None
      by (cases res; cases "(job, a, rl, rendered, projr res)" rule: batch_pc.cases) (auto dest: insert_pc_sending)
    then show ?thesis ..
  qed
qed

text \<open>
  What a task has checked: its addresses once it is past its first step, and that it mails only its own recipients.
\<close>

definition job_recipients :: "delivery_job \<Rightarrow> Recipient list" where
  "job_recipients job = (case job_recipient job of Some r \<Rightarrow> [r] | None \<Rightarrow> eo_recipients (job_opts job))"

fun pc_ok :: "delivery_job \<Rightarrow> task_pc \<Rightarrow> bool" where
  "pc_ok job (Inserting _ _ _) \<longleftrightarrow> job_check job = None"
| "pc_ok job (Checking _ _ _) \<longleftrightarrow> job_check job = None"
| "pc_ok job (Partitioning _ _ _ _ rs allowed) \<longleftrightarrow> job_check job = None \<and> set rs \<union> set allowed \<subseteq> set (job_recipients job)"
| "pc_ok job (AwaitingToken _ _ _ to) \<longleftrightarrow> job_check job = None \<and> set to \<subseteq> set (job_recipients job)"
| "pc_ok job (Sending _ _ _ to) \<longleftrightarrow> job_check job = None \<and> set to \<subseteq> set (job_recipients job)"
| "pc_ok job _ \<longleftrightarrow> True"

lemma job_check_None:
  assumes "job_check job = None"
  shows "job_primary job \<in> set (job_recipients job) \<and> (\<forall>r \<in> set (job_recipients job). is_valid_email (r_email r)) \<and>
    (job_recipient job = None \<longrightarrow> eo_recipients (job_opts job) \<noteq> [])"
  using assms
  by (auto simp: job_check_def job_recipients_def job_primary_def Let_def find_None_iff split: option.splits if_splits)

lemma outcome_pc_ok [simp]: "pc_ok job (outcome_pc job a rl out)"
  by (auto simp: outcome_pc_def failure_pc_def Let_def split: RecipientOutcome.split AppError.split option.split)

lemma insert_pc_ok: "pc_ok job proceed \<Longrightarrow> pc_ok job (insert_pc job a rl proceed res)"
  by (cases res) (auto split: sum.splits)

lemma batch_pc_ok: "job_check job = None \<Longrightarrow> job_recipient job = None \<Longrightarrow> pc_ok job (batch_pc job a rl rendered ress)"
  by (cases ress) (auto intro!: insert_pc_ok simp: job_recipients_def)

lemma task_step_ok:
  assumes "task_step env job (pc, w) = (pc', w')" "pc_ok job pc"
  shows "pc_ok job pc'"
proof (cases "(env, job, pc, w)" rule: task_step.cases)
  case (2 env job a rl rendered w)
  with assms show ?thesis by (auto intro!: insert_pc_ok batch_pc_ok split: option.splits prod.splits sum.splits)
next
  case (3 env job a rl rendered w)
  with assms job_check_None [of job] show ?thesis by (auto split: prod.splits option.splits)
next
  case (8 env job a rl rendered to w)
  with assms show ?thesis by (auto simp: Let_def split: sum.splits)
qed (use assms in \<open>auto split: option.splits prod.splits sum.splits AppError.splits if_splits\<close>)

lemma task_step_tokens:
  assumes "task_step env job (pc, w) = (pc', w')" "pc_ok job pc"
  shows "mail_and_task w' job pc' \<subseteq># mail_and_task w job pc \<or>
    \<not> has_row w (job_key job) \<and> has_row w' (job_key job) \<and> mail_and_task w' job pc' = add_mset (job_key job) (mail_and_task w job pc)"
proof (cases "(env, job, pc, w)" rule: task_step.cases)
  case (2 env job a rl rendered w)
  then have "w_mail w' = w_mail w" using assms(1) by (auto dest!: db_op_eq split: option.splits prod.splits sum.splits)
  with 2 assms inserting_tokens [of env job a rl rendered w pc' w'] job_check_None [of job] show ?thesis
    by (auto simp: mail_and_task_def)
next
  case (3 env job a rl rendered w)
  with assms(1) show ?thesis by (auto simp: mail_and_task_def dest!: blocked_reason_effect split: prod.splits option.splits)
next
  case (6 env job a rl rendered secondary r rs allowed w)
  with assms(1) show ?thesis by (auto simp: mail_and_task_def split: sum.splits AppError.splits)
next
  case (7 env job a rl rendered to w)
  with assms(1) show ?thesis by (auto simp: mail_and_task_def dest!: acquire_effect split: prod.splits sum.splits)
next
  case (8 env job a rl rendered to w)
  with assms(1) show ?thesis by (auto simp: mail_and_task_def Let_def split: sum.splits)
next
  case (15 env job r rs terminal w)
  with assms(1) show ?thesis by (auto simp: mail_and_task_def db_read_def split: sum.splits)
qed (use assms(1) in \<open>auto simp: mail_and_task_def note_failed_log simp del: note_failed.simps dest!: prepare_effect
  split: if_splits option.splits prod.splits sum.splits\<close>)

section \<open>The system keeps its word\<close>

definition message_valid :: "EmailMessage \<Rightarrow> bool" where
  "message_valid m \<longleftrightarrow> is_valid_email (m_to_email m) \<and> (\<forall>x \<in> set (m_to_extra m). is_valid_email (mb_email x))"

definition system_ok :: "delivery_system \<Rightarrow> bool" where
  "system_ok s \<longleftrightarrow> (\<forall>(job, pc) \<in> set (sys_tasks s). pc_ok job pc) \<and> (\<forall>p \<in> set (w_mail (sys_world s)). message_valid (snd p))"

lemma job_message_valid:
  assumes "job_check job = None" "set to \<subseteq> set (job_recipients job)"
  shows "message_valid (job_message job rendered to)"
  using job_check_None [OF assms(1)] assms(2)
  by (auto simp: message_valid_def job_message_def build_email_message_def mailbox_of_def dest!: in_set_dropD)

lemma task_step_mail:
  assumes "task_step env job (pc, w) = (pc', w')" "pc_ok job pc"
  shows "w_mail w' = w_mail w \<or> (\<exists>sender m. w_mail w' = w_mail w @ [(sender, m)] \<and> message_valid m)"
proof (cases "(env, job, pc, w)" rule: task_step.cases)
  case (2 env job a rl rendered w)
  with assms(1) show ?thesis by (auto dest!: db_op_eq split: option.splits prod.splits sum.splits)
next
  case (8 env job a rl rendered to w)
  with assms job_message_valid [of job to rendered] show ?thesis by (auto simp: Let_def split: sum.splits)
next
  case (15 env job r rs terminal w)
  with assms(1) show ?thesis by (auto simp: db_read_def split: sum.splits)
qed (use assms(1) in \<open>auto simp: note_failed_log simp del: note_failed.simps
  dest!: prepare_effect blocked_reason_effect acquire_effect
  split: if_splits option.splits prod.splits sum.splits AppError.splits\<close>)

lemma delivery_step_ok: "delivery_step s s' \<Longrightarrow> system_ok s \<Longrightarrow> system_ok s'"
proof (induction rule: delivery_step.induct)
  case (run_task s xs job pc ys env pc' w')
  then have "pc_ok job pc" by (auto simp: system_ok_def)
  from task_step_ok [OF run_task(2) this] task_step_mail [OF run_task(2) this] run_task(1,3) show ?case
    by (auto simp: system_ok_def)
qed (auto simp: system_ok_def)

lemma delivery_step_log: "delivery_step s s' \<Longrightarrow> log_step\<^sup>*\<^sup>* (w_log (sys_world s)) (w_log (sys_world s'))"
  by (induction rule: delivery_step.induct) (auto dest: task_step_log)

lemma system_run_log: "delivery_step\<^sup>*\<^sup>* s s' \<Longrightarrow> log_step\<^sup>*\<^sup>* (w_log (sys_world s)) (w_log (sys_world s'))"
  by (induction rule: rtranclp_induct) (auto dest: delivery_step_log)

lemma run_task_tokens:
  assumes "sys_tasks s = xs @ (job, pc) # ys"
  shows "system_tokens s = mail_and_task (sys_world s) job pc + sum_list (map task_tokens (xs @ ys))"
  using assms by (simp add: system_tokens_def mail_and_task_def ac_simps del: task_tokens.simps)

interpretation sends: minting delivery_step system_ok system_tokens "\<lambda>s. has_row (sys_world s)"
proof
  fix s s'
  assume step: "delivery_step s s'"
  show "system_ok s'" if "system_ok s" using delivery_step_ok [OF step that] .
  show "has_row (sys_world s') k" if "has_row (sys_world s) k" for k
    using find_row_evolves [OF log_steps_evolve [OF delivery_step_log [OF step]]] that by (auto simp: has_row_def)
  show "system_tokens s' \<subseteq># system_tokens s \<or>
    (\<exists>k. \<not> has_row (sys_world s) k \<and> has_row (sys_world s') k \<and> system_tokens s' \<subseteq># add_mset k (system_tokens s))" if ok: "system_ok s"
    using step
  proof cases
    case (run_task xs job pc ys env pc' w')
    let ?rest = "sum_list (map task_tokens (xs @ ys))"
    have t: "system_tokens s = mail_and_task (sys_world s) job pc + ?rest" "system_tokens s' = mail_and_task w' job pc' + ?rest"
      using run_task_tokens [of s xs job pc ys] run_task_tokens [of s' xs job pc' ys] run_task(1,2) by simp_all
    have "pc_ok job pc" using ok run_task(2) by (auto simp: system_ok_def)
    from task_step_tokens [OF run_task(3) this] show ?thesis
    proof (elim disjE conjE)
      assume "\<not> has_row (sys_world s) (job_key job)" "has_row w' (job_key job)"
        "mail_and_task w' job pc' = add_mset (job_key job) (mail_and_task (sys_world s) job pc)"
      then show ?thesis using run_task(1) t by (intro disjI2 exI [of _ "job_key job"]) simp
    qed (simp add: t)
  next
    case (hand_over xs job rs ys)
    have none: "sum_list (map (\<lambda>r. task_tokens (for_recipient job r, Preparing 0 0)) rs) = {#}" by (induction rs) simp_all
    with hand_over show ?thesis by (simp add: system_tokens_def comp_def)
  qed (auto simp: system_tokens_def)
qed

section \<open>Properties\<close>

text \<open>
  C1. At most one message per event and To address under any interleaving: start from a consistent log, and let any
  number of tasks for recipients and groups (several deliveries and redeliveries of the same events, repeated addresses,
  several replicas with their own configurations) be spawned, take their steps in any order against any
  environment, and die at any point, while the API, the reaper and other consumers change the log by its
  operations. Then the messages that the mail servers accepted have pairwise different pairs of event id and (first)
  To address; each is addressed to valid addresses only, and its first address had no row for the event at the start and
  has one at the end; and the log is still consistent.
\<close>

theorem concurrent_at_most_once:
  assumes "delivery_step\<^sup>*\<^sup>* s s'" "sys_tasks s = []" "w_mail (sys_world s) = []" "log_inv (w_log (sys_world s))"
  shows "log_inv (w_log (sys_world s')) \<and> distinct (map message_key (w_mail (sys_world s'))) \<and>
    (\<forall>p \<in> set (w_mail (sys_world s')). message_valid (snd p) \<and>
       \<not> has_row (sys_world s) (message_key p) \<and> has_row (sys_world s') (message_key p))"
proof -
  have "sends.minted_once s s'"
    using assms by (intro sends.minted_once_run) (simp_all add: system_tokens_def system_ok_def)
  then have ok: "system_ok s'" and once: "\<And>k. k \<in># system_tokens s' \<Longrightarrow>
      count (system_tokens s') k = 1 \<and> has_row (sys_world s') k \<and> \<not> has_row (sys_world s) k"
    by (auto simp: sends.minted_once_def)
  have sent: "message_key p \<in># system_tokens s'" if "p \<in> set (w_mail (sys_world s'))" for p
    using that by (simp add: system_tokens_def)
  have "distinct (map message_key (w_mail (sys_world s')))"
  proof (rule mset_count_distinct)
    fix k assume "k \<in> set (map message_key (w_mail (sys_world s')))"
    then have "k \<in># system_tokens s'" using sent by (metis imageE list.set_map)
    with once have "count (system_tokens s') k = 1" by blast
    then show "count (mset (map message_key (w_mail (sys_world s')))) k \<le> 1" by (simp add: system_tokens_def)
  qed
  with once sent ok log_steps_inv [OF system_run_log [OF assms(1)] assms(4)] show ?thesis by (auto simp: system_ok_def)
qed

text \<open>A task of the system may run for a while without the others.\<close>

lemma task_run_steps:
  "(task_step env job ^^ n) (pc, w) = (pc', w') \<Longrightarrow>
   delivery_step\<^sup>*\<^sup>* \<lparr>sys_world = w, sys_tasks = xs @ (job, pc) # ys\<rparr> \<lparr>sys_world = w', sys_tasks = xs @ (job, pc') # ys\<rparr>"
proof (induction n arbitrary: pc w)
  case (Suc n)
  obtain pc1 w1 where 1: "task_step env job (pc, w) = (pc1, w1)" by fastforce
  then have "delivery_step \<lparr>sys_world = w, sys_tasks = xs @ (job, pc) # ys\<rparr> \<lparr>sys_world = w1, sys_tasks = xs @ (job, pc1) # ys\<rparr>"
    by (intro run_task) simp_all
  with Suc 1 show ?case by (auto simp: funpow_swap1 intro: converse_rtranclp_into_rtranclp)
qed simp

lemma call_steps:
  assumes "recipient_call env job r w = (out, w')" "outcome_pc (for_recipient job r) 0 0 out = Finished"
  shows "delivery_step\<^sup>*\<^sup>* \<lparr>sys_world = w, sys_tasks = xs @ (for_recipient job r, Preparing 0 0) # ys\<rparr>
    \<lparr>sys_world = w', sys_tasks = xs @ (for_recipient job r, Finished) # ys\<rparr>"
  using reaches_step [OF recipient_call_reaches [OF assms(1), of 0 0]] assms(2) task_run_steps by (auto simp: reaches_def)

definition sample_job :: delivery_job where
  "sample_job = \<lparr>job_ctx = sample_ctx, job_cfg = consumer_config_default, job_event = sample_event, job_opts = to_all [],
     job_attachments = [], job_cc_bcc = no_copies, job_recipient = None\<rparr>"

text \<open>Two tasks for the same address and event: the second finds the row of the first.\<close>

theorem concurrent_at_most_once_witness:
  "\<exists>s'. delivery_step\<^sup>*\<^sup>* \<lparr>sys_world = sample_world, sys_tasks = []\<rparr> s' \<and> length (sys_tasks s') = 2 \<and>
     (\<exists>p. w_mail (sys_world s') = [p] \<and> has_row (sys_world s') (message_key p))"
proof -
  let ?r = "\<lparr>r_email = ''a@x.org'', r_name = None\<rparr>"
  let ?job = "for_recipient sample_job ?r"
  let ?call = "process_recipient (sample_env (\<lambda>_ _ _. Ok ())) sample_ctx sample_event (to_all []) ?r [] no_copies"
  let ?w1 = "snd (?call sample_world)"
  let ?w2 = "snd (?call ?w1)"
  have "fst (?call sample_world) = OSent" "fst (?call ?w1) = OSkipped" "length (w_mail ?w2) = 1" by code_simp+
  then have call: "?call sample_world = (OSent, ?w1)" "?call ?w1 = (OSkipped, ?w2)" and one: "length (w_mail ?w2) = 1"
    by (metis prod.collapse)+
  have eq: "recipient_call (sample_env (\<lambda>_ _ _. Ok ())) sample_job ?r = ?call" by (simp add: recipient_call_def sample_job_def)
  note calls = call_steps [of "sample_env (\<lambda>_ _ _. Ok ())" sample_job ?r, unfolded eq]
  let ?start = "\<lambda>tasks. \<lparr>sys_world = sample_world, sys_tasks = tasks\<rparr>"
  let ?s2 = "?start [(?job, Preparing 0 0), (?job, Preparing 0 0)]"
  let ?s3 = "\<lparr>sys_world = ?w1, sys_tasks = [(?job, Finished), (?job, Preparing 0 0)]\<rparr>"
  let ?s4 = "\<lparr>sys_world = ?w2, sys_tasks = [(?job, Finished), (?job, Finished)]\<rparr>"
  have 2: "delivery_step\<^sup>*\<^sup>* (?start []) ?s2"
    using spawn_task [of "?start []" ?job] spawn_task [of "?start [(?job, Preparing 0 0)]" ?job] by simp
  have 3: "delivery_step\<^sup>*\<^sup>* ?s2 ?s3"
    using calls [OF call(1), of "[]" "[(?job, Preparing 0 0)]"] by (simp add: outcome_pc_def)
  have 4: "delivery_step\<^sup>*\<^sup>* ?s3 ?s4"
    using calls [OF call(2), of "[(?job, Finished)]" "[]"] by (simp add: outcome_pc_def)
  note steps = rtranclp_trans [OF rtranclp_trans [OF 2 3] 4]
  have init: "sys_tasks (?start []) = []" "w_mail (sys_world (?start [])) = []" "log_inv (w_log (sys_world (?start [])))"
    by (simp_all add: sample_world_def log_inv_empty)
  obtain p where p: "w_mail ?w2 = [p]" using one by (auto simp: length_Suc_conv)
  have "has_row ?w2 (message_key p)" using concurrent_at_most_once [OF steps init] p by simp
  with steps p show ?thesis by (intro exI [of _ ?s4]) simp
qed

section \<open>A delivery is a run of the system\<close>

text \<open>The log evolves by its operations and nothing is mailed.\<close>

definition quiet :: "world \<Rightarrow> world \<Rightarrow> bool" where
  "quiet w w' \<longleftrightarrow> log_step\<^sup>*\<^sup>* (w_log w) (w_log w') \<and> w_mail w' = w_mail w"

lemma quiet_run: "quiet w w' \<Longrightarrow> delivery_step\<^sup>*\<^sup>* \<lparr>sys_world = w, sys_tasks = ts\<rparr> \<lparr>sys_world = w', sys_tasks = ts\<rparr>"
  using elsewhere [of "\<lparr>sys_world = w, sys_tasks = ts\<rparr>" w'] by (simp add: quiet_def r_into_rtranclp)

text \<open>Spawn a task, let it run, and let it go.\<close>

lemma spawned_run:
  assumes "reaches (task_step env job) (Preparing 0 0, w) (pc, w')"
  shows "delivery_step\<^sup>*\<^sup>* \<lparr>sys_world = w, sys_tasks = ts\<rparr> \<lparr>sys_world = w', sys_tasks = ts\<rparr>"
proof -
  let ?s = "\<lambda>w tasks. \<lparr>sys_world = w, sys_tasks = tasks\<rparr>"
  from assms obtain n where n: "(task_step env job ^^ n) (Preparing 0 0, w) = (pc, w')" by (auto simp: reaches_def)
  have 1: "delivery_step\<^sup>*\<^sup>* (?s w ts) (?s w (ts @ [(job, Preparing 0 0)]))" using spawn_task [of "?s w ts" job] by (simp add: r_into_rtranclp)
  have 2: "delivery_step\<^sup>*\<^sup>* (?s w (ts @ [(job, Preparing 0 0)])) (?s w' (ts @ [(job, pc)]))" by (rule task_run_steps [OF n])
  have 3: "delivery_step\<^sup>*\<^sup>* (?s w' (ts @ [(job, pc)])) (?s w' ts)" using task_gone [of "?s w' (ts @ [(job, pc)])" ts _ "[]"] by (simp add: r_into_rtranclp)
  from rtranclp_trans [OF rtranclp_trans [OF 1 2] 3] show ?thesis .
qed

lemma recipients_run:
  fixes job :: delivery_job
  assumes "process_recipients env (job_ctx job) (job_event job) (job_opts job) rs (job_attachments job) (job_cc_bcc job) (job_cfg job) w = Some w'"
  shows "delivery_step\<^sup>*\<^sup>* \<lparr>sys_world = w, sys_tasks = ts\<rparr> \<lparr>sys_world = w', sys_tasks = ts\<rparr>"
  using assms
proof (induction rs arbitrary: w)
  case (Cons r rs)
  then obtain w1 where one: "process_one_recipient env (job_ctx job) (job_event job) (job_opts job) r (job_attachments job) (job_cc_bcc job) (job_cfg job) w = Some w1"
    and rest: "process_recipients env (job_ctx job) (job_event job) (job_opts job) rs (job_attachments job) (job_cc_bcc job) (job_cfg job) w1 = Some w'"
    by (auto simp: bind_eq_Some_conv)
  from one have "reaches (task_step env (for_recipient job r)) (Preparing 0 0, w) (Finished, w1)"
    using individual.machine_is_loop [of env job r "(0, 0, w)" w1]
    by (auto simp: individual_loop_def process_one_recipient_def at_start_def)
  from rtranclp_trans [OF spawned_run [OF this] Cons.IH [OF rest]] show ?case .
qed simp

lemma group_run:
  fixes job :: delivery_job
  assumes "process_one_group env (job_ctx job) (job_event job) (job_opts job) (job_attachments job) (job_cc_bcc job) (job_cfg job) w = Some w'"
  shows "delivery_step\<^sup>*\<^sup>* \<lparr>sys_world = w, sys_tasks = ts\<rparr> \<lparr>sys_world = w', sys_tasks = ts\<rparr>"
proof -
  from assms obtain y where y: "reaches (task_step env (for_group job)) (Preparing 0 0, w) (group_stop y)" "group_after env job y = Some w'"
    using grouped.machine_is_loop [of env job "(0, 0, w)" w']
    by (auto simp: whole_loop_def process_one_group_def at_start_def)
  show ?thesis
  proof (cases y rule: group_stop.cases)
    case (1 w1)
    with y spawned_run show ?thesis by simp
  next
    case (2 rs w1)
    with y have "reaches (task_step env (for_group job)) (Preparing 0 0, w) (Spawning rs, w1)"
      "process_recipients env (job_ctx job) (job_event job) (job_opts job) rs (job_attachments job) (job_cc_bcc job) (job_cfg job) w1 = Some w'"
      by simp_all
    from rtranclp_trans [OF spawned_run [OF this(1)] recipients_run [OF this(2)]] show ?thesis .
  qed
qed

lemma skip_quiet: "quiet w (skip_event env event reason w)"
  by (simp add: quiet_def skip_event_def db_op_log consumer_step.intros)

lemma sentinel_quiet: "quiet w (insert_sentinel_failed_row env event opts reason w)"
proof (cases "eo_recipients opts")
  case Nil
  then show ?thesis by (simp add: quiet_def insert_sentinel_failed_row_def)
next
  case (Cons primary rest)
  let ?note = "note_failed env (ne_event_id event) (Some (r_email primary)) reason True"
  obtain res w1 where op: "db_op env (\<lambda>f n. insert_pending f n (sentinel_args event primary)) w = (res, w1)" by fastforce
  have "log_step\<^sup>*\<^sup>* (w_log w) (w_log (snd (db_op env (\<lambda>f n. insert_pending f n (sentinel_args event primary)) w)))"
    by (intro db_op_log consumer_step.intros)
  with op have l: "log_step\<^sup>*\<^sup>* (w_log w) (w_log w1)" "w_mail w1 = w_mail w" using db_op_eq [OF op] by simp_all
  have n: "log_step\<^sup>*\<^sup>* (w_log w1) (w_log (?note w1))" "w_mail (?note w1) = w_mail w1" by (rule note_failed_log)+
  have "insert_sentinel_failed_row env event opts reason w \<in> {w1, ?note w1}"
    using Cons op by (auto simp: insert_sentinel_failed_row_def simp del: note_failed.simps split: sum.splits InsertResult.splits)
  then show ?thesis using l n rtranclp_trans [OF l(1) n(1)] unfolding quiet_def by (elim insertE emptyE) (simp_all only:)
qed

lemma dispatch_run:
  assumes "dispatch env dv ctx cfg event opts w = Some res"
  shows "delivery_step\<^sup>*\<^sup>* \<lparr>sys_world = w, sys_tasks = ts\<rparr> \<lparr>sys_world = dr_world res, sys_tasks = ts\<rparr>"
proof (cases "attachments_of dv cfg event opts")
  case (Inl e)
  with dispatch_failed_fetch [OF Inl] assms show ?thesis by (auto simp: finish_def)
next
  case (Inr atts)
  obtain cc w1 where c: "filter_copies env ctx (eo_cc opts) w = (cc, w1)" by fastforce
  obtain bcc w2 where b: "filter_copies env ctx (eo_bcc opts) w1 = (bcc, w2)" by fastforce
  let ?job = "\<lparr>job_ctx = ctx, job_cfg = cfg, job_event = event, job_opts = opts, job_attachments = atts,
    job_cc_bcc = \<lparr>ec_cc = cc, ec_bcc = bcc\<rparr>, job_recipient = None\<rparr>"
  let ?w3 = "snd (db_read env (\<lambda>f. get_by_event_and_recipient f (ne_event_id event) (r_email (hd (eo_recipients opts)))) w2)"
  have q: "w_log w2 = w_log w" "w_mail w2 = w_mail w" "w_log ?w3 = w_log w" "w_mail ?w3 = w_mail w"
    using filter_copies_sound [OF c] filter_copies_sound [OF b] by (simp_all add: db_read_def)
  have copies: "delivery_step\<^sup>*\<^sup>* \<lparr>sys_world = w, sys_tasks = ts\<rparr> \<lparr>sys_world = x, sys_tasks = ts\<rparr>" if "x \<in> {w2, ?w3}" for x
    using that q by (intro quiet_run) (auto simp: quiet_def)
  have d: "map_option (finish Acked)
      (if eo_send_mode opts = SendGroup
       then process_one_group env ctx event opts atts \<lparr>ec_cc = cc, ec_bcc = bcc\<rparr> cfg (if eo_group_retry_mode opts = RetryWhole then ?w3 else w2)
       else process_recipients env ctx event opts (eo_recipients opts) atts \<lparr>ec_cc = cc, ec_bcc = bcc\<rparr> cfg w2) = Some res"
    using assms Inr c b unfolding dispatch_def attachments_of_def by (simp add: Let_def)
  show ?thesis
  proof (cases "eo_send_mode opts = SendGroup")
    case True
    with d have "process_one_group env (job_ctx ?job) (job_event ?job) (job_opts ?job) (job_attachments ?job) (job_cc_bcc ?job) (job_cfg ?job)
        (if eo_group_retry_mode opts = RetryWhole then ?w3 else w2) = Some (dr_world res)" by (auto simp: finish_def)
    from rtranclp_trans [OF copies group_run [OF this]] show ?thesis by simp
  next
    case False
    with d have "process_recipients env (job_ctx ?job) (job_event ?job) (job_opts ?job) (eo_recipients opts) (job_attachments ?job) (job_cc_bcc ?job)
        (job_cfg ?job) w2 = Some (dr_world res)" by (auto simp: finish_def)
    from rtranclp_trans [OF copies recipients_run [OF this]] show ?thesis by simp
  qed
qed

text \<open>
  C37. Every delivery is a run of the concurrent system: whatever tasks are in flight, when \<^verbatim>\<open>handle_delivery\<close> takes a message
  from one world to another, so do steps of the system, which leave the other tasks alone. So what holds
  in every interleaving of the system holds of any sequence of deliveries, in particular that no address gets an event twice.
\<close>

theorem delivery_refines_system:
  assumes "handle_delivery env dv ctx cfg data w = Some res"
  shows "delivery_step\<^sup>*\<^sup>* \<lparr>sys_world = w, sys_tasks = ts\<rparr> \<lparr>sys_world = dr_world res, sys_tasks = ts\<rparr>"
proof (cases "\<exists>event opts. dispatch env dv ctx cfg event opts w = Some res")
  case True
  then show ?thesis using dispatch_run by blast
next
  case False
  have "quiet w (dr_world res)"
  proof (cases "\<exists>s. res = finish s w")
    case True
    then show ?thesis by (auto simp: quiet_def finish_def)
  next
    case nf: False
    show ?thesis
      using assms False nf skip_quiet sentinel_quiet unfolding handle_delivery_def
      by (fastforce simp: finish_def defer_delivery_def Let_def quiet_def [of w w] split: option.splits if_splits)
  qed
  then show ?thesis by (rule quiet_run)
qed

definition one_recipient :: EmailOptions where
  "one_recipient = (to_all [''a@x.org''])\<lparr>eo_send_mode := SendIndividual\<rparr>"

definition one_event :: NotificationEvent where
  "one_event = sample_event\<lparr>ne_channel_overrides := \<lparr>co_email = Some one_recipient\<rparr>\<rparr>"

theorem delivery_refines_system_witness:
  "\<exists>res. handle_delivery (sample_env (\<lambda>_ _ _. Ok ())) (sample_dv (enc_event sample_formats one_event) (\<lambda>_. ConfirmTimedOut)) sample_ctx consumer_config_default ''event'' sample_world = Some res \<and>
     length (w_mail (dr_world res)) = 1 \<and>
     delivery_step\<^sup>*\<^sup>* \<lparr>sys_world = sample_world, sys_tasks = []\<rparr> \<lparr>sys_world = dr_world res, sys_tasks = []\<rparr>"
proof -
  let ?env = "sample_env (\<lambda>_ _ _. Ok ())"
  let ?dv = "sample_dv (enc_event sample_formats one_event) (\<lambda>_. ConfirmTimedOut)"
  let ?r = "\<lparr>r_email = ''a@x.org'', r_name = None\<rparr>"
  let ?call = "process_recipient ?env sample_ctx one_event one_recipient ?r [] no_copies sample_world"
  have "event_text_ok sample_formats one_event"
    by (simp add: event_text_ok_def one_event_def one_recipient_def to_all_def sample_event_def sample_formats_def datetime_text_ok_def)
  then have "decode_event ?dv ''event'' = Some one_event" by (simp add: decode_event_def sample_dv_def dec_enc_event)
  then have "due ?dv consumer_config_default ''event'' one_event one_recipient"
    by (simp add: due_def one_event_def one_recipient_def to_all_def consumer_config_default_def)
  note run = handle_delivery_due [OF this, of ?env sample_ctx sample_world]
  have "fst ?call = OSent" "length (w_mail (snd ?call)) = 1" by code_simp+
  then obtain w1 where c: "?call = (OSent, w1)" "length (w_mail w1) = 1" by (metis prod.collapse)
  have "process_one_recipient ?env sample_ctx one_event one_recipient ?r [] no_copies consumer_config_default sample_world = Some w1"
    by (rule one_turn [OF c(1)]) (simp add: recipient_turn_def)
  then have "handle_delivery ?env ?dv sample_ctx consumer_config_default ''event'' sample_world = Some (finish Acked w1)"
    unfolding run by (simp add: dispatch_def one_recipient_def to_all_def no_copies_def)
  with delivery_refines_system [OF this, of "[]"] c(2) show ?thesis by (auto simp: finish_def)
qed

end
