(* ===== verification/Outbox_Props.thy ===== *)
theory Outbox_Props
  imports Outbox
begin

text \<open>
  What the outbox promises: an event that is marked published was confirmed by the broker, no event
  is dropped or changed, a batch goes out by priority and age, and rows left behind by a crash or a
  dead channel are found again. The polls of any number of workers, the reaper and the business service
  interleave in the step relation below, one interaction at a time.
\<close>

section \<open>Polls, reaper and business service interleaved\<close>

text \<open>The table and the messages, with the control points of the polls in flight in all workers together. A poll is
  gone when its caller has taken its result, when the shutdown token drops it, or when its process dies.\<close>

record outbox_system =
  os_world :: outbox_world
  os_polls :: "poll_pc list"

inductive system_step :: "text_formats \<Rightarrow> int \<Rightarrow> outbox_system \<Rightarrow> outbox_system \<Rightarrow> bool" for tf maxf where
  business_insert:
    "ob_status r = ObPending \<Longrightarrow> ob_fail_count r = 0 \<Longrightarrow> ob_locked_at r = None \<Longrightarrow>
     ob_id r \<notin> ob_id ` set (ow_table w) \<Longrightarrow> ob_event_id r \<notin> ob_event_id ` set (ow_table w) \<Longrightarrow>
     system_step tf maxf \<lparr>os_world = w, os_polls = ps\<rparr> \<lparr>os_world = w\<lparr>ow_table := ow_table w @ [r]\<rparr>, os_polls = ps\<rparr>"
| poll_begins:
    "system_step tf maxf \<lparr>os_world = w, os_polls = ps @ qs\<rparr> \<lparr>os_world = w, os_polls = ps @ Fetching # qs\<rparr>"
| poll_advances:
    "oe_formats env = tf \<Longrightarrow> oc_max_publish_failures cfg = maxf \<Longrightarrow> poll_step env cfg (pc, w) = (pc', w') \<Longrightarrow>
     system_step tf maxf \<lparr>os_world = w, os_polls = ps @ pc # qs\<rparr> \<lparr>os_world = w', os_polls = ps @ pc' # qs\<rparr>"
| poll_gone:
    "system_step tf maxf \<lparr>os_world = w, os_polls = ps @ pc # qs\<rparr> \<lparr>os_world = w, os_polls = ps @ qs\<rparr>"
| reaper:
    "ob_step env (\<lambda>f n. reap_stale_in_progress f n timeout) w = (res, w') \<Longrightarrow>
     system_step tf maxf \<lparr>os_world = w, os_polls = ps\<rparr> \<lparr>os_world = w', os_polls = ps\<rparr>"

definition empty_system :: outbox_system where
  "empty_system = \<lparr>os_world = \<lparr>ow_table = [], ow_sent = [], ow_tick = 0\<rparr>, os_polls = []\<rparr>"

definition system_reachable :: "text_formats \<Rightarrow> int \<Rightarrow> outbox_system \<Rightarrow> bool" where
  "system_reachable tf maxf s \<longleftrightarrow> (system_step tf maxf)\<^sup>*\<^sup>* empty_system s"

lemma system_reachable_steps: "system_reachable tf maxf s \<Longrightarrow> (system_step tf maxf)\<^sup>*\<^sup>* s s' \<Longrightarrow> system_reachable tf maxf s'"
  unfolding system_reachable_def by (rule rtranclp_trans)

lemma system_reachable_step: "system_reachable tf maxf s \<Longrightarrow> system_step tf maxf s s' \<Longrightarrow> system_reachable tf maxf s'"
  unfolding system_reachable_def by (rule rtranclp.rtrancl_into_rtrancl)

text \<open>The polls of the others do not mind one poll more.\<close>

lemma system_step_frame:
  "system_step tf maxf s s' \<Longrightarrow>
   system_step tf maxf \<lparr>os_world = os_world s, os_polls = pc # os_polls s\<rparr> \<lparr>os_world = os_world s', os_polls = pc # os_polls s'\<rparr>"
proof (induction rule: system_step.induct)
  case (poll_begins w ps qs)
  then show ?case using system_step.poll_begins [of tf maxf w "pc # ps" qs] by simp
next
  case (poll_advances env cfg pc1 w pc' w' ps qs)
  then show ?case using system_step.poll_advances [of env tf cfg maxf pc1 w pc' w' "pc # ps" qs] by simp
next
  case (poll_gone w ps pc1 qs)
  then show ?case using system_step.poll_gone [of tf maxf w "pc # ps" pc1 qs] by simp
qed (auto intro: system_step.intros)

lemma system_steps_frame:
  "(system_step tf maxf)\<^sup>*\<^sup>* s s' \<Longrightarrow>
   (system_step tf maxf)\<^sup>*\<^sup>* \<lparr>os_world = os_world s, os_polls = pc # os_polls s\<rparr> \<lparr>os_world = os_world s', os_polls = pc # os_polls s'\<rparr>"
  by (induction rule: rtranclp_induct) (auto intro: rtranclp.rtrancl_into_rtrancl system_step_frame)

section \<open>Row updates\<close>

text \<open>The part of a row that the business service wrote.\<close>

definition row_content :: "outbox_row \<Rightarrow> uuid \<times> uuid \<times> string \<times> json \<times> datetime" where
  "row_content r = (ob_id r, ob_event_id r, ob_event_type r, ob_payload r, ob_created_at r)"

definition claim_content :: "OutboxRow \<Rightarrow> uuid \<times> uuid \<times> string \<times> json \<times> datetime" where
  "claim_content c = (or_id c, or_event_id c, or_event_type c, or_payload c, or_created_at c)"

lemma claim_content_of [simp]: "claim_content (claim_of r) = row_content r"
  by (simp add: claim_content_def claim_of_def row_content_def)

lemma outbox_event_content: "claim_content c = claim_content c' \<Longrightarrow> outbox_event tf c = outbox_event tf c'"
  by (cases c; cases c') (simp add: claim_content_def outbox_event_def split: sum.split)

lemma content_id: "row_content r = row_content r' \<Longrightarrow> ob_id r = ob_id r'"
  by (simp add: row_content_def)

definition keeps_content :: "(outbox_row \<Rightarrow> outbox_row) \<Rightarrow> bool" where
  "keeps_content f \<longleftrightarrow> (\<forall>r. row_content (f r) = row_content r)"

lemma update_rows_content: "keeps_content f \<Longrightarrow> map row_content (update_rows P f db) = map row_content db"
  by (auto simp: update_rows_def keeps_content_def)

lemma in_update_rows: "r' \<in> set (update_rows P f db) \<longleftrightarrow> (\<exists>r \<in> set db. r' = (if P r then f r else r))"
  by (auto simp: update_rows_def)

lemma update_rows_hit: "r \<in> set db \<Longrightarrow> P r \<Longrightarrow> f r \<in> set (update_rows P f db)"
  by (auto simp: in_update_rows)

lemma keeps_content_updates [simp]:
  "keeps_content (\<lambda>r. r\<lparr>ob_status := s, ob_locked_at := t\<rparr>)"
  "keeps_content (\<lambda>r. r\<lparr>ob_status := s, ob_published_at := p, ob_locked_at := t\<rparr>)"
  "keeps_content (failure_update m)"
  by (simp_all add: keeps_content_def row_content_def failure_update_def)

section \<open>The invariant\<close>

text \<open>
  A published row has a confirmed message with its own event; a failed row has used up its attempts;
  a row is in progress exactly while it carries a lock time.
\<close>

definition row_ok :: "text_formats \<Rightarrow> int \<Rightarrow> (uuid \<times> json \<times> publish_reply) set \<Rightarrow> outbox_row \<Rightarrow> bool" where
  "row_ok tf maxf sent r \<longleftrightarrow>
     (ob_status r = ObPublished \<longrightarrow>
        ob_published_at r \<noteq> None \<and>
        (\<exists>e. outbox_event tf (claim_of r) = Ok e \<and> (ob_id r, enc_event tf e, Confirmed ConfirmAck) \<in> sent)) \<and>
     (ob_status r = ObFailed \<longrightarrow> maxf \<le> ob_fail_count r) \<and>
     (ob_status r = ObInProgress \<longleftrightarrow> ob_locked_at r \<noteq> None) \<and> 0 \<le> ob_fail_count r"

definition table_inv :: "text_formats \<Rightarrow> int \<Rightarrow> outbox_world \<Rightarrow> bool" where
  "table_inv tf maxf w \<longleftrightarrow> distinct (map ob_id (ow_table w)) \<and> (\<forall>r \<in> set (ow_table w). row_ok tf maxf (set (ow_sent w)) r)"

text \<open>A poll holds claims on rows of the table, and one that is about to mark a row has the broker's confirmation of the
  event of that row.\<close>

fun poll_rows :: "poll_pc \<Rightarrow> OutboxRow list" where
  "poll_rows (Publishing rows) = rows"
| "poll_rows (Marking row rows) = row # rows"
| "poll_rows (Recording e row rows) = row # rows"
| "poll_rows (Checking e rows) = rows"
| "poll_rows _ = []"

definition confirmed_claim :: "text_formats \<Rightarrow> (uuid \<times> json \<times> publish_reply) set \<Rightarrow> OutboxRow \<Rightarrow> bool" where
  "confirmed_claim tf sent c \<longleftrightarrow> (\<exists>e. outbox_event tf c = Ok e \<and> (or_id c, enc_event tf e, Confirmed ConfirmAck) \<in> sent)"

definition poll_ok :: "text_formats \<Rightarrow> outbox_world \<Rightarrow> poll_pc \<Rightarrow> bool" where
  "poll_ok tf w pc \<longleftrightarrow>
     (\<forall>c \<in> set (poll_rows pc). claim_content c \<in> row_content ` set (ow_table w)) \<and>
     (case pc of Marking row _ \<Rightarrow> confirmed_claim tf (set (ow_sent w)) row | _ \<Rightarrow> True)"

definition system_inv :: "text_formats \<Rightarrow> int \<Rightarrow> outbox_system \<Rightarrow> bool" where
  "system_inv tf maxf s \<longleftrightarrow> table_inv tf maxf (os_world s) \<and> (\<forall>pc \<in> set (os_polls s). poll_ok tf (os_world s) pc)"

text \<open>What one interaction may do to the table and the messages, as the polls in flight see it.\<close>

definition world_grows :: "outbox_world \<Rightarrow> outbox_world \<Rightarrow> bool" where
  "world_grows w w' \<longleftrightarrow> (\<exists>new. map row_content (ow_table w') = map row_content (ow_table w) @ new) \<and> set (ow_sent w) \<subseteq> set (ow_sent w')"

lemma world_grows_refl [simp]: "world_grows w w"
  by (simp add: world_grows_def)

lemma row_ok_mono: "row_ok tf maxf S r \<Longrightarrow> S \<subseteq> S' \<Longrightarrow> row_ok tf maxf S' r"
  by (auto simp: row_ok_def)

lemma world_grows_contents:
  assumes "world_grows w w'"
  shows "row_content ` set (ow_table w) \<subseteq> row_content ` set (ow_table w')"
proof -
  obtain new where "map row_content (ow_table w') = map row_content (ow_table w) @ new" using assms by (auto simp: world_grows_def)
  from arg_cong [OF this, of set] show ?thesis by auto
qed

lemma poll_ok_grows: "poll_ok tf w pc \<Longrightarrow> world_grows w w' \<Longrightarrow> poll_ok tf w' pc"
  using world_grows_contents [of w w']
  by (cases pc) (auto simp: poll_ok_def world_grows_def confirmed_claim_def)

text \<open>A statement that rewrites rows one by one keeps the table correct if it keeps each row correct.\<close>

lemma table_inv_update:
  assumes "table_inv tf maxf w" "keeps_content f"
    and "\<And>r. r \<in> set (ow_table w) \<Longrightarrow> P r \<Longrightarrow> row_ok tf maxf (set (ow_sent w)) r \<Longrightarrow> row_ok tf maxf (set (ow_sent w)) (f r)"
    and "ow_sent w' = ow_sent w" "ow_table w' = update_rows P f (ow_table w)"
  shows "table_inv tf maxf w' \<and> world_grows w w'"
proof -
  have c: "map row_content (ow_table w') = map row_content (ow_table w)" using assms(2,5) by (simp add: update_rows_content)
  then have "map ob_id (ow_table w') = map ob_id (ow_table w)" by (auto simp: list_eq_iff_nth_eq row_content_def)
  with assms c show ?thesis by (auto simp: table_inv_def world_grows_def in_update_rows)
qed

lemma table_inv_same:
  "table_inv tf maxf w \<Longrightarrow> ow_sent w' = ow_sent w \<Longrightarrow> ow_table w' = ow_table w \<Longrightarrow> table_inv tf maxf w' \<and> world_grows w w'"
  by (simp add: table_inv_def world_grows_def)

lemma ob_step_eq:
  "ob_step env f w = (r, w') \<Longrightarrow> ow_sent w' = ow_sent w \<and> ow_tick w' = Suc (ow_tick w) \<and>
   f (oe_fault env (ow_tick w)) (oe_now env (ow_tick w)) (ow_table w) = (r, ow_table w')"
  by (auto simp: ob_step_def split: prod.splits)

lemma outbox_fetch_inv:
  assumes "table_inv tf maxf w"
    and "ob_step env (\<lambda>f n. fetch_pending_batch f n locked limit) w = (res, w')"
  shows "table_inv tf maxf w' \<and> world_grows w w' \<and>
    (\<forall>rows. res = Inr rows \<longrightarrow> (\<forall>c \<in> set rows. claim_content c \<in> row_content ` set (ow_table w')))"
proof (cases res)
  case (Inl e)
  with ob_step_eq [OF assms(2)] have "ow_table w' = ow_table w" "ow_sent w' = ow_sent w"
    by (auto simp: fetch_pending_batch_def Let_def split: option.splits if_splits)
  with table_inv_same [OF assms(1)] Inl show ?thesis by simp
next
  case (Inr rows)
  note st = ob_step_eq [OF assms(2)]
  let ?rows = "pending_batch locked (nat limit) (ow_table w)"
  let ?f = "\<lambda>r. r\<lparr>ob_status := ObInProgress, ob_locked_at := Some (oe_now env (ow_tick w))\<rparr>"
  from st Inr have t: "rows = map claim_of ?rows"
    "ow_table w' = update_rows (\<lambda>r. ob_id r \<in> set (map ob_id ?rows) \<and> ob_status r = ObPending) ?f (ow_table w)"
    by (auto simp: fetch_pending_batch_def Let_def split: option.splits if_splits)
  have inv: "table_inv tf maxf w' \<and> world_grows w w'"
    by (rule table_inv_update [OF assms(1) _ _ _ t(2)]) (use st in \<open>auto simp: row_ok_def\<close>)
  have "set ?rows \<subseteq> set (ow_table w)" by (auto simp: pending_batch_def dest: in_set_takeD)
  then have "claim_content c \<in> row_content ` set (ow_table w)" if "c \<in> set rows" for c using that t(1) by auto
  with inv world_grows_contents [of w w'] Inr show ?thesis by auto
qed

lemma outbox_publish_inv:
  assumes "table_inv tf maxf w" "oe_formats env = tf" "publish_row env row w = (res, w')"
  shows "table_inv tf maxf w' \<and> world_grows w w' \<and> (res = Ok () \<longrightarrow> confirmed_claim tf (set (ow_sent w')) row)"
proof -
  have "table_inv tf maxf (w\<lparr>ow_sent := ow_sent w @ [m], ow_tick := n\<rparr>) \<and> world_grows w (w\<lparr>ow_sent := ow_sent w @ [m], ow_tick := n\<rparr>)" for m n
    using assms(1) by (auto simp: table_inv_def world_grows_def intro: row_ok_mono)
  with assms show ?thesis
    by (auto simp: publish_row_def publish_def Let_def confirmed_claim_def split: sum.splits if_splits)
qed

lemma claim_row:
  assumes "table_inv tf maxf w" "claim_content c \<in> row_content ` set (ow_table w)" "r \<in> set (ow_table w)" "ob_id r = or_id c"
  shows "outbox_event tf c = outbox_event tf (claim_of r)"
proof -
  obtain r0 where r0: "r0 \<in> set (ow_table w)" "row_content r0 = claim_content c" using assms(2) by force
  then have "ob_id r0 = ob_id r" using assms(4) by (simp add: row_content_def claim_content_def)
  then have "r0 = r" using assms(1,3) r0(1) by (auto simp: table_inv_def distinct_map inj_on_def)
  with r0(2) show ?thesis by (intro outbox_event_content) simp
qed

lemma outbox_mark_inv:
  assumes inv: "table_inv tf maxf w" and ok: "poll_ok tf w (Marking row rows)" and mark: "mark_row env row w = (res, w')"
  shows "table_inv tf maxf w' \<and> world_grows w w'"
proof -
  note eq = ob_step_eq [OF mark [unfolded mark_row_def]]
  show ?thesis
  proof (cases "oe_fault env (ow_tick w)")
    case (Some e)
    with eq table_inv_same [OF inv] show ?thesis by (simp add: mark_published_def)
  next
    case None
    let ?f = "\<lambda>r. r\<lparr>ob_status := ObPublished, ob_published_at := Some (oe_now env (ow_tick w)), ob_locked_at := None\<rparr>"
    from None have t: "ow_table w' = update_rows (\<lambda>r. ob_id r = or_id row \<and> ob_status r = ObInProgress) ?f (ow_table w)"
      using eq by (simp add: mark_published_def)
    show ?thesis
    proof (rule table_inv_update [OF inv _ _ _ t])
      fix r assume r: "r \<in> set (ow_table w)" "ob_id r = or_id row \<and> ob_status r = ObInProgress" "row_ok tf maxf (set (ow_sent w)) r"
      have "outbox_event tf (claim_of r) = outbox_event tf row"
        using claim_row [OF inv _ r(1)] r(2) ok by (simp add: poll_ok_def)
      moreover have "claim_of (?f r) = claim_of r" by (simp add: claim_of_def)
      ultimately show "row_ok tf maxf (set (ow_sent w)) (?f r)"
        using r ok by (auto simp: row_ok_def poll_ok_def confirmed_claim_def)
    qed (use eq in simp_all)
  qed
qed

lemma record_failure_inv:
  assumes "table_inv tf maxf w" "ob_step env (\<lambda>f _. record_publish_failure f i maxf) w = (res, w')"
  shows "table_inv tf maxf w' \<and> world_grows w w'"
proof (cases "ow_table w' = ow_table w")
  case True
  with ob_step_eq [OF assms(2)] show ?thesis by (intro table_inv_same [OF assms(1)]) auto
next
  case False
  with ob_step_eq [OF assms(2)] have t: "ow_table w' = update_rows (\<lambda>r. ob_id r = i) (failure_update maxf) (ow_table w)"
    by (auto simp: record_publish_failure_def split: option.splits if_splits)
  show ?thesis
    by (rule table_inv_update [OF assms(1) _ _ _ t]) (use ob_step_eq [OF assms(2)] in \<open>auto simp: row_ok_def failure_update_def\<close>)
qed

lemma outbox_reap_inv:
  assumes "table_inv tf maxf w" "ob_step env (\<lambda>f n. reap_stale_in_progress f n timeout) w = (res, w')"
  shows "table_inv tf maxf w' \<and> world_grows w w'"
proof (cases "oe_fault env (ow_tick w)")
  case (Some e)
  with ob_step_eq [OF assms(2)] show ?thesis
    by (intro table_inv_same [OF assms(1)]) (auto simp: reap_stale_in_progress_def)
next
  case None
  with ob_step_eq [OF assms(2)] have t: "ow_table w' = update_rows (stale_in_progress (oe_now env (ow_tick w)) timeout)
      (\<lambda>r. r\<lparr>ob_status := ObPending, ob_locked_at := None\<rparr>) (ow_table w)"
    by (simp add: reap_stale_in_progress_def)
  show ?thesis
    by (rule table_inv_update [OF assms(1) _ _ _ t]) (use ob_step_eq [OF assms(2)] in \<open>auto simp: row_ok_def\<close>)
qed

text \<open>Whatever control point a poll is at, its next interaction keeps the table correct and itself in order.\<close>

lemma poll_step_inv:
  assumes "table_inv tf maxf w" "poll_ok tf w pc" "oe_formats env = tf" "oc_max_publish_failures cfg = maxf"
    and "poll_step env cfg (pc, w) = (pc', w')"
  shows "table_inv tf maxf w' \<and> world_grows w w' \<and> poll_ok tf w' pc'"
proof (cases pc)
  case Fetching
  obtain res w1 where 1: "ob_step env (\<lambda>f n. fetch_pending_batch f n (oe_locked env (ow_tick w)) (oc_batch_size cfg)) w = (res, w1)"
    by fastforce
  with assms(5) Fetching have "w' = w1" "\<forall>c \<in> set (poll_rows pc'). \<exists>rows. res = Inr rows \<and> c \<in> set rows" "\<forall>row rows. pc' \<noteq> Marking row rows"
    by (auto simp: set_insort_key split: sum.splits list.splits)
  moreover from calculation outbox_fetch_inv [OF assms(1) 1] have "\<forall>c \<in> set (poll_rows pc'). claim_content c \<in> row_content ` set (ow_table w')"
    by blast
  ultimately show ?thesis using outbox_fetch_inv [OF assms(1) 1] by (auto simp: poll_ok_def split: poll_pc.split)
next
  case (Publishing rows)
  show ?thesis
  proof (cases rows)
    case Nil
    with assms Publishing show ?thesis by (auto simp: poll_ok_def)
  next
    case (Cons row rows')
    obtain res w1 where 1: "publish_row env row w = (res, w1)" by fastforce
    from outbox_publish_inv [OF assms(1,3) 1] have w1: "table_inv tf maxf w1" "world_grows w w1" "res = Ok () \<Longrightarrow> confirmed_claim tf (set (ow_sent w1)) row"
      by auto
    with poll_ok_grows [OF assms(2) w1(2)] assms(5) Publishing Cons 1 show ?thesis
      by (auto simp: poll_ok_def split: sum.splits)
  qed
next
  case (Marking row rows)
  obtain res w1 where 1: "mark_row env row w = (res, w1)" by fastforce
  from outbox_mark_inv [OF assms(1) assms(2) [unfolded Marking] 1] poll_ok_grows [OF assms(2), of w1] assms(5) Marking 1 show ?thesis
    by (auto simp: poll_ok_def split: sum.splits)
next
  case (Recording e row rows)
  obtain res w1 where 1: "ob_step env (\<lambda>fault _. record_publish_failure fault (or_id row) maxf) w = (res, w1)" by fastforce
  from record_failure_inv [OF assms(1) 1] poll_ok_grows [OF assms(2), of w1] assms(4,5) Recording 1 show ?thesis
    by (auto simp: poll_ok_def)
next
  case (Checking e rows)
  with assms show ?thesis by (auto simp: poll_ok_def table_inv_def world_grows_def split: if_splits)
next
  case (Polled res)
  with assms show ?thesis by simp
qed

lemma system_step_inv: "system_step tf maxf s s' \<Longrightarrow> system_inv tf maxf s \<Longrightarrow> system_inv tf maxf s'"
proof (induction rule: system_step.induct)
  case (business_insert r w ps)
  have "world_grows w (w\<lparr>ow_table := ow_table w @ [r]\<rparr>)" by (simp add: world_grows_def)
  with business_insert poll_ok_grows show ?case by (fastforce simp: system_inv_def table_inv_def row_ok_def)
next
  case (poll_advances env cfg pc w pc' w' ps qs)
  then have "table_inv tf maxf w' \<and> world_grows w w' \<and> poll_ok tf w' pc'"
    by (intro poll_step_inv [of tf maxf w pc env cfg pc' w']) (auto simp: system_inv_def)
  with poll_advances.prems poll_ok_grows show ?case by (fastforce simp: system_inv_def)
next
  case (reaper env timeout w res w' ps)
  with outbox_reap_inv [OF _ reaper.hyps] poll_ok_grows show ?case by (fastforce simp: system_inv_def)
qed (auto simp: system_inv_def poll_ok_def)

lemma system_reachable_inv: "system_reachable tf maxf s \<Longrightarrow> system_inv tf maxf s"
  unfolding system_reachable_def
proof (induction rule: rtranclp_induct)
  case base
  show ?case by (simp add: system_inv_def empty_system_def table_inv_def)
qed (blast dest: system_step_inv)

section \<open>Evolution of the table\<close>

definition table_evolves :: "int \<Rightarrow> outbox_table \<Rightarrow> outbox_table \<Rightarrow> bool" where
  "table_evolves maxf db db' \<longleftrightarrow>
     (\<exists>new. map row_content db' = map row_content db @ new) \<and>
     (\<forall>r \<in> set db. ob_status r = ObFailed \<and> maxf \<le> ob_fail_count r \<longrightarrow>
        (\<exists>r' \<in> set db'. row_content r' = row_content r \<and> ob_status r' = ObFailed \<and> maxf \<le> ob_fail_count r'))"

lemma table_evolves_refl [simp]: "table_evolves maxf db db"
  by (auto simp: table_evolves_def)

lemma table_evolves_trans: "table_evolves maxf a b \<Longrightarrow> table_evolves maxf b c \<Longrightarrow> table_evolves maxf a c"
  unfolding table_evolves_def by (metis append_assoc)

lemma table_evolves_append: "table_evolves maxf db (db @ [r])"
  by (auto simp: table_evolves_def)

lemma table_evolves_update:
  assumes "keeps_content f"
    and "\<And>r. P r \<Longrightarrow> ob_status r = ObFailed \<Longrightarrow> maxf \<le> ob_fail_count r \<Longrightarrow> ob_status (f r) = ObFailed \<and> maxf \<le> ob_fail_count (f r)"
  shows "table_evolves maxf db (update_rows P f db)"
proof -
  have "\<exists>r' \<in> set (update_rows P f db). row_content r' = row_content r \<and> ob_status r' = ObFailed \<and> maxf \<le> ob_fail_count r'"
    if "r \<in> set db" "ob_status r = ObFailed" "maxf \<le> ob_fail_count r" for r
    using that assms by (intro bexI [of _ "if P r then f r else r"]) (auto simp: in_update_rows keeps_content_def)
  then show ?thesis using update_rows_content [OF assms(1)] by (auto simp: table_evolves_def)
qed

lemma outbox_ops_evolve:
  "table_evolves maxf db (snd (fetch_pending_batch fault now locked limit db))"
  "table_evolves maxf db (snd (mark_published fault now i db))"
  "table_evolves maxf db (snd (record_publish_failure fault i maxf db))"
  "table_evolves maxf db (snd (reap_stale_in_progress fault now timeout db))"
  by (auto simp: fetch_pending_batch_def mark_published_def record_publish_failure_def reap_stale_in_progress_def
      Let_def failure_update_def stale_in_progress_def split: option.splits intro!: table_evolves_update)

lemma ob_step_evolves:
  "ob_step env f w = (r, w') \<Longrightarrow> (\<And>fault now db. table_evolves maxf db (snd (f fault now db))) \<Longrightarrow> table_evolves maxf (ow_table w) (ow_table w')"
  using ob_step_eq by (metis snd_conv)

lemma publish_row_table: "publish_row env row w = (res, w') \<Longrightarrow> ow_table w' = ow_table w"
  by (auto simp: publish_row_def publish_def Let_def split: sum.splits if_splits)

lemma mark_row_evolves: "mark_row env row w = (res, w') \<Longrightarrow> table_evolves maxf (ow_table w) (ow_table w')"
  unfolding mark_row_def by (erule ob_step_evolves) (rule outbox_ops_evolve)

lemma poll_step_evolves:
  assumes "poll_step env cfg (pc, w) = (pc', w')" "oc_max_publish_failures cfg = maxf"
  shows "table_evolves maxf (ow_table w) (ow_table w')"
proof (cases pc)
  case Fetching
  with assms obtain res where "ob_step env (\<lambda>f n. fetch_pending_batch f n (oe_locked env (ow_tick w)) (oc_batch_size cfg)) w = (res, w')"
    by (auto split: sum.splits list.splits prod.splits)
  then show ?thesis by (rule ob_step_evolves) (rule outbox_ops_evolve)
next
  case (Publishing rows)
  with assms publish_row_table show ?thesis by (cases rows) (auto split: sum.splits prod.splits)
next
  case (Marking row rows)
  with assms mark_row_evolves [of env row w] show ?thesis by (auto split: sum.splits prod.splits)
next
  case (Recording e row rows)
  with assms obtain res where "ob_step env (\<lambda>f _. record_publish_failure f (or_id row) maxf) w = (res, w')"
    by (auto split: prod.splits)
  then show ?thesis by (rule ob_step_evolves) (rule outbox_ops_evolve)
qed (use assms in \<open>auto split: if_splits\<close>)

lemma system_step_evolves: "system_step tf maxf s s' \<Longrightarrow> table_evolves maxf (ow_table (os_world s)) (ow_table (os_world s'))"
  by (induction rule: system_step.induct)
    (auto intro: table_evolves_append poll_step_evolves ob_step_evolves outbox_ops_evolve)

lemma system_steps_evolve: "(system_step tf maxf)\<^sup>*\<^sup>* s s' \<Longrightarrow> table_evolves maxf (ow_table (os_world s)) (ow_table (os_world s'))"
  by (induction rule: rtranclp_induct) (auto intro: table_evolves_trans system_step_evolves)

section \<open>Properties\<close>

text \<open>
  C6. Published means confirmed: in every state that workers, reapers, crashes and the business
  service can reach together, a row marked published has a message that the broker confirmed
  positively, and that message carries the event built from this very row.
\<close>

theorem published_events_were_confirmed:
  assumes "system_reachable tf maxf s" "r \<in> set (ow_table (os_world s))" "ob_status r = ObPublished"
  shows "\<exists>e. outbox_event tf (claim_of r) = Ok e \<and> ne_event_id e = ob_event_id r \<and>
    (ob_id r, enc_event tf e, Confirmed ConfirmAck) \<in> set (ow_sent (os_world s))"
proof -
  from system_reachable_inv [OF assms(1)] assms(2,3) obtain e where
    e: "outbox_event tf (claim_of r) = Ok e" "(ob_id r, enc_event tf e, Confirmed ConfirmAck) \<in> set (ow_sent (os_world s))"
    by (auto simp: system_inv_def table_inv_def row_ok_def)
  moreover have "ne_event_id e = ob_event_id r"
    using e(1) by (auto simp: outbox_event_def Let_def claim_of_def split: sum.splits)
  ultimately show ?thesis by blast
qed

section \<open>A concrete run\<close>

definition sample_row :: outbox_row where
  "sample_row =
     \<lparr>ob_id = ''o1'', ob_event_id = ''e1'', ob_event_type = ''T'',
      ob_payload = JObj [(''recipient'', JObj [(''email'', JStr ''a@x.org'')])], ob_status = ObPending, ob_fail_count = 0,
      ob_created_at = 7, ob_published_at = None, ob_locked_at = None\<rparr>"

definition calm_env :: "datetime \<Rightarrow> outbox_env" where
  "calm_env t = \<lparr>oe_formats = sample_formats, oe_fault = (\<lambda>_. None), oe_now = (\<lambda>_. t), oe_locked = (\<lambda>_. {}),
     oe_publish = (\<lambda>_ _. Confirmed ConfirmAck), oe_connected = (\<lambda>_. True)\<rparr>"

definition claimed :: "datetime \<Rightarrow> outbox_row" where
  "claimed t = sample_row\<lparr>ob_status := ObInProgress, ob_locked_at := Some t\<rparr>"

definition published :: "datetime \<Rightarrow> outbox_row" where
  "published t = sample_row\<lparr>ob_status := ObPublished, ob_published_at := Some t\<rparr>"

definition sample_body :: json where
  "sample_body = (case outbox_event sample_formats (claim_of sample_row) of Inr e \<Rightarrow> enc_event sample_formats e | Inl _ \<Rightarrow> JNull)"

abbreviation sys :: "outbox_table \<Rightarrow> (uuid \<times> json \<times> publish_reply) list \<Rightarrow> nat \<Rightarrow> poll_pc list \<Rightarrow> outbox_system" where
  "sys db sent n ps \<equiv> \<lparr>os_world = \<lparr>ow_table = db, ow_sent = sent, ow_tick = n\<rparr>, os_polls = ps\<rparr>"

abbreviation sample_claim :: OutboxRow where
  "sample_claim \<equiv> claim_of sample_row"

abbreviation sample_cfg :: OutboxConfig where
  "sample_cfg \<equiv> outbox_config_default"

lemma sample_max [simp]: "oc_max_publish_failures sample_cfg = 5" "oe_formats (calm_env t) = sample_formats"
  by (simp_all add: outbox_config_default_def calm_env_def)

lemma sample_insert: "system_reachable sample_formats 5 (sys [sample_row] [] 0 [])"
  using business_insert [of sample_row "\<lparr>ow_table = [], ow_sent = [], ow_tick = 0\<rparr>" sample_formats 5 "[]"]
  by (simp add: system_reachable_def empty_system_def sample_row_def r_into_rtranclp)

text \<open>One poll of the run moves on.\<close>

lemma sample_advance:
  assumes "poll_step env sample_cfg (pc, \<lparr>ow_table = db, ow_sent = sent, ow_tick = n\<rparr>) = (pc', \<lparr>ow_table = db', ow_sent = sent', ow_tick = n'\<rparr>)"
    and "oe_formats env = sample_formats" "system_reachable sample_formats 5 (sys db sent n (ps @ pc # qs))"
  shows "system_reachable sample_formats 5 (sys db' sent' n' (ps @ pc' # qs))"
  using system_reachable_step [OF assms(3) poll_advances [OF assms(2) sample_max(1) assms(1)]] .

lemma sample_begin: "system_reachable tf maxf (sys db sent n ps) \<Longrightarrow> system_reachable tf maxf (sys db sent n (ps @ [Fetching]))"
  using system_reachable_step [OF _ poll_begins [of tf maxf _ ps "[]"]] by simp

lemma sample_fetch:
  "poll_step (calm_env t) sample_cfg (Fetching, \<lparr>ow_table = [sample_row], ow_sent = s, ow_tick = n\<rparr>) =
     (Publishing [sample_claim], \<lparr>ow_table = [claimed t], ow_sent = s, ow_tick = Suc n\<rparr>)"
  by (simp add: ob_step_def calm_env_def fetch_pending_batch_def pending_batch_def update_rows_def sample_row_def claimed_def
      outbox_config_default_def)

lemma sample_reap: "system_step tf maxf (sys [claimed 0] s n ps) (sys [sample_row] s (Suc n) ps)"
  by (rule reaper [of "calm_env 2000000000" 1])
    (simp add: ob_step_def calm_env_def reap_stale_in_progress_def stale_in_progress_def update_rows_def sample_row_def claimed_def)

lemma sample_event_ok: "\<exists>e. outbox_event sample_formats sample_claim = Ok e"
  by (simp add: outbox_event_def claim_of_def sample_row_def promote_recipients_def dec_recipient_def map_slot_def Let_def)

lemma sample_claim_id: "or_id sample_claim = ''o1''"
  by (simp add: claim_of_def sample_row_def)

lemma sample_publish:
  "poll_step (calm_env t) sample_cfg (Publishing [sample_claim], \<lparr>ow_table = db, ow_sent = s, ow_tick = n\<rparr>) =
     (Marking sample_claim [], \<lparr>ow_table = db, ow_sent = s @ [(''o1'', sample_body, Confirmed ConfirmAck)], ow_tick = Suc n\<rparr>)"
  using sample_event_ok sample_claim_id by (auto simp: publish_row_def publish_def Let_def calm_env_def sample_body_def)

lemma sample_mark:
  "poll_step (calm_env t) sample_cfg (Marking sample_claim [], \<lparr>ow_table = [claimed l], ow_sent = s, ow_tick = n\<rparr>) =
     (Publishing [], \<lparr>ow_table = [published t], ow_sent = s, ow_tick = Suc n\<rparr>)"
  using sample_claim_id by (simp add: mark_row_def ob_step_def calm_env_def mark_published_def update_rows_def claimed_def published_def sample_row_def)

text \<open>Worker A claims the row and stalls; the reaper frees it; worker B claims it, publishes it and marks it.\<close>

lemma sample_run:
  "system_reachable sample_formats 5
     (sys [published 5] [(''o1'', sample_body, Confirmed ConfirmAck)] 5 [Publishing [sample_claim], Publishing []])"
proof -
  from sample_advance [OF sample_fetch _ sample_begin [OF sample_insert], of 0]
  have "system_reachable sample_formats 5 (sys [claimed 0] [] 1 [Publishing [sample_claim]])" by simp
  from sample_begin [OF system_reachable_step [OF this sample_reap]]
  have "system_reachable sample_formats 5 (sys [sample_row] [] 2 ([Publishing [sample_claim]] @ [Fetching]))" by (simp add: numeral_2_eq_2)
  from sample_advance [OF sample_fetch _ this, of 3]
  have "system_reachable sample_formats 5 (sys [claimed 3] [] 3 ([Publishing [sample_claim]] @ [Publishing [sample_claim]]))" by (simp add: numeral_3_eq_3)
  from sample_advance [OF sample_publish _ this, of 3]
  have "system_reachable sample_formats 5 (sys [claimed 3] [(''o1'', sample_body, Confirmed ConfirmAck)] 4 ([Publishing [sample_claim]] @ [Marking sample_claim []]))"
    by simp
  from sample_advance [OF sample_mark _ this, of 5] show ?thesis by simp
qed

theorem published_events_were_confirmed_witness:
  "system_reachable sample_formats 5
     (sys [published 5] [(''o1'', sample_body, Confirmed ConfirmAck)] 5 [Publishing [sample_claim], Publishing []]) \<and>
   (\<exists>e. outbox_event sample_formats (claim_of (published 5)) = Ok e \<and> ne_event_id e = ''e1'' \<and> sample_body = enc_event sample_formats e)"
  using published_events_were_confirmed [OF sample_run, of "published 5"] sample_run
  by (auto simp: published_def sample_row_def)

text \<open>
  C14. Nothing is lost: from a reachable state on, every row stays in the table with the content
  that the business service wrote, rows are only added, and a row that has
  failed for good stays failed, with its attempts used up.
\<close>

theorem outbox_keeps_events:
  assumes "system_reachable tf maxf s" "(system_step tf maxf)\<^sup>*\<^sup>* s s'"
  shows "(\<exists>new. map row_content (ow_table (os_world s')) = map row_content (ow_table (os_world s)) @ new) \<and>
    (\<forall>r \<in> set (ow_table (os_world s)). ob_status r = ObFailed \<longrightarrow>
       maxf \<le> ob_fail_count r \<and> (\<exists>r' \<in> set (ow_table (os_world s')). row_content r' = row_content r \<and> ob_status r' = ObFailed))"
  using system_steps_evolve [OF assms(2)] system_reachable_inv [OF assms(1)]
  by (fastforce simp: table_evolves_def system_inv_def table_inv_def row_ok_def)

theorem outbox_keeps_events_witness:
  "\<exists>s. system_reachable sample_formats 5 s \<and> map row_content (ow_table (os_world s)) = [row_content sample_row] \<and>
     map ob_status (ow_table (os_world s)) = [ObInProgress]"
proof -
  let ?s = "sys [claimed 0] [] 1 [Publishing [sample_claim]]"
  have "system_step sample_formats 5 (sys [sample_row] [] 0 []) (sys [sample_row] [] 0 [Fetching])"
    using poll_begins [of sample_formats 5 _ "[]" "[]"] by simp
  moreover have "system_step sample_formats 5 (sys [sample_row] [] 0 [Fetching]) ?s"
    using poll_advances [OF sample_max(2) sample_max(1) sample_fetch [of 0 "[]" 0], of "[]" "[]"] by simp
  ultimately have step: "(system_step sample_formats 5)\<^sup>*\<^sup>* (sys [sample_row] [] 0 []) ?s" by (meson converse_rtranclp_into_rtranclp rtranclp.rtrancl_refl)
  have "map row_content [claimed 0] = map row_content [sample_row] @ new \<Longrightarrow> new = []" for new by (cases new) auto
  with outbox_keeps_events [OF sample_insert step] have "map row_content [claimed 0] = [row_content sample_row]" by auto
  moreover have "ob_status (claimed 0) = ObInProgress" by (simp add: claimed_def)
  ultimately show ?thesis using system_reachable_steps [OF sample_insert step] by (intro exI [of _ ?s]) simp
qed

section \<open>A publish that fails late\<close>

text \<open>An environment in which the database and the broker answer and only the given rows are locked by others.\<close>

definition helpful_env :: "text_formats \<Rightarrow> uuid set \<Rightarrow> outbox_env" where
  "helpful_env tf L = \<lparr>oe_formats = tf, oe_fault = (\<lambda>_. None), oe_now = (\<lambda>_. 0), oe_locked = (\<lambda>_. L),
     oe_publish = (\<lambda>_ _. Confirmed ConfirmAck), oe_connected = (\<lambda>_. True)\<rparr>"

lemma distinct_filter_single: "distinct xs \<Longrightarrow> x \<in> set xs \<Longrightarrow> filter (\<lambda>y. y = x) xs = [x]"
  by (induction xs) (auto simp: filter_empty_conv)

text \<open>Three interactions publish one pending row.\<close>

lemma pending_row_published:
  assumes "table_inv tf maxf w" "r \<in> set (ow_table w)" "ob_status r = ObPending" "outbox_event tf (claim_of r) = Ok e"
  shows "\<exists>s' r'. (system_step tf maxf)\<^sup>*\<^sup>* \<lparr>os_world = w, os_polls = ps\<rparr> s' \<and>
    ow_sent (os_world s') = ow_sent w @ [(ob_id r, enc_event tf e, Confirmed ConfirmAck)] \<and>
    r' \<in> set (ow_table (os_world s')) \<and> row_content r' = row_content r \<and> ob_status r' = ObPublished"
proof -
  let ?env = "helpful_env tf (ob_id ` set (ow_table w) - {ob_id r})"
  let ?cfg = "outbox_config_default\<lparr>oc_batch_size := 1, oc_max_publish_failures := maxf\<rparr>"
  let ?f = "\<lambda>r. r\<lparr>ob_status := ObInProgress, ob_locked_at := Some 0\<rparr>"
  let ?g = "\<lambda>r. r\<lparr>ob_status := ObPublished, ob_published_at := Some 0, ob_locked_at := None\<rparr>"
  let ?db1 = "update_rows (\<lambda>x. ob_id x = ob_id r \<and> ob_status x = ObPending) ?f (ow_table w)"
  let ?db2 = "update_rows (\<lambda>x. ob_id x = ob_id r \<and> ob_status x = ObInProgress) ?g ?db1"
  let ?w1 = "w\<lparr>ow_table := ?db1, ow_tick := Suc (ow_tick w)\<rparr>"
  let ?w2 = "?w1\<lparr>ow_sent := ow_sent w @ [(ob_id r, enc_event tf e, Confirmed ConfirmAck)], ow_tick := Suc (Suc (ow_tick w))\<rparr>"
  let ?w3 = "?w2\<lparr>ow_table := ?db2, ow_tick := Suc (Suc (Suc (ow_tick w)))\<rparr>"
  have only: "x = r" if "x \<in> set (ow_table w)" "ob_id x = ob_id r" for x
    using assms(1,2) that by (auto simp: table_inv_def distinct_map inj_on_def)
  have d: "distinct (ow_table w)" using assms(1) by (simp add: table_inv_def distinct_map)
  have "filter (\<lambda>x. ob_status x = ObPending \<and> ob_id x \<notin> ob_id ` set (ow_table w) - {ob_id r}) (ow_table w) = filter (\<lambda>x. x = r) (ow_table w)"
    using only assms(3) by (intro filter_cong) auto
  then have "pending_batch (ob_id ` set (ow_table w) - {ob_id r}) 1 (ow_table w) = [r]"
    using distinct_filter_single [OF d assms(2)] by (simp add: pending_batch_def)
  then have 1: "poll_step ?env ?cfg (Fetching, w) = (Publishing [claim_of r], ?w1)"
    by (simp add: helpful_env_def ob_step_def fetch_pending_batch_def Let_def)
  have 2: "poll_step ?env ?cfg (Publishing [claim_of r], ?w1) = (Marking (claim_of r) [], ?w2)"
    using assms(4) by (simp add: helpful_env_def publish_row_def publish_def Let_def claim_of_def)
  have 3: "poll_step ?env ?cfg (Marking (claim_of r) [], ?w2) = (Publishing [], ?w3)"
    by (simp add: helpful_env_def mark_row_def ob_step_def mark_published_def claim_of_def)
  have f: "oe_formats ?env = tf" "oc_max_publish_failures ?cfg = maxf" by (simp_all add: helpful_env_def)
  have "system_step tf maxf \<lparr>os_world = w, os_polls = ps\<rparr> \<lparr>os_world = w, os_polls = ps @ [Fetching]\<rparr>"
    using poll_begins [of tf maxf w ps "[]"] by simp
  note steps = this poll_advances [OF f 1, of ps "[]"] poll_advances [OF f 2, of ps "[]"] poll_advances [OF f 3, of ps "[]"]
  have "(system_step tf maxf)\<^sup>*\<^sup>* \<lparr>os_world = w, os_polls = ps\<rparr> \<lparr>os_world = ?w3, os_polls = ps @ [Publishing []]\<rparr>"
    using steps by (meson converse_rtranclp_into_rtranclp rtranclp.rtrancl_refl)
  moreover have "?g (?f r) \<in> set ?db2" using assms(2,3) by (intro update_rows_hit) simp_all
  ultimately show ?thesis
    by (intro exI [of _ "\<lparr>os_world = ?w3, os_polls = ps @ [Publishing []]\<rparr>"] exI [of _ "?g (?f r)"]) (simp add: row_content_def)
qed

text \<open>
  C28. A published event is reopened and sent again: take any state that the workers can reach in which one poll is about
  to record a failed publish of a row that another poll has published meanwhile (the first worker stalled, the reaper freed its
  claim). The broker has confirmed the row's event already; yet when the database answers, the poll's next interaction makes the same row pending again, with one
  more failure, because the statement does not check that the row is still in progress; and a poll
  that then finds it publishes the same event a second time.
\<close>

theorem published_row_reopened:
  assumes "system_reachable tf maxf s" "os_polls s = ps @ Recording err c rows # qs"
    and "r \<in> set (ow_table (os_world s))" "ob_id r = or_id c" "ob_status r = ObPublished"
    and "ob_fail_count r + 1 < maxf" "maxf \<le> 2147483647"
    and "oe_formats env = tf" "oc_max_publish_failures cfg = maxf" "oe_fault env (ow_tick (os_world s)) = None"
  shows "\<exists>e w1 r1 s2 r2. outbox_event tf (claim_of r) = Ok e \<and>
    (ob_id r, enc_event tf e, Confirmed ConfirmAck) \<in> set (ow_sent (os_world s)) \<and>
    poll_step env cfg (Recording err c rows, os_world s) = (Checking err rows, w1) \<and>
    r1 \<in> set (ow_table w1) \<and> row_content r1 = row_content r \<and> ob_status r1 = ObPending \<and> ob_fail_count r1 = ob_fail_count r + 1 \<and>
    (system_step tf maxf)\<^sup>*\<^sup>* \<lparr>os_world = w1, os_polls = ps @ Checking err rows # qs\<rparr> s2 \<and>
    ow_sent (os_world s2) = ow_sent (os_world s) @ [(ob_id r, enc_event tf e, Confirmed ConfirmAck)] \<and>
    r2 \<in> set (ow_table (os_world s2)) \<and> row_content r2 = row_content r \<and> ob_status r2 = ObPublished"
proof -
  let ?w = "os_world s"
  have inv: "table_inv tf maxf ?w" "poll_ok tf ?w (Recording err c rows)"
    using system_reachable_inv [OF assms(1)] assms(2) by (auto simp: system_inv_def)
  from inv(1) assms(3,5) obtain e where e: "outbox_event tf (claim_of r) = Ok e" "(ob_id r, enc_event tf e, Confirmed ConfirmAck) \<in> set (ow_sent ?w)"
    by (auto simp: table_inv_def row_ok_def)
  have only: "x = r" if "x \<in> set (ow_table ?w)" "ob_id x = or_id c" for x
    using inv(1) assms(3,4) that by (auto simp: table_inv_def distinct_map inj_on_def)
  define w1 where "w1 = ?w\<lparr>ow_table := update_rows (\<lambda>x. ob_id x = or_id c) (failure_update maxf) (ow_table ?w), ow_tick := Suc (ow_tick ?w)\<rparr>"
  let ?r1 = "failure_update maxf r"
  have "\<not> (\<exists>x \<in> set (ow_table ?w). ob_id x = or_id c \<and> ob_fail_count x + 1 > 2147483647)" using only assms(6,7) by fastforce
  then have step: "poll_step env cfg (Recording err c rows, ?w) = (Checking err rows, w1)"
    using assms(3,4,9,10) by (auto simp: ob_step_def record_publish_failure_def w1_def)
  have "?r1 \<in> set (ow_table w1)" using assms(3,4) by (simp add: w1_def update_rows_hit)
  then have r1: "?r1 \<in> set (ow_table w1)" "row_content ?r1 = row_content r" "ob_status ?r1 = ObPending" "ob_fail_count ?r1 = ob_fail_count r + 1"
    "claim_content (claim_of ?r1) = claim_content (claim_of r)" "ob_id ?r1 = ob_id r"
    using assms(6) by (simp_all add: failure_update_def row_content_def)
  have "table_inv tf maxf w1" using poll_step_inv [OF inv assms(8,9) step] by simp
  moreover have "outbox_event tf (claim_of ?r1) = Ok e" using e(1) outbox_event_content [OF r1(5)] by simp
  ultimately obtain s2 r2 where "(system_step tf maxf)\<^sup>*\<^sup>* \<lparr>os_world = w1, os_polls = ps @ Checking err rows # qs\<rparr> s2"
    "ow_sent (os_world s2) = ow_sent w1 @ [(ob_id r, enc_event tf e, Confirmed ConfirmAck)]"
    "r2 \<in> set (ow_table (os_world s2))" "row_content r2 = row_content ?r1" "ob_status r2 = ObPublished"
    using pending_row_published [of tf maxf w1 ?r1 e] r1 by metis
  with e step r1 show ?thesis
    by (intro exI [of _ e] exI [of _ w1] exI [of _ ?r1] exI [of _ s2] exI [of _ r2]) (simp add: w1_def)
qed

text \<open>Worker A, which stalled since its claim, now has its publish refused: the broker has the message of worker B already.\<close>

definition nack_env :: outbox_env where
  "nack_env = (calm_env 6)\<lparr>oe_publish := (\<lambda>_ _. Confirmed ConfirmNack)\<rparr>"

abbreviation two_messages :: "(uuid \<times> json \<times> publish_reply) list" where
  "two_messages \<equiv> [(''o1'', sample_body, Confirmed ConfirmAck), (''o1'', sample_body, Confirmed ConfirmNack)]"

lemma sample_nack:
  "poll_step nack_env sample_cfg (Publishing [sample_claim], \<lparr>ow_table = db, ow_sent = s, ow_tick = n\<rparr>) =
     (Recording (reply_error ''o1'' (Confirmed ConfirmNack)) sample_claim [],
      \<lparr>ow_table = db, ow_sent = s @ [(''o1'', sample_body, Confirmed ConfirmNack)], ow_tick = Suc n\<rparr>)"
  using sample_event_ok sample_claim_id by (auto simp: nack_env_def publish_row_def publish_def Let_def calm_env_def sample_body_def)

lemma sample_stalled:
  "system_reachable sample_formats 5
     (sys [published 5] two_messages 6 ([] @ Recording (reply_error ''o1'' (Confirmed ConfirmNack)) sample_claim [] # [Publishing []]))"
  using sample_advance [OF sample_nack [of "[published 5]" "[(''o1'', sample_body, Confirmed ConfirmAck)]" 5], of "[]" "[Publishing []]"] sample_run
  by (simp add: nack_env_def)

theorem published_row_reopened_witness:
  "\<exists>s2 r2. (system_step sample_formats 5)\<^sup>*\<^sup>* (sys [published 5] two_messages 6 [Recording (reply_error ''o1'' (Confirmed ConfirmNack)) sample_claim [], Publishing []]) s2 \<and>
     ow_sent (os_world s2) = two_messages @ [(''o1'', sample_body, Confirmed ConfirmAck)] \<and>
     r2 \<in> set (ow_table (os_world s2)) \<and> row_content r2 = row_content sample_row \<and> ob_status r2 = ObPublished"
proof -
  let ?err = "reply_error ''o1'' (Confirmed ConfirmNack)"
  let ?s = "sys [published 5] two_messages 6 ([] @ Recording ?err sample_claim [] # [Publishing []])"
  have p: "published 5 \<in> set (ow_table (os_world ?s))" "ob_id (published 5) = or_id sample_claim" "ob_status (published 5) = ObPublished"
    "ob_fail_count (published 5) + 1 < 5" "row_content (published 5) = row_content sample_row" "ob_id (published 5) = ''o1''"
    by (simp_all add: published_def sample_row_def claim_of_def row_content_def)
  have c: "claim_of (published 5) = sample_claim" by (simp add: claim_of_def published_def)
  have f: "oe_fault (calm_env 6) (ow_tick (os_world ?s)) = None" by (simp add: calm_env_def)
  obtain e w1 s2 r2 where x: "outbox_event sample_formats sample_claim = Ok e"
    "poll_step (calm_env 6) sample_cfg (Recording ?err sample_claim [], os_world ?s) = (Checking ?err [], w1)"
    "(system_step sample_formats 5)\<^sup>*\<^sup>* \<lparr>os_world = w1, os_polls = [] @ Checking ?err [] # [Publishing []]\<rparr> s2"
    "ow_sent (os_world s2) = two_messages @ [(''o1'', enc_event sample_formats e, Confirmed ConfirmAck)]"
    "r2 \<in> set (ow_table (os_world s2))" "row_content r2 = row_content sample_row" "ob_status r2 = ObPublished"
    using published_row_reopened [OF sample_stalled _ p(1-4) _ sample_max(2) sample_max(1) f, of "[]" ?err "[]" "[Publishing []]"] p(5,6) c by auto
  have "system_step sample_formats 5 ?s \<lparr>os_world = w1, os_polls = [] @ Checking ?err [] # [Publishing []]\<rparr>"
    using poll_advances [OF sample_max(2) sample_max(1) x(2), of "[]" "[Publishing []]"] by simp
  from converse_rtranclp_into_rtranclp [OF this x(3)] have "(system_step sample_formats 5)\<^sup>*\<^sup>* ?s s2" .
  moreover have "sample_body = enc_event sample_formats e" using x(1) by (simp add: sample_body_def)
  ultimately show ?thesis using x(4-7) by (intro exI [of _ s2] exI [of _ r2]) simp
qed

section \<open>A poll cycle\<close>

lemma sort_key_map_comm: "sort_key f (map g xs) = map g (sort_key (f \<circ> g) xs)"
proof (induction xs)
  case (Cons x xs)
  have "insort_key f (g x) (map g ys) = map g (insort_key (f \<circ> g) x ys)" for ys by (induction ys) auto
  with Cons show ?case by (simp add: comp_def)
qed simp

text \<open>A broker that confirms everything and a database that always answers.\<close>

definition smooth :: "outbox_env \<Rightarrow> bool" where
  "smooth env \<longleftrightarrow> (\<forall>t. oe_fault env t = None) \<and> (\<forall>t b. oe_publish env t b = Confirmed ConfirmAck)"

text \<open>What publishing a list of claims does to one row.\<close>

definition published_by :: "OutboxRow list \<Rightarrow> outbox_row \<Rightarrow> outbox_row \<Rightarrow> bool" where
  "published_by cs r r' \<longleftrightarrow>
     row_content r' = row_content r \<and>
     (if ob_id r \<in> or_id ` set cs \<and> ob_status r = ObInProgress then ob_status r' = ObPublished else r' = r)"

lemma publish_and_mark_smooth:
  assumes "smooth env" "outbox_event (oe_formats env) c = Ok e"
  shows "\<exists>w'. publish_and_mark env c w = (Ok (), w') \<and>
    ow_sent w' = ow_sent w @ [(or_id c, enc_event (oe_formats env) e, Confirmed ConfirmAck)] \<and>
    list_all2 (published_by [c]) (ow_table w) (ow_table w')"
proof -
  have "list_all2 (published_by [c]) db
      (update_rows (\<lambda>r. ob_id r = or_id c \<and> ob_status r = ObInProgress)
        (\<lambda>r. r\<lparr>ob_status := ObPublished, ob_published_at := Some t, ob_locked_at := None\<rparr>) db)" for db t
    by (simp add: update_rows_def list_all2_map2 list.rel_refl published_by_def row_content_def)
  with assms show ?thesis
    by (simp add: smooth_def publish_and_mark_def publish_row_def mark_row_def publish_def Let_def ob_step_def mark_published_def)
qed

lemma published_by_trans:
  "published_by [c] r r1 \<Longrightarrow> published_by cs r1 r' \<Longrightarrow> published_by (c # cs) r r'"
  by (auto simp: published_by_def split: if_splits dest: content_id)

lemma publish_rows_smooth:
  assumes "smooth env" "\<forall>c \<in> set cs. is_ok (outbox_event (oe_formats env) c)"
  shows "\<exists>w'. publish_rows env cfg cs w = (Ok True, w') \<and>
    map fst (ow_sent w') = map fst (ow_sent w) @ map or_id cs \<and>
    list_all2 (published_by cs) (ow_table w) (ow_table w')"
  using assms(2)
proof (induction cs arbitrary: w)
  case Nil
  then show ?case by (simp add: list.rel_refl published_by_def)
next
  case (Cons c cs)
  from Cons.prems obtain e where "outbox_event (oe_formats env) c = Ok e"
    by (cases "outbox_event (oe_formats env) c") auto
  from publish_and_mark_smooth [OF assms(1) this, of w] obtain w1 where w1: "publish_and_mark env c w = (Ok (), w1)"
    "map fst (ow_sent w1) = map fst (ow_sent w) @ [or_id c]" "list_all2 (published_by [c]) (ow_table w) (ow_table w1)"
    by auto
  from Cons obtain w' where w': "publish_rows env cfg cs w1 = (Ok True, w')"
    "map fst (ow_sent w') = map fst (ow_sent w1) @ map or_id cs" "list_all2 (published_by cs) (ow_table w1) (ow_table w')"
    by (metis list.set_intros(2))
  have "list_all2 (published_by (c # cs)) (ow_table w) (ow_table w')"
    using list_all2_trans [OF _ w1(3) w'(3), of "published_by (c # cs)"] published_by_trans by blast
  with w1 w' show ?case by simp
qed

text \<open>
  C32. A batch goes out completely and by priority: when the database and the broker answer and every pending
  row of the batch has well-formed recipients, one poll publishes the oldest pending rows up to
  the batch size, ordered by priority and, within one priority, by age; afterwards each of them is published and
  every other row is as it was.
\<close>

theorem poll_publishes_by_priority:
  assumes "smooth env" "0 \<le> oc_batch_size cfg" "distinct (map ob_id (ow_table w))"
    and "batch = pending_batch (oe_locked env (ow_tick w)) (nat (oc_batch_size cfg)) (ow_table w)" "batch \<noteq> []"
    and "\<forall>r \<in> set batch. is_ok (outbox_event (oe_formats env) (claim_of r))"
  shows "\<exists>w'. poll_once env cfg w = (Ok True, w') \<and>
    map fst (ow_sent w') = map fst (ow_sent w) @ map ob_id (sort_key (row_priority \<circ> claim_of) batch) \<and>
    list_all2 (\<lambda>r r'. row_content r' = row_content r \<and> (if r \<in> set batch then ob_status r' = ObPublished else r' = r))
      (ow_table w) (ow_table w')"
proof -
  let ?f = "\<lambda>r. r\<lparr>ob_status := ObInProgress, ob_locked_at := Some (oe_now env (ow_tick w))\<rparr>"
  let ?P = "\<lambda>r. ob_id r \<in> ob_id ` set batch \<and> ob_status r = ObPending"
  let ?w1 = "w\<lparr>ow_table := update_rows ?P ?f (ow_table w), ow_tick := Suc (ow_tick w)\<rparr>"
  let ?cs = "sort_key row_priority (map claim_of batch)"
  have fetch: "ob_step env (\<lambda>fault now. fetch_pending_batch fault now (oe_locked env (ow_tick w)) (oc_batch_size cfg)) w = (Ok (map claim_of batch), ?w1)"
    using assms(1,2,4) by (simp add: smooth_def ob_step_def fetch_pending_batch_def Let_def)
  have "\<forall>c \<in> set ?cs. is_ok (outbox_event (oe_formats env) c)" using assms(6) by auto
  from publish_rows_smooth [OF assms(1) this, of cfg ?w1] obtain w' where w': "publish_rows env cfg ?cs ?w1 = (Ok True, w')"
    "map fst (ow_sent w') = map fst (ow_sent w) @ map or_id ?cs" "list_all2 (published_by ?cs) (update_rows ?P ?f (ow_table w)) (ow_table w')"
    by auto
  have run: "poll_once env cfg w = (Ok True, w')"
    using fetch w'(1) assms(5) by (cases "map claim_of batch") (auto simp: poll_once_def)
  have ids: "map or_id ?cs = map ob_id (sort_key (row_priority \<circ> claim_of) batch)"
    by (simp add: sort_key_map_comm comp_def claim_of_def)
  have b: "r \<in> set batch \<Longrightarrow> r \<in> set (ow_table w) \<and> ob_status r = ObPending" for r
    using assms(4) by (auto simp: pending_batch_def dest: in_set_takeD)
  have mem: "ob_id r \<in> ob_id ` set batch \<longleftrightarrow> r \<in> set batch" if "r \<in> set (ow_table w)" for r
    using b that assms(3) by (auto simp: distinct_map inj_on_def)
  have step: "row_content r' = row_content r \<and> (if r \<in> set batch then ob_status r' = ObPublished else r' = r)"
    if "r \<in> set (ow_table w)" "published_by ?cs (if ?P r then ?f r else r) r'" for r r'
    using that b [of r] mem [OF that(1)]
    by (auto simp: published_by_def row_content_def claim_of_def image_image split: if_splits)
  have "list_all2 (\<lambda>r r'. row_content r' = row_content r \<and> (if r \<in> set batch then ob_status r' = ObPublished else r' = r)) (ow_table w) (ow_table w')"
  proof (rule list.rel_mono_strong)
    show "list_all2 (\<lambda>r. published_by ?cs (if ?P r then ?f r else r)) (ow_table w) (ow_table w')"
      using w'(3) by (simp add: update_rows_def list_all2_map1)
  qed (use step in blast)
  with run ids w'(2) show ?thesis by auto
qed

definition urgent_row :: outbox_row where
  "urgent_row = sample_row\<lparr>ob_id := ''o2'', ob_event_id := ''e2'', ob_created_at := 9,
     ob_payload := JObj [(''recipients'', JArr []), (''priority'', JInt 1)]\<rparr>"

theorem poll_publishes_by_priority_witness:
  "\<exists>w'. poll_once (calm_env 0) outbox_config_default \<lparr>ow_table = [sample_row, urgent_row], ow_sent = [], ow_tick = 0\<rparr> = (Ok True, w') \<and>
     map fst (ow_sent w') = [''o2'', ''o1'']"
proof -
  let ?w = "\<lparr>ow_table = [sample_row, urgent_row], ow_sent = [], ow_tick = 0\<rparr>"
  have s: "smooth (calm_env 0)" by (simp add: smooth_def calm_env_def)
  have n: "0 \<le> oc_batch_size outbox_config_default" by (simp add: outbox_config_default_def)
  have d: "distinct (map ob_id (ow_table ?w))" by (simp add: sample_row_def urgent_row_def)
  have b: "pending_batch (oe_locked (calm_env 0) (ow_tick ?w)) (nat (oc_batch_size outbox_config_default)) (ow_table ?w) = [sample_row, urgent_row]"
    by (simp add: pending_batch_def calm_env_def outbox_config_default_def sample_row_def urgent_row_def)
  have "list_all (\<lambda>r. is_ok (outbox_event (oe_formats (calm_env 0)) (claim_of r))) [sample_row, urgent_row]" by code_simp
  then have ok: "\<forall>r \<in> set [sample_row, urgent_row]. is_ok (outbox_event (oe_formats (calm_env 0)) (claim_of r))" by (simp add: list_all_iff)
  have o: "map ob_id (sort_key (row_priority \<circ> claim_of) [sample_row, urgent_row]) = [''o2'', ''o1'']"
    by (simp add: row_priority_def claim_of_def sample_row_def urgent_row_def)
  from poll_publishes_by_priority [OF s n d b [symmetric] _ ok] o show ?thesis by auto
qed

section \<open>Recovery\<close>

text \<open>
  Claims that were left behind are found again: when a poll stops at a dead channel, a worker crashes or a failure could not be
  recorded, the rows concerned stay in progress; once the reaper runs later than the timeout after the last claim, no
  row of the table is in progress any more, exactly the rows that were in progress are pending again, and every other row is unchanged.
\<close>

lemma reaper_recovers_claims:
  assumes "\<forall>r \<in> set db. \<forall>t. ob_locked_at r = Some t \<longrightarrow> t + int (unat timeout) * 1000000000 < now"
  shows "\<exists>n db'. reap_stale_in_progress None now timeout db = (Ok n, db') \<and>
    n = length (filter (\<lambda>r. ob_status r = ObInProgress) db) \<and>
    db' = map (\<lambda>r. if ob_status r = ObInProgress then r\<lparr>ob_status := ObPending, ob_locked_at := None\<rparr> else r) db"
proof -
  have "stale_in_progress now timeout r \<longleftrightarrow> ob_status r = ObInProgress" if "r \<in> set db" for r
    using that assms by (force simp: stale_in_progress_def split: option.splits)
  then have "filter (stale_in_progress now timeout) db = filter (\<lambda>r. ob_status r = ObInProgress) db"
    "update_rows (stale_in_progress now timeout) (\<lambda>r. r\<lparr>ob_status := ObPending, ob_locked_at := None\<rparr>) db =
     map (\<lambda>r. if ob_status r = ObInProgress then r\<lparr>ob_status := ObPending, ob_locked_at := None\<rparr> else r) db"
    by (auto simp: update_rows_def cong: filter_cong)
  then show ?thesis by (simp add: reap_stale_in_progress_def)
qed

section \<open>Idle back-off\<close>

text \<open>The multiplier after a number of idle polls.\<close>

fun idle_polls :: "nat \<Rightarrow> u64" where
  "idle_polls 0 = 1"
| "idle_polls (Suc n) = next_multiplier False (idle_polls n)"

lemma idle_multiplier_doubling: "unat (idle_polls n) = capped_doubling 1 3 8 n"
proof (induction n)
  case (Suc n)
  have le: "capped_doubling 1 3 8 n \<le> 8" by (rule doubling.capped)
  then have "unat (idle_polls n * 2) = unat (idle_polls n) * 2" using Suc by (simp add: unat_word_ariths)
  then have "unat (idle_polls (Suc n)) = min (capped_doubling 1 3 8 n * 2) 8"
    using Suc by (auto simp: next_multiplier_def MAX_IDLE_MULTIPLIER_def min_def word_le_nat_alt)
  also have "\<dots> = capped_doubling 1 3 8 (Suc n)"
  proof -
    consider "n = 0" | "n = 1" | "n = 2" | "n \<ge> 3" by linarith
    then show ?thesis by cases (auto simp: capped_doubling_def min_def)
  qed
  finally show ?case .
qed (simp add: capped_doubling_def)

interpretation outbox_idle: backoff "\<lambda>n. unat (idle_polls n)" 8
  unfolding idle_multiplier_doubling by unfold_locales (rule doubling.step_up, rule doubling.capped)

text \<open>The wait between polls never wraps when eight times the configured interval fits in 64 bits.\<close>

lemma idle_wait_bound:
  "unat (oc_poll_interval_ms cfg) * 8 < 2 ^ 64 \<Longrightarrow>
   unat (oc_poll_interval_ms cfg * idle_polls n) = unat (oc_poll_interval_ms cfg) * capped_doubling 1 3 8 n"
proof -
  assume a: "unat (oc_poll_interval_ms cfg) * 8 < 2 ^ 64"
  have "unat (oc_poll_interval_ms cfg) * unat (idle_polls n) \<le> unat (oc_poll_interval_ms cfg) * 8"
    using outbox_idle.capped [of n] by simp
  with a have "unat (oc_poll_interval_ms cfg) * unat (idle_polls n) < 2 ^ 64" by linarith
  then have "unat (oc_poll_interval_ms cfg * idle_polls n) = unat (oc_poll_interval_ms cfg) * unat (idle_polls n)"
    by (simp add: unat_word_ariths)
  then show ?thesis by (simp only: idle_multiplier_doubling)
qed

end
