(* ===== verification/Outbox_Worker.thy ===== *)
theory Outbox_Worker
  imports Outbox_Props Step_Machines
begin

text \<open>
  \<^verbatim>\<open>crates/outbox/src/worker.rs\<close>, the outer loops: one connection to the broker, the worker that
  reconnects, and the task that wakes the reaper. What happens to a connection (which set-up step
  fails, when the shutdown token fires) is a script, one entry per connection; \<open>None\<close> is that the
  script is too short for the loop to end. What everybody else (the reaper, other workers, the business service) does to the shared table
  before each interaction of the worker is an argument, \<open>others\<close>. Every run of these loops among such others is a run of the step
  relation, so the worker keeps what the steps keep.
\<close>

section \<open>A poll among others\<close>

type_synonym interference = "nat \<Rightarrow> outbox_system \<Rightarrow> outbox_system"

text \<open>The others act, then the poll makes its next interaction. Their polls are in the system, the worker's own is the control point.\<close>

definition poll_turn :: "outbox_env \<Rightarrow> OutboxConfig \<Rightarrow> interference \<Rightarrow> poll_pc \<times> outbox_system \<Rightarrow> poll_pc \<times> outbox_system" where
  "poll_turn env cfg others = (\<lambda>(pc, s).
     let s = others (ow_tick (os_world s)) s
     in case poll_step env cfg (pc, os_world s) of (pc', w') \<Rightarrow> (pc', s\<lparr>os_world := w'\<rparr>))"

text \<open>The interactions that are left to a poll that has its rows.\<close>

fun poll_left :: "poll_pc \<Rightarrow> nat" where
  "poll_left (Publishing rows) = 4 * length rows + 1"
| "poll_left (Marking row rows) = 4 * length rows + 4"
| "poll_left (Recording e row rows) = 4 * length rows + 3"
| "poll_left (Checking e rows) = 4 * length rows + 2"
| "poll_left _ = 0"

lemma poll_step_left:
  "poll_step env cfg (pc, w) = (pc', w') \<Longrightarrow> \<nexists>res. pc = Polled res \<Longrightarrow>
   pc' \<noteq> Fetching \<and> (pc = Fetching \<or> poll_left pc' < poll_left pc)"
proof (cases pc)
  case (Publishing rows)
  assume "poll_step env cfg (pc, w) = (pc', w')"
  with Publishing show ?thesis by (cases rows) (auto split: sum.splits prod.splits)
qed (auto split: sum.splits prod.splits list.splits if_splits)

lemma poll_turn_left:
  "(pc', s') = poll_turn env cfg others (pc, s) \<Longrightarrow> \<nexists>res. pc = Polled res \<Longrightarrow>
   pc' \<noteq> Fetching \<and> (pc = Fetching \<or> poll_left pc' < poll_left pc)"
  using poll_step_left by (auto simp: poll_turn_def Let_def split: prod.splits)

text \<open>A poll that is left to run to its end.\<close>

function (sequential) run_poll ::
  "outbox_env \<Rightarrow> OutboxConfig \<Rightarrow> interference \<Rightarrow> poll_pc \<Rightarrow> outbox_system \<Rightarrow> (string + bool) \<times> outbox_system" where
  "run_poll env cfg others (Polled res) s = (res, s)"
| "run_poll env cfg others pc s =
     (case poll_turn env cfg others (pc, s) of (pc', s') \<Rightarrow> run_poll env cfg others pc' s')"
  by pat_completeness auto

termination run_poll
  apply (relation "measures [\<lambda>(_, _, _, pc, _). if pc = Fetching then 1 else 0, \<lambda>(_, _, _, pc, _). poll_left pc]")
       apply simp
  by (drule poll_turn_left, simp, force)+

text \<open>It is a run of turns.\<close>

lemma run_poll_turns: "run_poll env cfg others pc s = (res, s') \<Longrightarrow> reaches (poll_turn env cfg others) (pc, s) (Polled res, s')"
proof (induction env cfg others pc s rule: run_poll.induct)
  case (1 env cfg others r s)
  then show ?case by simp
qed (auto split: prod.splits intro: reaches_via)

text \<open>A poll that the shutdown branch of the \<^verbatim>\<open>select!\<close> drops after some of its interactions.\<close>

definition cut_poll :: "outbox_env \<Rightarrow> OutboxConfig \<Rightarrow> interference \<Rightarrow> nat \<Rightarrow> outbox_system \<Rightarrow> outbox_system" where
  "cut_poll env cfg others n s = snd ((poll_turn env cfg others ^^ n) (Fetching, s))"

section \<open>One connection\<close>

text \<open>
  The turns of the loop say, turn by turn, whether the shutdown signal wins the race against the poll and after how many
  of its interactions, and whether it comes during the wait. The result lists the waits in milliseconds.
\<close>

fun poll_loop ::
  "outbox_env \<Rightarrow> OutboxConfig \<Rightarrow> interference \<Rightarrow> (nat option \<times> bool) list \<Rightarrow> u64 \<Rightarrow> outbox_system \<Rightarrow> u64 list \<Rightarrow>
   ((string + unit) \<times> outbox_system \<times> u64 list) option" where
  "poll_loop env cfg others [] m s waits = None"
| "poll_loop env cfg others ((dropped, during) # turns) m s waits =
     (case dropped of
        Some n \<Rightarrow> Some (Ok (), cut_poll env cfg others n s, waits)
      | None \<Rightarrow>
          (case run_poll env cfg others Fetching s of
             (Inl e, s) \<Rightarrow> Some (Err e, s, waits)
           | (Inr had_rows, s) \<Rightarrow>
               let m = next_multiplier had_rows m; waits = waits @ [oc_poll_interval_ms cfg * m]
               in if during then Some (Ok (), s, waits) else poll_loop env cfg others turns m s waits))"

record connection_script =
  cs_cancelled_before :: bool
  cs_connect :: "string \<Rightarrow> string + unit"
  cs_create_channel :: "string + unit"
  cs_confirm_select :: "string + unit"
  cs_exchange_declare :: "string \<Rightarrow> string + unit"
  cs_turns :: "(nat option \<times> bool) list"
  cs_cancelled_after :: bool
  cs_cancelled_in_sleep :: bool

definition amqp_setup :: "OutboxConfig \<Rightarrow> connection_script \<Rightarrow> string + unit" where
  "amqp_setup cfg c =
     and_then (cs_connect c (append_heartbeat_param (oc_amqp_url cfg) 60)) (\<lambda>_.
     and_then (cs_create_channel c) (\<lambda>_.
     and_then (case cs_confirm_select c of Inl _ \<Rightarrow> Err ''Outbox worker: failed to enable publisher confirms'' | Inr u \<Rightarrow> Ok u) (\<lambda>_.
       cs_exchange_declare c (oc_exchange cfg))))"

definition connect_amqp_and_poll ::
  "outbox_env \<Rightarrow> OutboxConfig \<Rightarrow> interference \<Rightarrow> connection_script \<Rightarrow> outbox_system \<Rightarrow> u64 list \<Rightarrow>
   ((string + unit) \<times> outbox_system \<times> u64 list) option" where
  "connect_amqp_and_poll env cfg others c s waits =
     (case amqp_setup cfg c of
        Inl e \<Rightarrow> Some (Err e, s, waits)
      | Inr _ \<Rightarrow> poll_loop env cfg others (cs_turns c) 1 s waits)"

section \<open>The worker\<close>

text \<open>The loop of \<^verbatim>\<open>run_outbox_worker\<close>; the result lists the poll waits in milliseconds and the
  reconnection delays in seconds.\<close>

fun worker_loop ::
  "outbox_env \<Rightarrow> OutboxConfig \<Rightarrow> interference \<Rightarrow> connection_script list \<Rightarrow> nat \<Rightarrow> outbox_system \<Rightarrow> u64 list \<Rightarrow> nat list \<Rightarrow>
   (outbox_system \<times> u64 list \<times> nat list) option" where
  "worker_loop env cfg others [] delay s waits delays = None"
| "worker_loop env cfg others (c # cs) delay s waits delays =
     (if cs_cancelled_before c then Some (s, waits, delays)
      else case connect_amqp_and_poll env cfg others c s waits of
             None \<Rightarrow> None
           | Some (Inr _, s, waits) \<Rightarrow> Some (s, waits, delays)
           | Some (Inl e, s, waits) \<Rightarrow>
               if cs_cancelled_after c then Some (s, waits, delays)
               else if cs_cancelled_in_sleep c then Some (s, waits, delays @ [delay])
               else worker_loop env cfg others cs 2 s waits (delays @ [delay]))"

text \<open>The reaper that the worker spawns is one of the others; it is aborted when the worker returns.\<close>

definition run_outbox_worker ::
  "outbox_env \<Rightarrow> OutboxConfig \<Rightarrow> interference \<Rightarrow> string + unit \<Rightarrow> connection_script list \<Rightarrow> outbox_system \<Rightarrow>
   ((string + unit) \<times> outbox_system \<times> u64 list \<times> nat list) option" where
  "run_outbox_worker env cfg others pool cs s =
     (case pool of
        Inl _ \<Rightarrow> Some (Err ''Outbox worker: failed to connect to business DB'', s, [], [])
      | Inr _ \<Rightarrow> map_option (Pair (Ok ())) (worker_loop env cfg others cs 2 s [] []))"

text \<open>The reaper sleeps half the timeout between two runs; an entry says whether the token fires in the sleep, and
  the others act while it sleeps.\<close>

definition reaper_interval_ms :: "u64 \<Rightarrow> nat" where
  "reaper_interval_ms timeout_secs = unat timeout_secs * 1000 div 2"

definition reap_once :: "outbox_env \<Rightarrow> u64 \<Rightarrow> outbox_system \<Rightarrow> outbox_system" where
  "reap_once env timeout_secs s =
     s\<lparr>os_world := snd (ob_step env (\<lambda>f n. reap_stale_in_progress f n timeout_secs) (os_world s))\<rparr>"

fun run_reaper :: "outbox_env \<Rightarrow> u64 \<Rightarrow> interference \<Rightarrow> bool list \<Rightarrow> outbox_system \<Rightarrow> outbox_system option" where
  "run_reaper env timeout_secs others [] s = None"
| "run_reaper env timeout_secs others (cancelled # cs) s =
     (let s = others (ow_tick (os_world s)) s
      in if cancelled then Some s else run_reaper env timeout_secs others cs (reap_once env timeout_secs s))"

section \<open>A poll that nobody disturbs\<close>

text \<open>When the others do nothing, a poll that runs to its end is \<^verbatim>\<open>poll_once\<close>.\<close>

lemma undisturbed_rows:
  "run_poll env cfg (\<lambda>_ s. s) (Publishing rows) s =
     (case publish_rows env cfg rows (os_world s) of (res, w) \<Rightarrow> (res, s\<lparr>os_world := w\<rparr>))"
proof (induction rows arbitrary: s)
  case (Cons row rows)
  then show ?case unfolding run_poll.simps(3) [of env cfg _ "row # rows"]
    by (auto simp: poll_turn_def Let_def publish_and_mark_def simp del: run_poll.simps(3) split: prod.splits sum.splits)
qed (simp add: poll_turn_def)

lemma undisturbed_poll:
  "run_poll env cfg (\<lambda>_ s. s) Fetching s = (case poll_once env cfg (os_world s) of (res, w) \<Rightarrow> (res, s\<lparr>os_world := w\<rparr>))"
  by (auto simp: poll_once_def poll_turn_def Let_def undisturbed_rows simp del: run_poll.simps(3) split: prod.splits sum.splits list.splits)

section \<open>Every run is a run of the steps\<close>

text \<open>The system with the worker's own poll in it.\<close>

definition with_poll :: "poll_pc \<Rightarrow> outbox_system \<Rightarrow> outbox_system" where
  "with_poll pc s = \<lparr>os_world = os_world s, os_polls = pc # os_polls s\<rparr>"

lemma reap_once_step: "system_step tf maxf s (reap_once env timeout_secs s)"
  using reaper [of env timeout_secs "os_world s" _ _ tf maxf "os_polls s", OF prod.collapse [symmetric]] by (cases s) (simp add: reap_once_def)

text \<open>The contract of the others: what they do is a run of the steps, whatever the state they find.\<close>

locale outbox_others =
  fixes tf :: text_formats and maxf :: int and others :: interference
  assumes others_steps: "(system_step tf maxf)\<^sup>*\<^sup>* s (others n s)"
begin

lemma poll_turn_steps:
  assumes "oe_formats env = tf" "oc_max_publish_failures cfg = maxf" "poll_turn env cfg others (pc, s) = (pc', s')"
  shows "(system_step tf maxf)\<^sup>*\<^sup>* (with_poll pc s) (with_poll pc' s')"
proof -
  let ?s1 = "others (ow_tick (os_world s)) s"
  obtain w' where w': "poll_step env cfg (pc, os_world ?s1) = (pc', w')" "s' = ?s1\<lparr>os_world := w'\<rparr>"
    using assms(3) by (auto simp: poll_turn_def Let_def split: prod.splits)
  have "(system_step tf maxf)\<^sup>*\<^sup>* (with_poll pc s) (with_poll pc ?s1)"
    unfolding with_poll_def using system_steps_frame [OF others_steps] .
  moreover have "system_step tf maxf (with_poll pc ?s1) (with_poll pc' s')"
    using poll_advances [OF assms(1,2) w'(1), of "[]" "os_polls ?s1"] w'(2) by (simp add: with_poll_def)
  ultimately show ?thesis by (rule rtranclp.rtrancl_into_rtrancl)
qed

lemma poll_turns_steps:
  assumes "oe_formats env = tf" "oc_max_publish_failures cfg = maxf"
  shows "(poll_turn env cfg others ^^ n) (pc, s) = (pc', s') \<Longrightarrow> (system_step tf maxf)\<^sup>*\<^sup>* (with_poll pc s) (with_poll pc' s')"
proof (induction n arbitrary: pc' s')
  case (Suc n)
  obtain pc1 s1 where "(poll_turn env cfg others ^^ n) (pc, s) = (pc1, s1)" by fastforce
  with Suc poll_turn_steps [OF assms, of pc1 s1 pc' s'] show ?case by (auto intro: rtranclp_trans)
qed simp

text \<open>A poll from its start to wherever it gets, and gone: when it ends, when it is dropped, when its process dies.\<close>

lemma whole_poll_steps:
  assumes "oe_formats env = tf" "oc_max_publish_failures cfg = maxf" "(poll_turn env cfg others ^^ n) (Fetching, s) = (pc, s')"
  shows "(system_step tf maxf)\<^sup>*\<^sup>* s s'"
proof -
  have "system_step tf maxf s (with_poll Fetching s)" using poll_begins [of tf maxf "os_world s" "[]" "os_polls s"] by (cases s) (simp add: with_poll_def)
  moreover have "system_step tf maxf (with_poll pc s') s'" using poll_gone [of tf maxf "os_world s'" "[]" pc "os_polls s'"] by (cases s') (simp add: with_poll_def)
  ultimately show ?thesis using poll_turns_steps [OF assms]
    by (meson converse_rtranclp_into_rtranclp rtranclp.rtrancl_into_rtrancl)
qed

lemma cut_poll_steps:
  "oe_formats env = tf \<Longrightarrow> oc_max_publish_failures cfg = maxf \<Longrightarrow> (system_step tf maxf)\<^sup>*\<^sup>* s (cut_poll env cfg others n s)"
  using whole_poll_steps [of env cfg n s] unfolding cut_poll_def by (metis prod.collapse)

lemma run_poll_steps:
  "oe_formats env = tf \<Longrightarrow> oc_max_publish_failures cfg = maxf \<Longrightarrow> run_poll env cfg others Fetching s = (res, s') \<Longrightarrow>
   (system_step tf maxf)\<^sup>*\<^sup>* s s'"
  using run_poll_turns [of env cfg others Fetching s res s'] whole_poll_steps [of env cfg _ s] by (auto simp: reaches_def)

lemma poll_loop_steps:
  assumes "oe_formats env = tf" "oc_max_publish_failures cfg = maxf"
  shows "poll_loop env cfg others turns m s waits = Some (res, s', waits') \<Longrightarrow> (system_step tf maxf)\<^sup>*\<^sup>* s s'"
proof (induction turns arbitrary: m s waits)
  case (Cons t turns)
  obtain dropped during where t: "t = (dropped, during)" by fastforce
  show ?case
  proof (cases dropped)
    case (Some n)
    with Cons.prems t cut_poll_steps [OF assms] show ?thesis by auto
  next
    case None
    obtain r1 s1 where 1: "run_poll env cfg others Fetching s = (r1, s1)" by fastforce
    have "s' = s1 \<or> (\<exists>m waits. poll_loop env cfg others turns m s1 waits = Some (res, s', waits'))"
      using Cons.prems t None 1 by (auto simp: Let_def split: sum.splits if_splits)
    with run_poll_steps [OF assms 1] Cons.IH show ?thesis by (blast intro: rtranclp_trans)
  qed
qed simp

lemma connect_amqp_and_poll_steps:
  "oe_formats env = tf \<Longrightarrow> oc_max_publish_failures cfg = maxf \<Longrightarrow>
   connect_amqp_and_poll env cfg others c s waits = Some (res, s', waits') \<Longrightarrow> (system_step tf maxf)\<^sup>*\<^sup>* s s'"
  using poll_loop_steps [of env cfg "cs_turns c" 1 s waits res s' waits'] by (auto simp: connect_amqp_and_poll_def split: sum.splits)

lemma worker_loop_steps:
  assumes "oe_formats env = tf" "oc_max_publish_failures cfg = maxf"
  shows "worker_loop env cfg others cns d s waits delays = Some (s', waits', delays') \<Longrightarrow> (system_step tf maxf)\<^sup>*\<^sup>* s s'"
proof (induction cns arbitrary: d s waits delays)
  case (Cons c cns)
  show ?case
  proof (cases "cs_cancelled_before c")
    case True
    with Cons.prems show ?thesis by auto
  next
    case False
    with Cons.prems obtain r1 s1 waits1 where 1: "connect_amqp_and_poll env cfg others c s waits = Some (r1, s1, waits1)"
      by (auto split: option.splits)
    have "s' = s1 \<or> worker_loop env cfg others cns 2 s1 waits1 (delays @ [d]) = Some (s', waits', delays')"
      using Cons.prems False 1 by (auto split: sum.splits if_splits)
    with Cons.IH [of 2 s1 waits1 "delays @ [d]"] connect_amqp_and_poll_steps [OF assms 1] show ?thesis by (blast intro: rtranclp_trans)
  qed
qed simp

lemma run_reaper_steps: "run_reaper env t others cancels s = Some s' \<Longrightarrow> (system_step tf maxf)\<^sup>*\<^sup>* s s'"
proof (induction cancels arbitrary: s)
  case (Cons c cancels)
  let ?s1 = "others (ow_tick (os_world s)) s"
  have "(system_step tf maxf)\<^sup>*\<^sup>* s (reap_once env t ?s1)" using others_steps reap_once_step by (rule rtranclp.rtrancl_into_rtrancl)
  moreover have "s' = ?s1 \<or> run_reaper env t others cancels (reap_once env t ?s1) = Some s'"
    using Cons.prems by (auto simp: Let_def split: if_splits)
  ultimately show ?case using others_steps [of s] Cons.IH by (blast intro: rtranclp_trans)
qed simp

end

text \<open>The reaper task is one of the others a worker runs among.\<close>

interpretation reaper_task: outbox_others tf maxf "\<lambda>_. reap_once env timeout_secs" for tf maxf env timeout_secs
  by unfold_locales (rule r_into_rtranclp, rule reap_once_step)

section \<open>The loops end on shutdown\<close>

lemma worker_loop_delays:
  "worker_loop env cfg others cns 2 s waits delays = Some (s', waits', delays') \<Longrightarrow> set delays \<subseteq> {2} \<Longrightarrow> set delays' \<subseteq> {2}"
proof (induction cns arbitrary: s waits delays)
  case (Cons c cns)
  then consider "delays' = delays" | "delays' = delays @ [2]"
    | s1 waits1 where "worker_loop env cfg others cns 2 s1 waits1 (delays @ [2]) = Some (s', waits', delays')"
    by (auto split: if_splits option.splits sum.splits)
  then show ?case using Cons by cases auto
qed simp

text \<open>A connection script in which the token fires at the latest in its last turn.\<close>

definition script_ends :: "connection_script \<Rightarrow> bool" where
  "script_ends c \<longleftrightarrow> list_ex (\<lambda>(dropped, during). dropped \<noteq> None \<or> during) (cs_turns c)"

lemma poll_loop_returns:
  "list_ex (\<lambda>(dropped, during). dropped \<noteq> None \<or> during) turns \<Longrightarrow> \<exists>r. poll_loop env cfg others turns m s waits = Some r"
proof (induction turns arbitrary: m s waits)
  case (Cons t turns)
  then show ?case by (cases t) (auto simp: Let_def split: prod.splits sum.splits option.splits)
qed simp

lemma worker_loop_returns:
  "list_all script_ends cns \<Longrightarrow> list_ex cs_cancelled_before cns \<Longrightarrow> \<exists>r. worker_loop env cfg others cns d s waits delays = Some r"
proof (induction cns arbitrary: d s waits delays)
  case (Cons c cns)
  then obtain r1 s1 waits1 where "connect_amqp_and_poll env cfg others c s waits = Some (r1, s1, waits1)"
    using poll_loop_returns [of "cs_turns c" env cfg others 1 s waits]
    by (fastforce simp: connect_amqp_and_poll_def script_ends_def split: sum.split)
  with Cons show ?case by (cases r1) auto
qed simp

text \<open>After the reaper has run late enough, a row of a reachable table is pending, or published and confirmed, or
  failed for good: nothing stays claimed.\<close>

lemma reaped_table:
  assumes "system_reachable tf maxf s" "r \<in> set (snd (reap_stale_in_progress None now timeout_secs (ow_table (os_world s))))"
    and "\<forall>r \<in> set (ow_table (os_world s)). \<forall>t. ob_locked_at r = Some t \<longrightarrow> t + int (unat timeout_secs) * 1000000000 < now"
  shows "ob_status r = ObPending \<or>
    ob_status r = ObPublished \<and> (\<exists>e. outbox_event tf (claim_of r) = Ok e \<and> (ob_id r, enc_event tf e, Confirmed ConfirmAck) \<in> set (ow_sent (os_world s))) \<or>
    ob_status r = ObFailed \<and> maxf \<le> ob_fail_count r"
proof -
  from reaper_recovers_claims [OF assms(3)] assms(2) obtain r0 where r0: "r0 \<in> set (ow_table (os_world s))"
    "r = (if ob_status r0 = ObInProgress then r0\<lparr>ob_status := ObPending, ob_locked_at := None\<rparr> else r0)" by auto
  have "row_ok tf maxf (set (ow_sent (os_world s))) r0"
    using system_reachable_inv [OF assms(1)] r0(1) by (simp add: system_inv_def table_inv_def)
  with r0(2) show ?thesis by (cases "ob_status r0") (auto simp: row_ok_def)
qed

text \<open>
  C31. The worker stops on shutdown wherever it is, and what it drops is found again: take a table that writers, workers and reapers have
  reached, and let a worker run among others (its own reaper, other workers, the business service) that act before any of its
  interactions in any way the steps allow. With a business database that answers at start-up and a shutdown token that fires sooner or
  later, be it in a wait or in the middle of a poll, between its fetch, a publish, a confirmation and an UPDATE, the worker returns
  without an error, whatever connections, publishes and statements fail on the way, and every pause before a reconnection is two
  seconds. The state it leaves is one that the steps reach, so everything proved of reachable states holds of it; and once the reaper runs later than
  the timeout after the last claim, every row is pending again, published with the broker's confirmation of its event, or failed with its attempts used up.
\<close>

theorem worker_run_refines_steps:
  assumes "system_reachable (oe_formats env) (oc_max_publish_failures cfg) s"
    and "\<forall>n s. (system_step (oe_formats env) (oc_max_publish_failures cfg))\<^sup>*\<^sup>* s (others n s)"
    and "list_all script_ends cns" and "list_ex cs_cancelled_before cns"
  shows "\<exists>s' waits delays. run_outbox_worker env cfg others (Ok ()) cns s = Some (Ok (), s', waits, delays) \<and>
    set delays \<subseteq> {2} \<and>
    system_reachable (oe_formats env) (oc_max_publish_failures cfg) s' \<and>
    (\<forall>now timeout_secs.
       (\<forall>r \<in> set (ow_table (os_world s')). \<forall>t. ob_locked_at r = Some t \<longrightarrow> t + int (unat timeout_secs) * 1000000000 < now) \<longrightarrow>
       (\<forall>r \<in> set (snd (reap_stale_in_progress None now timeout_secs (ow_table (os_world s')))).
          ob_status r = ObPending \<or>
          ob_status r = ObPublished \<and> (\<exists>e. outbox_event (oe_formats env) (claim_of r) = Ok e \<and>
            (ob_id r, enc_event (oe_formats env) e, Confirmed ConfirmAck) \<in> set (ow_sent (os_world s'))) \<or>
          ob_status r = ObFailed \<and> oc_max_publish_failures cfg \<le> ob_fail_count r))"
proof -
  obtain s' waits delays where r: "worker_loop env cfg others cns 2 s [] [] = Some (s', waits, delays)"
    using worker_loop_returns [OF assms(3,4)] by (metis prod_cases3)
  have "outbox_others (oe_formats env) (oc_max_publish_failures cfg) others" using assms(2) by unfold_locales blast
  from outbox_others.worker_loop_steps [OF this refl refl r] system_reachable_steps [OF assms(1)]
  have reach: "system_reachable (oe_formats env) (oc_max_publish_failures cfg) s'" by blast
  show ?thesis using r worker_loop_delays [OF r] reach reaped_table [OF reach]
    by (intro exI [of _ s'] exI [of _ waits] exI [of _ delays]) (simp add: run_outbox_worker_def)
qed

text \<open>
  Three connections: the first is refused; on the second the reaper frees the row between the fetch and the publish, so that
  the row is sent but not marked; its second poll sends the event again and is dropped before the UPDATE.
\<close>

definition good_connection :: connection_script where
  "good_connection = \<lparr>cs_cancelled_before = False, cs_connect = (\<lambda>_. Ok ()), cs_create_channel = Ok (), cs_confirm_select = Ok (),
     cs_exchange_declare = (\<lambda>_. Ok ()), cs_turns = [(None, False), (Some 2, False)], cs_cancelled_after = False, cs_cancelled_in_sleep = False\<rparr>"

definition sample_connections :: "connection_script list" where
  "sample_connections = [good_connection\<lparr>cs_connect := (\<lambda>_. Err ''refused'')\<rparr>, good_connection,
     good_connection\<lparr>cs_cancelled_before := True\<rparr>]"

definition impatient_reaper :: interference where
  "impatient_reaper = (\<lambda>_. reap_once (calm_env 2000000000) 1)"

lemma sample_worker_run:
  "map_option (\<lambda>(res, s, waits, delays). (res, map ob_status (ow_table (os_world s)), map fst (ow_sent (os_world s)), delays))
     (run_outbox_worker (calm_env 0) sample_cfg impatient_reaper (Ok ()) sample_connections (sys [sample_row] [] 0 [])) =
   Some (Ok (), [ObPending], [''o1'', ''o1''], [2])"
  by code_simp

theorem worker_run_refines_steps_witness:
  "\<exists>s' waits. run_outbox_worker (calm_env 0) sample_cfg impatient_reaper (Ok ()) sample_connections (sys [sample_row] [] 0 [])
       = Some (Ok (), s', waits, [2]) \<and>
     map ob_status (ow_table (os_world s')) = [ObPending] \<and> map fst (ow_sent (os_world s')) = [''o1'', ''o1''] \<and>
     system_reachable sample_formats 5 s'"
proof -
  have s: "system_reachable (oe_formats (calm_env 0)) (oc_max_publish_failures sample_cfg) (sys [sample_row] [] 0 [])"
    using sample_insert by simp
  have o: "\<forall>n s. (system_step (oe_formats (calm_env 0)) (oc_max_publish_failures sample_cfg))\<^sup>*\<^sup>* s (impatient_reaper n s)"
    unfolding impatient_reaper_def using reaper_task.others_steps by blast
  have e: "list_all script_ends sample_connections" "list_ex cs_cancelled_before sample_connections" by code_simp+
  from worker_run_refines_steps [OF s o e] sample_worker_run show ?thesis by fastforce
qed

end
