(* ===== verification/Api.thy ===== *)
theory Api
  imports Events Template_Store Block_List_Store Broker
begin

text \<open>
  \<^verbatim>\<open>crates/api\<close>: the HTTP interface. A handler is a function from the state of the service to
  a result and the new state; the state holds the delivery log, the template and block-list stores
  and the publisher with the messages it handed to the broker. What the environment answers
  (database, clock, broker, generated ids) is an argument indexed by the count of interactions.
  A response is a status code, headers and a JSON body. The text of a \<^verbatim>\<open>serde\<close> error is the
  library's and an argument too.
\<close>

section \<open>State\<close>

text \<open>Whether each step of opening a channel succeeds.\<close>

record open_replies =
  op_connect :: bool
  op_create_channel :: bool
  op_confirm_select :: bool
  op_exchange_declare :: bool

record ('t, 'b) api_env =
  ae_fault :: "nat \<Rightarrow> db_fault"
  ae_now :: "nat \<Rightarrow> datetime"
  ae_connected :: "nat \<Rightarrow> bool"
  ae_open :: "nat \<Rightarrow> open_replies"
  ae_publish :: "nat \<Rightarrow> json \<Rightarrow> publish_reply"
  ae_new_uuid :: "nat \<Rightarrow> uuid"
  ae_formats :: text_formats
  ae_de_text :: "de_error \<Rightarrow> string"
  ae_lower :: "string \<Rightarrow> string"
  ae_pg_lower :: "string \<Rightarrow> string"
  ae_rank :: "string \<Rightarrow> int"
  ae_templates :: "'t template_cache"
  ae_block_list :: "'b block_list_cache"

record Publisher =
  pb_inner :: bool
  pb_sent :: "(json \<times> publish_reply) list"

record ('t, 'b) ApiState =
  as_log :: log_db
  as_template_store :: "'t TemplateStore"
  as_block_list_store :: "'b BlockListStore"
  as_publisher :: Publisher
  as_api_key :: "string option"
  as_filter :: RecipientFilter
  as_max_recipients :: nat
  as_tick :: nat

text \<open>A response has a JSON body, a text (the served documents) or none.\<close>

record response =
  rs_status :: nat
  rs_headers :: "(string \<times> string) list"
  rs_body :: "json option"
  rs_text :: "string option"

definition json_response :: "nat \<Rightarrow> json \<Rightarrow> response" where
  "json_response status body = \<lparr>rs_status = status, rs_headers = [], rs_body = Some body, rs_text = None\<rparr>"

definition no_content :: response where
  "no_content = \<lparr>rs_status = 204, rs_headers = [], rs_body = None, rs_text = None\<rparr>"

definition api_tick :: "('t, 'b) ApiState \<Rightarrow> ('t, 'b) ApiState" where
  "api_tick s = s\<lparr>as_tick := Suc (as_tick s)\<rparr>"

definition log_read ::
  "('t, 'b) api_env \<Rightarrow> (db_fault \<Rightarrow> log_db \<Rightarrow> AppError + 'a) \<Rightarrow> ('t, 'b) ApiState \<Rightarrow> (AppError + 'a) \<times> ('t, 'b) ApiState" where
  "log_read env f s = (f (ae_fault env (as_tick s)) (as_log s), api_tick s)"

definition log_write ::
  "('t, 'b) api_env \<Rightarrow> (db_fault \<Rightarrow> datetime \<Rightarrow> log_db \<Rightarrow> 'a db_result) \<Rightarrow> ('t, 'b) ApiState \<Rightarrow> (AppError + 'a) \<times> ('t, 'b) ApiState" where
  "log_write env f s =
     (case f (ae_fault env (as_tick s)) (ae_now env (as_tick s)) (as_log s) of
        (r, db) \<Rightarrow> (r, (api_tick s)\<lparr>as_log := db\<rparr>))"

section \<open>errors.rs\<close>

definition error_body :: "string \<Rightarrow> json" where
  "error_body msg = JObj [(''error'', JStr msg)]"

fun into_response :: "AppError \<Rightarrow> response" where
  "into_response (NotFound msg) = json_response 404 (error_body msg)"
| "into_response (DuplicateError msg) = json_response 409 (error_body msg)"
| "into_response (Template msg) = json_response 422 (error_body msg)"
| "into_response (Mailer msg Permanent) = json_response 422 (error_body msg)"
| "into_response (BlockedError msg) = json_response 400 (error_body msg)"
| "into_response (Queue msg) = json_response 503 (error_body msg)"
| "into_response (UnknownStatus msg) =
     json_response 500 (error_body (''data integrity error: unknown status '' @ CHR 0x27 # msg @ CHR 0x27 # '' '' @ em_dash @ '' check DB schema vs code version''))"
| "into_response e = json_response 500 (error_body (app_error_to_string e))"

definition respond :: "AppError + response \<Rightarrow> response" where
  "respond r = (case r of Inl e \<Rightarrow> into_response e | Inr x \<Rightarrow> x)"

section \<open>publisher.rs\<close>

text \<open>An error is reported by its context alone.\<close>

definition open_channel :: "open_replies \<Rightarrow> string + unit" where
  "open_channel r =
     (if \<not> op_connect r then Err ''Publisher: failed to connect to RabbitMQ''
      else if \<not> op_create_channel r then Err ''Publisher: create channel''
      else if \<not> op_confirm_select r then Err ''Publisher: confirm_select''
      else if \<not> op_exchange_declare r then Err ''Publisher: exchange_declare''
      else Ok ())"

text \<open>The channel to publish on: the open one while it is connected, else a new one.\<close>

definition ensure_channel :: "('t, 'b) api_env \<Rightarrow> ('t, 'b) ApiState \<Rightarrow> (AppError + unit) \<times> ('t, 'b) ApiState" where
  "ensure_channel env s =
     (if pb_inner (as_publisher s) \<and> ae_connected env (as_tick s) then (Ok (), api_tick s)
      else case open_channel (ae_open env (as_tick s)) of
             Inr _ \<Rightarrow> (Ok (), (api_tick s)\<lparr>as_publisher := (as_publisher s)\<lparr>pb_inner := True\<rparr>\<rparr>)
           | Inl e \<Rightarrow> (Err (Queue (''Publisher reconnect failed: '' @ e)), api_tick s))"

text \<open>The body of the loop over two attempts; the number is that of the attempts left.\<close>

fun publish_attempts :: "('t, 'b) api_env \<Rightarrow> nat \<Rightarrow> json \<Rightarrow> ('t, 'b) ApiState \<Rightarrow> (AppError + unit) \<times> ('t, 'b) ApiState" where
  "publish_attempts env 0 body s = (Err (Queue ''Publisher: publish failed after reconnect''), s)"
| "publish_attempts env (Suc left) body s =
     (case ensure_channel env s of
        (Inl e, s) \<Rightarrow> (Err e, s)
      | (Inr _, s) \<Rightarrow>
          let reply = ae_publish env (as_tick s) body;
              s = (api_tick s)\<lparr>as_publisher := (as_publisher s)\<lparr>pb_sent := pb_sent (as_publisher s) @ [(body, reply)]\<rparr>\<rparr>
          in case reply of
               Confirmed _ \<Rightarrow> (Ok (), s)
             | ConfirmTimedOut \<Rightarrow>
                 (Err (Queue (''Publisher: broker confirm timed out after 10s '' @ em_dash
                    @ '' message may or may not have been persisted; retry the operation'')), s)
             | ConfirmError e \<Rightarrow> (Err (Queue e), s)
             | PublishError e \<Rightarrow>
                 if left = 1
                 then publish_attempts env left body (s\<lparr>as_publisher := (as_publisher s)\<lparr>pb_inner := False\<rparr>\<rparr>)
                 else (Err (Queue e), s))"

definition publisher_publish :: "('t, 'b) api_env \<Rightarrow> json \<Rightarrow> ('t, 'b) ApiState \<Rightarrow> (AppError + unit) \<times> ('t, 'b) ApiState" where
  "publisher_publish env body s = publish_attempts env 2 body s"

section \<open>handlers.rs: replay\<close>

fun json_as_u64 :: "json \<Rightarrow> nat option" where
  "json_as_u64 (JInt i) = (if 0 \<le> i \<and> i < 2 ^ 64 then Some (nat i) else None)"
| "json_as_u64 _ = None"

fun json_as_bool :: "json \<Rightarrow> bool option" where
  "json_as_bool (JBool b) = Some b"
| "json_as_bool _ = None"

fun json_as_array :: "json \<Rightarrow> json list option" where
  "json_as_array (JArr vs) = Some vs"
| "json_as_array _ = None"

definition get_str :: "string \<Rightarrow> json \<Rightarrow> string option" where
  "get_str key j = Option.bind (json_get key j) json_as_str"

definition quote :: "string \<Rightarrow> string" where
  "quote s = CHR 0x27 # s @ [CHR 0x27]"

definition expired_name :: "nat \<Rightarrow> json \<Rightarrow> string option" where
  "expired_name age_secs r =
     Option.bind (Option.bind (json_get ''max_age_secs'' r) json_as_u64) (\<lambda>max_age.
       if age_secs > max_age then get_str ''filename'' r else None)"

fun join :: "string \<Rightarrow> string list \<Rightarrow> string" where
  "join sep [] = []"
| "join sep [x] = x"
| "join sep (x # xs) = x @ sep @ join sep xs"

definition stored :: "(de_error \<Rightarrow> string) \<Rightarrow> string \<Rightarrow> (json \<Rightarrow> de_error + 'a) \<Rightarrow> json \<Rightarrow> AppError + 'a" where
  "stored de_text what dec v =
     (case dec v of
        Inr a \<Rightarrow> Ok a
      | Inl e \<Rightarrow> Err (permanent_mailer (''stored '' @ what @ '' is malformed and cannot be deserialized: '' @ de_text e)))"

definition stored_opt :: "(de_error \<Rightarrow> string) \<Rightarrow> string \<Rightarrow> (json \<Rightarrow> de_error + 'a) \<Rightarrow> json option \<Rightarrow> AppError + 'a option" where
  "stored_opt de_text what dec m = (case m of None \<Rightarrow> Ok None | Some v \<Rightarrow> and_then (stored de_text what dec v) (\<lambda>a. Ok (Some a)))"

definition or_default :: "'a \<Rightarrow> 'a option \<Rightarrow> 'a" where
  "or_default d m = (case m of None \<Rightarrow> d | Some a \<Rightarrow> a)"

definition stored_send_mode :: "string option \<Rightarrow> AppError + SendMode" where
  "stored_send_mode m =
     (case m of
        None \<Rightarrow> Ok SendIndividual
      | Some s \<Rightarrow>
          if s = ''group'' then Ok SendGroup
          else if s = ''individual'' then Ok SendIndividual
          else Err (permanent_mailer (''unknown send_mode value '' @ quote s @ '' in notification_log row '' @ em_dash
                 @ '' fix the DB row before retrying'')))"

definition stored_group_retry_mode :: "string option \<Rightarrow> AppError + GroupRetryMode" where
  "stored_group_retry_mode m =
     (case m of
        None \<Rightarrow> Ok RetryWhole
      | Some s \<Rightarrow>
          (case group_retry_mode_try_from s of
             Inr g \<Rightarrow> Ok g
           | Inl _ \<Rightarrow> Err (permanent_mailer (''unknown group_retry_mode value '' @ quote s @ '' in notification_log row '' @ em_dash
                        @ '' fix the DB row before retrying''))))"

definition guard :: "bool \<Rightarrow> AppError \<Rightarrow> AppError + unit" where
  "guard ok e = (if ok then Ok () else Err e)"

text \<open>Step 3: the stored sender address; step 5: attachments whose links have expired.\<close>

definition check_stored_from :: "EventDeliveryDetail \<Rightarrow> AppError + unit" where
  "check_stored_from detail =
     (case Option.bind (d_from_override detail) (get_str ''email'') of
        None \<Rightarrow> Ok ()
      | Some email \<Rightarrow>
          guard (is_valid_email email)
            (permanent_mailer (''stored from_override email address '' @ quote email @ '' is invalid '' @ em_dash
               @ '' fix the notification_log row before retrying'')))"

definition check_stored_attachments :: "datetime \<Rightarrow> EventDeliveryDetail \<Rightarrow> AppError + unit" where
  "check_stored_attachments now detail =
     (case Option.bind (d_attachments detail) json_as_array of
        None \<Rightarrow> Ok ()
      | Some refs \<Rightarrow>
          let age_secs = nat (max 0 (num_seconds (now - d_event_timestamp detail)));
              expired = List.map_filter (expired_name age_secs) refs
          in guard (expired = [])
               (permanent_mailer (nat_to_string (length expired) @ '' attachment URL(s) have expired (age '' @ nat_to_string age_secs
                  @ ''s > max_age_secs): '' @ join '', '' expired
                  @ ''. The business service must re-publish the event with fresh URLs before retrying.'')))"

text \<open>Step 6: the recipients of the replay.\<close>

definition replay_recipients :: "string list option \<Rightarrow> NotificationLog list \<Rightarrow> Recipient list" where
  "replay_recipients only_emails logs =
     map (\<lambda>l. \<lparr>r_email = l_recipient_email l, r_name = l_recipient_name l\<rparr>)
       (filter (\<lambda>l. case only_emails of None \<Rightarrow> True | Some es \<Rightarrow> l_recipient_email l \<in> set es)
         (filter (\<lambda>l. l_status l \<noteq> Skipped) logs))"

fun check_copies :: "(string \<Rightarrow> string) \<Rightarrow> RecipientFilter \<Rightarrow> Recipient list \<Rightarrow> AppError + unit" where
  "check_copies lower flt [] = Ok ()"
| "check_copies lower flt (r # rs) =
     (case filter_check lower flt (r_email r) of
        Inl (BlockedError m) \<Rightarrow>
          Err (permanent_mailer (''cc/bcc address '' @ r_email r @ '' is blocked: '' @ m
            @ ''. Remove the blocked address before retrying.''))
      | _ \<Rightarrow> check_copies lower flt rs)"

text \<open>Steps 3 to 10: the event that is replayed, from the stored rows.\<close>

definition replay_event ::
  "(de_error \<Rightarrow> string) \<Rightarrow> (string \<Rightarrow> string) \<Rightarrow> RecipientFilter \<Rightarrow> datetime \<Rightarrow> uuid \<Rightarrow> string list option \<Rightarrow> NotificationLog list \<Rightarrow>
   EventDeliveryDetail \<Rightarrow> AppError + NotificationEvent" where
  "replay_event de_text lower flt now event_id only_emails logs detail =
     and_then (check_stored_from detail) (\<lambda>_.
     and_then (check_stored_attachments now detail) (\<lambda>_.
     let recipients = replay_recipients only_emails logs in
     and_then (guard (\<not> (recipients = [] \<and> list_all (\<lambda>l. l_status l = Skipped) logs))
       (permanent_mailer (''Event '' @ event_id @ '' was skipped at validation time and has no deliverable recipients. The publisher must re-publish a corrected event.''))) (\<lambda>_.
     and_then (stored_opt de_text ''from_override'' dec_from_override (d_from_override detail)) (\<lambda>from_override.
     and_then (stored de_text ''attachments JSON'' (dec_vec dec_attachment) (or_default (JArr []) (d_attachments detail))) (\<lambda>attachments.
     and_then (stored_opt de_text ''cc JSON'' (dec_vec dec_recipient) (d_cc detail)) (\<lambda>cc.
     and_then (stored_opt de_text ''bcc JSON'' (dec_vec dec_recipient) (d_bcc detail)) (\<lambda>bcc.
     and_then (stored_send_mode (d_send_mode detail)) (\<lambda>send_mode.
     and_then (stored_group_retry_mode (d_group_retry_mode detail)) (\<lambda>group_retry_mode.
     and_then (check_copies lower flt (or_default [] cc @ or_default [] bcc)) (\<lambda>_.
     and_then (guard (d_payload detail \<noteq> JNull)
       (permanent_mailer (''stored payload is null '' @ em_dash
          @ '' the notification_log row must be repaired with a valid JSON payload before this event can be retried''))) (\<lambda>_.
       Ok \<lparr>ne_event_id = event_id, ne_timestamp = d_event_timestamp detail, ne_event_type = d_event_type detail,
           ne_payload = d_payload detail, ne_metadata = \<lparr>md_source = None\<rparr>,
           ne_channel_overrides = \<lparr>co_email = Some
             \<lparr>eo_send_mode = send_mode, eo_group_retry_mode = group_retry_mode, eo_retry_policy = Retry,
              eo_recipients = recipients, eo_cc = or_default [] cc, eo_bcc = or_default [] bcc,
              eo_from_override = from_override, eo_attachments = attachments,
              eo_sender_account = d_sender_account detail, eo_send_at = None, eo_priority = None\<rparr>\<rparr>\<rparr>)))))))))))"

definition republish_event ::
  "('t, 'b) api_env \<Rightarrow> uuid \<Rightarrow> string list option \<Rightarrow> ('t, 'b) ApiState \<Rightarrow> (AppError + unit) \<times> ('t, 'b) ApiState" where
  "republish_event env event_id only_emails s =
     (case log_read env (\<lambda>f. get_recipients_for_event f event_id only_emails) s of
        (Inl e, s) \<Rightarrow> (Err e, s)
      | (Inr logs, s) \<Rightarrow>
          (case log_read env (\<lambda>f. get_event_delivery_detail f event_id) s of
             (Inl e, s) \<Rightarrow> (Err e, s)
           | (Inr detail, s) \<Rightarrow>
               (case replay_event (ae_de_text env) (ae_lower env) (as_filter s) (ae_now env (as_tick s)) event_id only_emails logs detail of
                  Inl e \<Rightarrow> (Err e, s)
                | Inr event \<Rightarrow> publisher_publish env (enc_event (ae_formats env) event) s)))"

definition republish_or_revert ::
  "('t, 'b) api_env \<Rightarrow> uuid \<Rightarrow> string list \<Rightarrow> ('t, 'b) ApiState \<Rightarrow> (AppError + unit) \<times> ('t, 'b) ApiState" where
  "republish_or_revert env event_id only_emails s =
     (case republish_event env event_id (Some only_emails) s of
        (Inr _, s) \<Rightarrow> (Ok (), s)
      | (Inl e, s) \<Rightarrow>
          (Err e, snd (log_write env (\<lambda>f n. revert_to_failed f n event_id only_emails
             (''manual retry aborted: re-enqueue failed: '' @ app_error_to_string e)) s)))"

definition retry_recipient ::
  "('t, 'b) api_env \<Rightarrow> uuid \<Rightarrow> string \<Rightarrow> ('t, 'b) ApiState \<Rightarrow> (AppError + response) \<times> ('t, 'b) ApiState" where
  "retry_recipient env event_id email s =
     (if \<not> is_valid_email email then (Err (permanent_mailer (quote email @ '' is not a valid email address'')), s)
      else case log_write env (\<lambda>f n. reset_for_retry f n event_id email) s of
             (Inl e, s) \<Rightarrow> (Err e, s)
           | (Inr _, s) \<Rightarrow>
               (case republish_or_revert env event_id [email] s of
                  (Inl e, s) \<Rightarrow> (Err e, s)
                | (Inr _, s) \<Rightarrow>
                    (Ok (json_response 202 (JObj [(''message'', JStr ''Reset to PENDING and re-enqueued for immediate retry.''),
                                    (''eventId'', JStr event_id), (''email'', JStr email)])), s)))"

definition retry_event ::
  "('t, 'b) api_env \<Rightarrow> uuid \<Rightarrow> ('t, 'b) ApiState \<Rightarrow> (AppError + response) \<times> ('t, 'b) ApiState" where
  "retry_event env event_id s =
     (case log_write env (\<lambda>f n. reset_all_failed_for_event f n event_id) s of
        (Inl e, s) \<Rightarrow> (Err e, s)
      | (Inr reset, s) \<Rightarrow>
          if reset = []
          then (case log_read env (\<lambda>f. get_by_event_id f event_id) s of
                  (Inl e, s) \<Rightarrow> (Err e, s)
                | (Inr logs, s) \<Rightarrow>
                    if list_ex (\<lambda>l. l_status l = Skipped) logs
                    then (Err (permanent_mailer (''Event '' @ event_id @ '' was skipped at validation time (no email channel, empty recipients, or recipient count exceeded limit) and cannot be retried. The publisher must re-publish a corrected event.'')), s)
                    else (Err (NotFound (''No FAILED recipients for event '' @ event_id)), s))
          else (case republish_or_revert env event_id reset s of
                  (Inl e, s) \<Rightarrow> (Err e, s)
                | (Inr _, s) \<Rightarrow>
                    (Ok (json_response 202 (JObj [(''message'', JStr ''FAILED recipients reset to PENDING and re-enqueued.''),
                                    (''eventId'', JStr event_id), (''recipientsReset'', JInt (int (length reset))),
                                    (''recipients'', JArr (map JStr reset))])), s)))"

end
