(* ===== verification/Api_Routes.thy ===== *)
theory Api_Routes
  imports Api
begin

text \<open>
  \<^verbatim>\<open>crates/api/src/handlers.rs\<close> without the retry endpoints, \<^verbatim>\<open>docs.rs\<close>, and \<^verbatim>\<open>routes.rs\<close>: the
  bearer-token and rate-limit middleware and the router that puts them around the handlers. A
  request is the endpoint the framework matched with the captures and the body it parsed; a body
  that the framework's extractor cannot decode is answered by the framework.
\<close>

section \<open>State access\<close>

definition template_read ::
  "('t, 'b) api_env \<Rightarrow> (db_fault \<Rightarrow> 't TemplateStore \<Rightarrow> 'a) \<Rightarrow> ('t, 'b) ApiState \<Rightarrow> 'a \<times> ('t, 'b) ApiState" where
  "template_read env f s = (f (ae_fault env (as_tick s)) (as_template_store s), api_tick s)"

definition template_update ::
  "('t, 'b) api_env \<Rightarrow> (db_fault \<Rightarrow> datetime \<Rightarrow> 't TemplateStore \<Rightarrow> 'a \<times> 't TemplateStore) \<Rightarrow>
   ('t, 'b) ApiState \<Rightarrow> 'a \<times> ('t, 'b) ApiState" where
  "template_update env f s =
     (case f (ae_fault env (as_tick s)) (ae_now env (as_tick s)) (as_template_store s) of
        (r, t) \<Rightarrow> (r, (api_tick s)\<lparr>as_template_store := t\<rparr>))"

definition block_list_read ::
  "('t, 'b) api_env \<Rightarrow> (db_fault \<Rightarrow> 'b BlockListStore \<Rightarrow> 'a) \<Rightarrow> ('t, 'b) ApiState \<Rightarrow> 'a \<times> ('t, 'b) ApiState" where
  "block_list_read env f s = (f (ae_fault env (as_tick s)) (as_block_list_store s), api_tick s)"

definition block_list_update ::
  "('t, 'b) api_env \<Rightarrow> (db_fault \<Rightarrow> datetime \<Rightarrow> 'b BlockListStore \<Rightarrow> 'a \<times> 'b BlockListStore) \<Rightarrow>
   ('t, 'b) ApiState \<Rightarrow> 'a \<times> ('t, 'b) ApiState" where
  "block_list_update env f s =
     (case f (ae_fault env (as_tick s)) (ae_now env (as_tick s)) (as_block_list_store s) of
        (r, b) \<Rightarrow> (r, (api_tick s)\<lparr>as_block_list_store := b\<rparr>))"

section \<open>Probes\<close>

definition health :: response where
  "health = json_response 200 (JObj [(''status'', JStr ''ok'')])"

datatype probe_reply = ProbeOk | ProbeError string | ProbeElapsed

definition unavailable :: "string \<Rightarrow> response" where
  "unavailable e = json_response 503 (JObj [(''status'', JStr ''unavailable''), (''error'', JStr e)])"

fun ready :: "probe_reply \<Rightarrow> response" where
  "ready ProbeOk = json_response 200 (JObj [(''status'', JStr ''ready'')])"
| "ready (ProbeError e) = unavailable e"
| "ready ProbeElapsed = unavailable ''db pool acquire timed out (500ms)''"

section \<open>Delivery status\<close>

definition count_status :: "NotificationStatus \<Rightarrow> NotificationLog list \<Rightarrow> nat" where
  "count_status st logs = length (filter (\<lambda>l. l_status l = st) logs)"

definition recipient_json :: "text_formats \<Rightarrow> NotificationLog \<Rightarrow> json" where
  "recipient_json tf l =
     JObj [(''email'', JStr (l_recipient_email l)), (''status'', JStr (status_as_str (l_status l))),
           (''retryCount'', JInt (l_retry_count l)), (''totalAttempts'', JInt (l_total_attempts l)),
           (''lastError'', enc_option JStr (l_last_error l)),
           (''toRecipients'', enc_option id (l_to_recipients l)),
           (''createdAt'', enc_datetime tf (l_created_at l)), (''updatedAt'', enc_datetime tf (l_updated_at l))]"

definition jnat :: "nat \<Rightarrow> json" where
  "jnat n = JInt (int n)"

definition status_summary :: "NotificationLog list \<Rightarrow> json" where
  "status_summary logs =
     JObj [(''total'', jnat (length logs)), (''sent'', jnat (count_status Sent logs)),
           (''blocked'', jnat (count_status Blocked logs)), (''failed'', jnat (count_status Failed logs)),
           (''pending'', jnat (count_status Pending logs)), (''skipped'', jnat (count_status Skipped logs)),
           (''truncated'', JBool (length logs \<ge> 500))]"

definition get_email_status ::
  "('t, 'b) api_env \<Rightarrow> uuid \<Rightarrow> ('t, 'b) ApiState \<Rightarrow> (AppError + response) \<times> ('t, 'b) ApiState" where
  "get_email_status env event_id s =
     (case log_read env (\<lambda>f. get_by_event_id f event_id) s of
        (Inl e, s) \<Rightarrow> (Err e, s)
      | (Inr logs, s) \<Rightarrow>
          (Ok (json_response 200 (JObj [(''eventId'', JStr event_id),
             (''recipients'', JArr (map (recipient_json (ae_formats env)) logs)),
             (''summary'', status_summary logs)])), s))"

definition get_recipient_status ::
  "('t, 'b) api_env \<Rightarrow> uuid \<Rightarrow> string \<Rightarrow> ('t, 'b) ApiState \<Rightarrow> (AppError + response) \<times> ('t, 'b) ApiState" where
  "get_recipient_status env event_id email s =
     (case log_read env (\<lambda>f. get_by_event_and_recipient f event_id email) s of
        (Inl e, s) \<Rightarrow> (Err e, s)
      | (Inr l, s) \<Rightarrow>
          (Ok (json_response 200 (JObj [(''eventId'', JStr (l_event_id l)), (''email'', JStr (l_recipient_email l)),
             (''status'', JStr (status_as_str (l_status l))), (''retryCount'', JInt (l_retry_count l)),
             (''totalAttempts'', JInt (l_total_attempts l)), (''lastError'', enc_option JStr (l_last_error l)),
             (''createdAt'', enc_datetime (ae_formats env) (l_created_at l)),
             (''updatedAt'', enc_datetime (ae_formats env) (l_updated_at l))])), s))"

section \<open>Templates\<close>

definition template_summary_json :: "text_formats \<Rightarrow> TemplateRow \<Rightarrow> json" where
  "template_summary_json tf r =
     JObj [(''event_type'', JStr (tr_event_type r)), (''channel'', JStr (tr_channel r)),
           (''subject'', JStr (tr_subject r)), (''version'', JInt (tr_version r)), (''active'', JBool (tr_active r)),
           (''updated_at'', enc_datetime tf (tr_updated_at r))]"

definition template_json :: "text_formats \<Rightarrow> TemplateRow \<Rightarrow> json" where
  "template_json tf r =
     JObj [(''event_type'', JStr (tr_event_type r)), (''channel'', JStr (tr_channel r)),
           (''subject'', JStr (tr_subject r)), (''body_html'', JStr (tr_body_html r)),
           (''body_text'', JStr (tr_body_text r)), (''version'', JInt (tr_version r)),
           (''active'', JBool (tr_active r)), (''updated_at'', enc_datetime tf (tr_updated_at r))]"

definition list_templates ::
  "('t, 'b) api_env \<Rightarrow> ('t, 'b) ApiState \<Rightarrow> (AppError + response) \<times> ('t, 'b) ApiState" where
  "list_templates env s =
     (case template_read env (template_list (ae_rank env)) s of
        (Inl e, s) \<Rightarrow> (Err e, s)
      | (Inr rows, s) \<Rightarrow>
          (Ok (json_response 200 (JObj [(''templates'', JArr (map (template_summary_json (ae_formats env)) rows))])), s))"

definition get_template ::
  "('t, 'b) api_env \<Rightarrow> string \<Rightarrow> ('t, 'b) ApiState \<Rightarrow> (AppError + response) \<times> ('t, 'b) ApiState" where
  "get_template env event_type s =
     (case template_read env (\<lambda>f. template_get (ae_rank env) f event_type) s of
        (Inl e, s) \<Rightarrow> (Err e, s)
      | (Inr rows, s) \<Rightarrow>
          if rows = [] then (Err (NotFound (''No template found for event type '' @ quote event_type)), s)
          else (Ok (json_response 200 (JObj [(''templates'', JArr (map (template_json (ae_formats env)) rows))])), s))"

definition required_str :: "string \<Rightarrow> json \<Rightarrow> AppError + string" where
  "required_str key body =
     (case get_str key body of None \<Rightarrow> Err (permanent_mailer (''missing field '' @ quote key)) | Some v \<Rightarrow> Ok v)"

definition get_bool :: "string \<Rightarrow> json \<Rightarrow> bool option" where
  "get_bool key j = Option.bind (json_get key j) json_as_bool"

record UpsertArgs =
  ua_event_type :: string
  ua_channel :: string
  ua_subject :: string
  ua_body_html :: string
  ua_body_text :: string
  ua_active :: bool

text \<open>The validation that opens \<^verbatim>\<open>upsert_template\<close>.\<close>

definition upsert_args :: "json \<Rightarrow> AppError + UpsertArgs" where
  "upsert_args body =
     and_then (required_str ''event_type'' body) (\<lambda>ty.
     let channel = trim (or_default ''email'' (get_str ''channel'' body)) in
     and_then (required_str ''subject'' body) (\<lambda>subject.
     and_then (required_str ''body_html'' body) (\<lambda>body_html.
     and_then (required_str ''body_text'' body) (\<lambda>body_text.
     let active = or_default True (get_bool ''active'' body) in
     and_then (guard (trim ty \<noteq> []) (permanent_mailer (quote ''event_type'' @ '' must not be empty''))) (\<lambda>_.
     and_then (guard (channel \<noteq> []) (permanent_mailer (quote ''channel'' @ '' must not be empty''))) (\<lambda>_.
     and_then (guard (trim subject \<noteq> []) (permanent_mailer (quote ''subject'' @ '' must not be empty''))) (\<lambda>_.
       Ok \<lparr>ua_event_type = trim ty, ua_channel = channel, ua_subject = trim subject,
           ua_body_html = trim body_html, ua_body_text = trim body_text, ua_active = active\<rparr>)))))))"

definition upsert_template ::
  "('t, 'b) api_env \<Rightarrow> json \<Rightarrow> ('t, 'b) ApiState \<Rightarrow> (AppError + response) \<times> ('t, 'b) ApiState" where
  "upsert_template env body s =
     (case upsert_args body of
        Inl e \<Rightarrow> (Err e, s)
      | Inr a \<Rightarrow>
          (case template_update env (\<lambda>f n. template_upsert (ae_templates env) f n (ua_event_type a) (ua_channel a)
                  (ua_subject a) (ua_body_html a) (ua_body_text a) (ua_active a)) s of
             (Inl e, s) \<Rightarrow> (Err e, s)
           | (Inr (version, inserted), s) \<Rightarrow>
               (Ok (json_response (if inserted then 201 else 200)
                  (JObj [(''event_type'', JStr (ua_event_type a)), (''channel'', JStr (ua_channel a)),
                         (''version'', JInt version), (''active'', JBool (ua_active a)),
                         (''inserted'', JBool inserted)])), s)))"

definition patch_template ::
  "('t, 'b) api_env \<Rightarrow> string \<Rightarrow> json \<Rightarrow> ('t, 'b) ApiState \<Rightarrow> (AppError + response) \<times> ('t, 'b) ApiState" where
  "patch_template env event_type body s =
     (let channel = trim (or_default ''email'' (get_str ''channel'' body))
      in case template_update env (\<lambda>f n. template_patch (ae_templates env) f n event_type channel
                (get_str ''subject'' body) (get_str ''body_html'' body) (get_str ''body_text'' body)
                (get_bool ''active'' body)) s of
           (Inl e, s) \<Rightarrow> (Err e, s)
         | (Inr None, s) \<Rightarrow>
             (Err (NotFound (''No template found for event type '' @ quote event_type @ '' channel '' @ quote channel)), s)
         | (Inr (Some (version, active)), s) \<Rightarrow>
             (Ok (json_response 200 (JObj [(''event_type'', JStr event_type), (''channel'', JStr channel),
                    (''version'', JInt version), (''active'', JBool active)])), s))"

definition invalidate_template_cache :: "('t, 'b) api_env \<Rightarrow> string \<Rightarrow> ('t, 'b) ApiState \<Rightarrow> response \<times> ('t, 'b) ApiState" where
  "invalidate_template_cache env event_type s =
     (no_content, s\<lparr>as_template_store := template_invalidate (ae_templates env) event_type (as_template_store s)\<rparr>)"

definition invalidate_all_template_cache :: "('t, 'b) api_env \<Rightarrow> ('t, 'b) ApiState \<Rightarrow> response \<times> ('t, 'b) ApiState" where
  "invalidate_all_template_cache env s =
     (no_content, s\<lparr>as_template_store := template_invalidate_all (ae_templates env) (as_template_store s)\<rparr>)"

section \<open>Block list\<close>

definition entry_json :: "text_formats \<Rightarrow> BlockListEntry \<Rightarrow> json" where
  "entry_json tf e =
     JObj [(''id'', JInt (b_id e)), (''kind'', JStr (b_kind e)), (''value'', JStr (b_value e)),
           (''reason'', enc_option JStr (b_reason e)), (''createdAt'', enc_datetime tf (b_created_at e))]"

definition list_blocklist ::
  "('t, 'b) api_env \<Rightarrow> ('t, 'b) ApiState \<Rightarrow> (AppError + response) \<times> ('t, 'b) ApiState" where
  "list_blocklist env s =
     (case block_list_read env list_entries s of
        (Inl e, s) \<Rightarrow> (Err e, s)
      | (Inr entries, s) \<Rightarrow>
          (Ok (json_response 200 (JObj [(''entries'', JArr (map (entry_json (ae_formats env)) entries))])), s))"

record EntryArgs =
  ea_kind :: string
  ea_value :: string
  ea_reason :: "string option"

text \<open>The validation that opens \<^verbatim>\<open>add_blocklist_entry\<close>.\<close>

definition entry_args :: "json \<Rightarrow> AppError + EntryArgs" where
  "entry_args body =
     and_then (required_str ''kind'' body) (\<lambda>kind.
     and_then (required_str ''value'' body) (\<lambda>value.
     let reason = get_str ''reason'' body; value = trim value in
     and_then (guard (kind \<in> set block_list_kinds)
       (permanent_mailer (''invalid kind '' @ quote kind @ '' '' @ em_dash @ '' must be one of: '' @ join '', '' block_list_kinds))) (\<lambda>_.
     and_then (guard (value \<noteq> []) (permanent_mailer (quote ''value'' @ '' must not be empty''))) (\<lambda>_.
     and_then
       (if kind = ''blocked_email'' \<or> kind = ''allowed_email''
        then guard (is_valid_email value)
               (permanent_mailer (quote value @ '' is not a valid email address for kind '' @ quote kind))
        else guard (\<not> (CHR ''@'' \<in> set value \<or> CHR ''.'' \<notin> set value))
               (permanent_mailer (quote value @ '' is not a valid domain for kind '' @ quote kind
                  @ '' (expected format: '' @ quote ''example.com'' @ '')''))) (\<lambda>_.
       Ok \<lparr>ea_kind = kind, ea_value = value, ea_reason = reason\<rparr>)))))"

definition add_blocklist_entry ::
  "('t, 'b) api_env \<Rightarrow> json \<Rightarrow> ('t, 'b) ApiState \<Rightarrow> (AppError + response) \<times> ('t, 'b) ApiState" where
  "add_blocklist_entry env body s =
     (case entry_args body of
        Inl e \<Rightarrow> (Err e, s)
      | Inr a \<Rightarrow>
          (case block_list_update env (\<lambda>f n. add_entry (ae_lower env) (ae_pg_lower env) (ae_block_list env) f n
                  (ea_kind a) (ea_value a) (ea_reason a)) s of
             (Inl e, s) \<Rightarrow> (Err e, s)
           | (Inr entry, s) \<Rightarrow> (Ok (json_response 201 (entry_json (ae_formats env) entry)), s)))"

definition remove_blocklist_entry ::
  "('t, 'b) api_env \<Rightarrow> int \<Rightarrow> ('t, 'b) ApiState \<Rightarrow> (AppError + response) \<times> ('t, 'b) ApiState" where
  "remove_blocklist_entry env i s =
     (case block_list_update env (\<lambda>f n. remove_entry (ae_block_list env) f i) s of
        (Inl e, s) \<Rightarrow> (Err e, s)
      | (Inr _, s) \<Rightarrow> (Ok no_content, s))"

definition invalidate_blocklist_cache :: "('t, 'b) api_env \<Rightarrow> ('t, 'b) ApiState \<Rightarrow> response \<times> ('t, 'b) ApiState" where
  "invalidate_blocklist_cache env s =
     (no_content, s\<lparr>as_block_list_store := bl_invalidate (ae_block_list env) (as_block_list_store s)\<rparr>)"

definition warmup_address :: string where
  "warmup_address = ''__cache_warmup__@example.com''"

definition reload_blocklist_cache :: "('t, 'b) api_env \<Rightarrow> ('t, 'b) ApiState \<Rightarrow> response \<times> ('t, 'b) ApiState" where
  "reload_blocklist_cache env s =
     (let s = s\<lparr>as_block_list_store := bl_invalidate (ae_block_list env) (as_block_list_store s)\<rparr>
      in case block_list_read env list_entries s of
           (Inr entries, s) \<Rightarrow>
             (json_response 200 (JObj [(''reloaded'', JBool True), (''entry_count'', jnat (length entries))]),
              snd (block_list_update env (\<lambda>f n. bl_check (ae_lower env) (ae_block_list env) f n warmup_address) s))
         | (Inl e, s) \<Rightarrow> (json_response 500 (error_body (app_error_to_string e)), s))"

section \<open>Direct send\<close>

record SendEmailRequest =
  sr_event_id :: "uuid option"
  sr_event_type :: string
  sr_payload :: json
  sr_email :: EmailOptions
  sr_source :: "string option"

definition send_request_fields :: "string list list" where
  "send_request_fields = [[''event_id''], [''event_type''], [''payload''], [''email''], [''source'']]"

definition dec_send_request :: "text_formats \<Rightarrow> json \<Rightarrow> de_error + SendEmailRequest" where
  "dec_send_request tf j =
     and_then (struct_slots send_request_fields j) (\<lambda>fs.
     and_then (with_default None (dec_option (dec_uuid tf)) (fs ! 0)) (\<lambda>event_id.
     and_then (required dec_string (fs ! 1)) (\<lambda>event_type.
     and_then (required Ok (fs ! 2)) (\<lambda>payload.
     and_then (required (dec_email_options tf) (fs ! 3)) (\<lambda>email.
     and_then (with_default None (dec_option dec_string) (fs ! 4)) (\<lambda>source.
       Ok \<lparr>sr_event_id = event_id, sr_event_type = event_type, sr_payload = payload, sr_email = email,
           sr_source = source\<rparr>))))))"

text \<open>The loop over one address list: the first invalid address is the error.\<close>

fun check_addresses :: "string \<Rightarrow> Recipient list \<Rightarrow> AppError + unit" where
  "check_addresses what [] = Ok ()"
| "check_addresses what (r # rs) =
     (if is_valid_email (r_email r) then check_addresses what rs
      else Err (permanent_mailer (''invalid '' @ what @ '' email address: '' @ quote (r_email r))))"

fun check_attachment_refs :: "datetime \<Rightarrow> AttachmentRef list \<Rightarrow> AppError + unit" where
  "check_attachment_refs now [] = Ok ()"
| "check_attachment_refs now (a # as) =
     (case attachment_validate a now now of
        Inl e \<Rightarrow> Err (permanent_mailer e)
      | Inr _ \<Rightarrow> check_attachment_refs now as)"

definition check_from_override :: "FromOverride option \<Rightarrow> AppError + unit" where
  "check_from_override m =
     (case m of
        None \<Rightarrow> Ok ()
      | Some ov \<Rightarrow> guard (is_valid_email (fo_email ov))
          (permanent_mailer (''invalid from_override email address: '' @ quote (fo_email ov))))"

definition check_send_request :: "nat \<Rightarrow> datetime \<Rightarrow> SendEmailRequest \<Rightarrow> AppError + unit" where
  "check_send_request max_recipients now req =
     (let email = sr_email req; n = length (eo_recipients email) in
      and_then (guard (trim (sr_event_type req) \<noteq> []) (permanent_mailer ''event_type must not be empty'')) (\<lambda>_.
      and_then (guard (eo_recipients email \<noteq> [])
        (permanent_mailer ''email.recipients must contain at least one entry'')) (\<lambda>_.
      and_then (guard (n \<le> max_recipients)
        (permanent_mailer (''recipient count '' @ nat_to_string n @ '' exceeds max_recipients_per_event ''
           @ nat_to_string max_recipients))) (\<lambda>_.
      and_then (check_addresses ''recipient'' (eo_recipients email)) (\<lambda>_.
      and_then (check_addresses ''cc'' (eo_cc email)) (\<lambda>_.
      and_then (check_addresses ''bcc'' (eo_bcc email)) (\<lambda>_.
      and_then (check_from_override (eo_from_override email)) (\<lambda>_.
        check_attachment_refs now (eo_attachments email)))))))))"

definition send_event :: "uuid \<Rightarrow> datetime \<Rightarrow> SendEmailRequest \<Rightarrow> NotificationEvent" where
  "send_event event_id now req =
     \<lparr>ne_event_id = event_id, ne_timestamp = now, ne_event_type = sr_event_type req,
      ne_payload = sr_payload req, ne_metadata = \<lparr>md_source = sr_source req\<rparr>,
      ne_channel_overrides = \<lparr>co_email = Some (sr_email req)\<rparr>\<rparr>"

definition send_email ::
  "('t, 'b) api_env \<Rightarrow> SendEmailRequest \<Rightarrow> ('t, 'b) ApiState \<Rightarrow> (AppError + response) \<times> ('t, 'b) ApiState" where
  "send_email env req s =
     (let now = ae_now env (as_tick s)
      in case check_send_request (as_max_recipients s) now req of
           Inl e \<Rightarrow> (Err e, s)
         | Inr _ \<Rightarrow>
             let event_id = or_default (ae_new_uuid env (as_tick s)) (sr_event_id req);
                 event = send_event event_id now req
             in case publisher_publish env (enc_event (ae_formats env) event) s of
                  (Inl e, s) \<Rightarrow> (Err e, s)
                | (Inr _, s) \<Rightarrow>
                    (Ok (json_response 202 (JObj [(''message'', JStr ''Event accepted and enqueued for delivery.''),
                           (''eventId'', JStr event_id), (''eventType'', JStr (sr_event_type req))])), s))"

section \<open>docs.rs\<close>

text \<open>The embedded files are arguments.\<close>

record documents =
  ds_html :: string
  ds_openapi :: string
  ds_asyncapi :: string

definition document_response :: "string \<Rightarrow> string \<Rightarrow> response" where
  "document_response content_type txt = \<lparr>rs_status = 200, rs_headers = [(''content-type'', content_type)], rs_body = None, rs_text = Some txt\<rparr>"

definition docs_page :: "documents \<Rightarrow> response" where
  "docs_page ds = document_response ''text/html; charset=utf-8'' (ds_html ds)"

definition openapi :: "documents \<Rightarrow> response" where
  "openapi ds = document_response ''application/yaml'' (ds_openapi ds)"

definition asyncapi :: "documents \<Rightarrow> response" where
  "asyncapi ds = document_response ''application/yaml'' (ds_asyncapi ds)"

section \<open>Routes and middleware\<close>

datatype api_request =
    GetHealth
  | GetReady
  | GetDocs
  | GetOpenapi
  | GetAsyncapi
  | PostSend json
  | GetEmail uuid
  | GetEmailRecipient uuid string
  | GetTemplates
  | PostTemplate json
  | GetTemplateOf string
  | PatchTemplate string json
  | DeleteTemplateCache
  | DeleteTemplateCacheOf string
  | GetBlocklist
  | PostBlocklist json
  | DeleteBlocklistCache
  | PostBlocklistCache
  | DeleteBlocklistEntry int
  | PostRetryEvent uuid
  | PostRetryRecipient uuid string

text \<open>What the router gets from the environment: the probe, the retry bucket, the digest of the token
  comparison (crates \<^verbatim>\<open>hmac\<close> and \<^verbatim>\<open>sha2\<close>), the framework's answer to an undecodable body and the embedded documents.\<close>

record router_env =
  re_probe :: "nat \<Rightarrow> probe_reply"
  re_retry_permit :: "nat \<Rightarrow> bool"
  re_mac :: "string \<Rightarrow> string \<Rightarrow> string"
  re_reject :: "de_error \<Rightarrow> response"
  re_documents :: documents

definition into_reply :: "(AppError + response) \<times> 's \<Rightarrow> response \<times> 's" where
  "into_reply r = (respond (fst r), snd r)"

fun call_handler ::
  "router_env \<Rightarrow> ('t, 'b) api_env \<Rightarrow> api_request \<Rightarrow> ('t, 'b) ApiState \<Rightarrow> response \<times> ('t, 'b) ApiState" where
  "call_handler re env GetHealth s = (health, s)"
| "call_handler re env GetReady s = (ready (re_probe re (as_tick s)), api_tick s)"
| "call_handler re env GetDocs s = (docs_page (re_documents re), s)"
| "call_handler re env GetOpenapi s = (openapi (re_documents re), s)"
| "call_handler re env GetAsyncapi s = (asyncapi (re_documents re), s)"
| "call_handler re env (PostSend body) s =
     (case dec_send_request (ae_formats env) body of
        Inl e \<Rightarrow> (re_reject re e, s)
      | Inr req \<Rightarrow> into_reply (send_email env req s))"
| "call_handler re env (GetEmail ev) s = into_reply (get_email_status env ev s)"
| "call_handler re env (GetEmailRecipient ev email) s = into_reply (get_recipient_status env ev email s)"
| "call_handler re env GetTemplates s = into_reply (list_templates env s)"
| "call_handler re env (PostTemplate body) s = into_reply (upsert_template env body s)"
| "call_handler re env (GetTemplateOf ty) s = into_reply (get_template env ty s)"
| "call_handler re env (PatchTemplate ty body) s = into_reply (patch_template env ty body s)"
| "call_handler re env DeleteTemplateCache s = invalidate_all_template_cache env s"
| "call_handler re env (DeleteTemplateCacheOf ty) s = invalidate_template_cache env ty s"
| "call_handler re env GetBlocklist s = into_reply (list_blocklist env s)"
| "call_handler re env (PostBlocklist body) s = into_reply (add_blocklist_entry env body s)"
| "call_handler re env DeleteBlocklistCache s = invalidate_blocklist_cache env s"
| "call_handler re env PostBlocklistCache s = reload_blocklist_cache env s"
| "call_handler re env (DeleteBlocklistEntry i) s = into_reply (remove_blocklist_entry env i s)"
| "call_handler re env (PostRetryEvent ev) s = into_reply (retry_event env ev s)"
| "call_handler re env (PostRetryRecipient ev email) s = into_reply (retry_recipient env ev email s)"

definition retry_rate_limit ::
  "router_env \<Rightarrow> (('t, 'b) ApiState \<Rightarrow> response \<times> ('t, 'b) ApiState) \<Rightarrow> ('t, 'b) ApiState \<Rightarrow> response \<times> ('t, 'b) ApiState" where
  "retry_rate_limit re next_run s =
     (if \<not> re_retry_permit re (as_tick s)
      then (\<lparr>rs_status = 429, rs_headers = [(''Retry-After'', ''60'')],
             rs_body = Some (error_body (''retry rate limit exceeded '' @ em_dash @ '' maximum 60 retries per minute'')), rs_text = None\<rparr>,
            api_tick s)
      else next_run (api_tick s))"

definition strip_prefix :: "string \<Rightarrow> string \<Rightarrow> string option" where
  "strip_prefix p s = (if starts_with p s then Some (drop (length p) s) else None)"

text \<open>The header is \<^verbatim>\<open>None\<close> when it is missing or not a visible ASCII text.\<close>

definition bearer_auth ::
  "router_env \<Rightarrow> string option \<Rightarrow> (('t, 'b) ApiState \<Rightarrow> response \<times> ('t, 'b) ApiState) \<Rightarrow> ('t, 'b) ApiState \<Rightarrow>
   response \<times> ('t, 'b) ApiState" where
  "bearer_auth re authorization next_run s =
     (case as_api_key s of
        None \<Rightarrow> next_run s
      | Some expected \<Rightarrow>
          (case Option.bind authorization (strip_prefix ''Bearer '') of
             None \<Rightarrow> (json_response 401 (error_body ''Authorization header missing or malformed''), s)
           | Some t \<Rightarrow>
               if re_mac re expected t \<noteq> re_mac re expected expected
               then (json_response 403 (error_body ''Invalid API key''), s)
               else next_run s))"

fun is_probe :: "api_request \<Rightarrow> bool" where
  "is_probe GetHealth = True"
| "is_probe GetReady = True"
| "is_probe _ = False"

fun is_document :: "api_request \<Rightarrow> bool" where
  "is_document GetDocs = True"
| "is_document GetOpenapi = True"
| "is_document GetAsyncapi = True"
| "is_document _ = False"

fun is_retry :: "api_request \<Rightarrow> bool" where
  "is_retry (PostRetryEvent _) = True"
| "is_retry (PostRetryRecipient _ _) = True"
| "is_retry _ = False"

text \<open>The probes and the documents are merged beside the routes that the token protects.\<close>

definition build_router ::
  "router_env \<Rightarrow> ('t, 'b) api_env \<Rightarrow> string option \<Rightarrow> api_request \<Rightarrow> ('t, 'b) ApiState \<Rightarrow> response \<times> ('t, 'b) ApiState" where
  "build_router re env authorization req s =
     (if is_probe req \<or> is_document req then call_handler re env req s
      else bearer_auth re authorization
             (if is_retry req then retry_rate_limit re (call_handler re env req) else call_handler re env req) s)"

end
