(* ===== verification/Api_Props.thy ===== *)
theory Api_Props
  imports Api_Routes Log_Invariants "HOL-Library.Sublist"
begin

text \<open>
  The HTTP interface: what a request can change, that requests without the token change nothing,
  when the publisher reports success, and that a refused bulk retry leaves every delivery status as
  it was.
\<close>

section \<open>What a request can change\<close>

definition template_kept :: "('t, 'b) api_env \<Rightarrow> ('t, 'b) ApiState \<Rightarrow> ('t, 'b) ApiState \<Rightarrow> bool" where
  "template_kept env s s' \<longleftrightarrow>
     (template_inv (ae_templates env) (as_template_store s) \<longrightarrow> template_inv (ae_templates env) (as_template_store s'))"

definition block_list_kept :: "('t, 'b) api_env \<Rightarrow> ('t, 'b) ApiState \<Rightarrow> ('t, 'b) ApiState \<Rightarrow> bool" where
  "block_list_kept env s s' \<longleftrightarrow>
     (bl_inv (ae_lower env) (ae_block_list env) (as_block_list_store s) \<longrightarrow>
      bl_inv (ae_lower env) (ae_block_list env) (as_block_list_store s'))"

definition same_config :: "('t, 'b) ApiState \<Rightarrow> ('t, 'b) ApiState \<Rightarrow> bool" where
  "same_config s s' \<longleftrightarrow>
     as_api_key s' = as_api_key s \<and> as_filter s' = as_filter s \<and> as_max_recipients s' = as_max_recipients s"

definition api_step :: "('t, 'b) api_env \<Rightarrow> ('t, 'b) ApiState \<Rightarrow> ('t, 'b) ApiState \<Rightarrow> bool" where
  "api_step env s s' \<longleftrightarrow>
     operator_step\<^sup>*\<^sup>* (as_log s) (as_log s') \<and> template_kept env s s' \<and> block_list_kept env s s' \<and> same_config s s' \<and>
     prefix (pb_sent (as_publisher s)) (pb_sent (as_publisher s')) \<and> as_tick s \<le> as_tick s'"

lemmas api_step_defs = api_step_def template_kept_def block_list_kept_def same_config_def

lemma api_step_refl [simp]: "api_step env s s"
  by (simp add: api_step_defs)

lemma api_step_trans [trans]: "api_step env s s1 \<Longrightarrow> api_step env s1 s2 \<Longrightarrow> api_step env s s2"
  unfolding api_step_defs by (auto intro: rtranclp_trans prefix_order.trans)

lemma api_step_tick [simp]: "api_step env s (api_tick s)"
  by (simp add: api_step_defs api_tick_def)

lemma api_step_from_tick: "api_step env (api_tick s) s' \<Longrightarrow> api_step env s s'"
  by (rule api_step_trans [OF api_step_tick])

lemma api_step_two_ticks [simp]: "api_step env s (api_tick (api_tick s))"
  by (rule api_step_from_tick) simp

lemma log_read_state: "log_read env f s = (r, s') \<Longrightarrow> s' = api_tick s"
  by (simp add: log_read_def)

lemma log_write_step:
  assumes "\<And>f n db. operator_step db (snd (g f n db))" "log_write env g s = (r, s')"
  shows "api_step env s s'"
  using assms(1) [of "as_log s" "ae_fault env (as_tick s)" "ae_now env (as_tick s)"] assms(2)
  by (auto simp: log_write_def api_step_defs api_tick_def split: prod.splits)

lemmas log_write_steps =
  log_write_step [OF step_reset] log_write_step [OF step_reset_all] log_write_step [OF step_revert]

lemma publish_attempts_step: "publish_attempts env n body s = (r, s') \<Longrightarrow> api_step env s s'"
proof (induction n arbitrary: s)
  case (Suc n)
  obtain r1 s1 where 1: "ensure_channel env s = (r1, s1)" by fastforce
  then have e: "api_step env s s1"
    by (auto simp: ensure_channel_def api_step_defs api_tick_def split: if_splits sum.splits)
  let ?s2 = "(api_tick s1)\<lparr>as_publisher := (as_publisher s1)\<lparr>pb_sent := pb_sent (as_publisher s1) @ [(body, ae_publish env (as_tick s1) body)]\<rparr>\<rparr>"
  let ?s3 = "?s2\<lparr>as_publisher := (as_publisher ?s2)\<lparr>pb_inner := False\<rparr>\<rparr>"
  have "api_step env s1 ?s2" "api_step env s1 ?s3" by (simp_all add: api_step_defs api_tick_def)
  then have f: "api_step env s ?s2" "api_step env s ?s3" using e api_step_trans by blast+
  have "s' = s1 \<or> s' = ?s2 \<or> publish_attempts env n body ?s3 = (r, s')"
    using Suc.prems 1 by (auto simp: Let_def split: sum.splits publish_reply.splits if_splits)
  then show ?case using e f Suc.IH [of ?s3] api_step_trans by blast
qed simp

lemma publisher_publish_step: "publisher_publish env body s = (r, s') \<Longrightarrow> api_step env s s'"
  unfolding publisher_publish_def by (rule publish_attempts_step)

lemma republish_event_step: "republish_event env ev only s = (r, s') \<Longrightarrow> api_step env s s'"
  by (auto simp: republish_event_def split: prod.splits sum.splits
      dest!: log_read_state publisher_publish_step api_step_from_tick)

lemma republish_or_revert_step: "republish_or_revert env ev only s = (r, s') \<Longrightarrow> api_step env s s'"
proof -
  assume run: "republish_or_revert env ev only s = (r, s')"
  obtain r1 s1 where 1: "republish_event env ev (Some only) s = (r1, s1)" by fastforce
  have "api_step env s s1" using 1 by (rule republish_event_step)
  moreover have "api_step env s1 s'"
    using run 1
    by (cases r1)
      (auto simp: republish_or_revert_def intro: log_write_steps(3) [OF surjective_pairing])
  ultimately show ?thesis by (rule api_step_trans)
qed

lemma retry_recipient_step: "retry_recipient env ev email s = (r, s') \<Longrightarrow> api_step env s s'"
  by (auto simp: retry_recipient_def split: prod.splits sum.splits if_splits
      dest!: log_write_steps republish_or_revert_step intro: api_step_trans)

lemma retry_event_step: "retry_event env ev s = (r, s') \<Longrightarrow> api_step env s s'"
  by (auto simp: retry_event_def split: prod.splits sum.splits if_splits
      dest!: log_read_state log_write_steps republish_or_revert_step intro: api_step_trans api_step_tick)

lemma send_email_step: "send_email env req s = (r, s') \<Longrightarrow> api_step env s s'"
  by (auto simp: send_email_def Let_def split: prod.splits sum.splits dest!: publisher_publish_step)

lemma read_steps:
  "api_step env s (snd (get_email_status env ev s))"
  "api_step env s (snd (get_recipient_status env ev email s))"
  "api_step env s (snd (list_templates env s))"
  "api_step env s (snd (get_template env ty s))"
  "api_step env s (snd (list_blocklist env s))"
  by (auto simp: get_email_status_def get_recipient_status_def list_templates_def get_template_def list_blocklist_def
      template_read_def block_list_read_def split: prod.splits sum.splits dest!: log_read_state)

section \<open>The stores behind the interface\<close>

text \<open>What the interface relies on: both caches keep the cache contract and the lower-casing is one.\<close>

locale api_stores = templates: template_cache "ae_templates env" + lists: block_list_cache "ae_block_list env" "ae_lower env"
  for env :: "('t, 'b) api_env"
begin

lemma template_update_step:
  assumes "\<And>f n t. template_inv (ae_templates env) t \<Longrightarrow> template_inv (ae_templates env) (snd (g f n t))"
    and "template_update env g s = (r, s')"
  shows "api_step env s s'"
  using assms(1) [of "as_template_store s" "ae_fault env (as_tick s)" "ae_now env (as_tick s)"] assms(2)
  by (auto simp: template_update_def api_step_defs api_tick_def split: prod.splits)

lemma block_list_update_step:
  assumes "\<And>f n t. bl_inv (ae_lower env) (ae_block_list env) t \<Longrightarrow> bl_inv (ae_lower env) (ae_block_list env) (snd (g f n t))"
    and "block_list_update env g s = (r, s')"
  shows "api_step env s s'"
  using assms(1) [of "as_block_list_store s" "ae_fault env (as_tick s)" "ae_now env (as_tick s)"] assms(2)
  by (auto simp: block_list_update_def api_step_defs api_tick_def split: prod.splits)

lemma template_write_steps:
  "upsert_template env body s = (r, s') \<Longrightarrow> api_step env s s'"
  "patch_template env ty body s = (r, s') \<Longrightarrow> api_step env s s'"
  by (auto simp: upsert_template_def patch_template_def Let_def split: prod.splits sum.splits option.splits
      dest!: template_update_step [OF templates.upsert_inv, rotated] template_update_step [OF templates.patch_inv, rotated])

lemma template_invalidation_steps:
  "api_step env s (snd (invalidate_template_cache env ty s))" "api_step env s (snd (invalidate_all_template_cache env s))"
  using templates.coherent_invalidations
  by (auto simp: invalidate_template_cache_def invalidate_all_template_cache_def api_step_defs template_inv_def
      template_invalidate_all_def)

lemma bl_check_inv:
  "bl_inv (ae_lower env) (ae_block_list env) t \<Longrightarrow>
   bl_inv (ae_lower env) (ae_block_list env) (snd (bl_check (ae_lower env) (ae_block_list env) f n a t))"
  using lists.snapshot_fresh [of t n f]
  by (auto simp: bl_check_def split: prod.splits sum.splits)

lemma block_list_write_steps:
  "add_blocklist_entry env body s = (r, s') \<Longrightarrow> api_step env s s'"
  "remove_blocklist_entry env i s = (r, s') \<Longrightarrow> api_step env s s'"
  by (auto simp: add_blocklist_entry_def remove_blocklist_entry_def split: prod.splits sum.splits
      dest!: block_list_update_step [OF lists.add_entry_inv, rotated] block_list_update_step [OF lists.remove_entry_inv, rotated])

lemma block_list_cache_steps:
  "api_step env s (snd (invalidate_blocklist_cache env s))" "api_step env s (snd (reload_blocklist_cache env s))"
proof -
  let ?s = "s\<lparr>as_block_list_store := bl_invalidate (ae_block_list env) (as_block_list_store s)\<rparr>"
  have 0: "api_step env s ?s"
    using lists.write_inv_same_id [of "bl_rows (as_block_list_store s)" "as_block_list_store s"]
    by (simp add: api_step_defs bl_inv_def)
  then show "api_step env s (snd (invalidate_blocklist_cache env s))" by (simp add: invalidate_blocklist_cache_def)
  have "api_step env ?s (snd (reload_blocklist_cache env s))"
    using block_list_update_step [OF bl_check_inv surjective_pairing, THEN api_step_from_tick]
    by (auto simp: reload_blocklist_cache_def block_list_read_def Let_def split: sum.splits)
  with 0 show "api_step env s (snd (reload_blocklist_cache env s))" by (rule api_step_trans)
qed

lemma call_handler_step: "api_step env s (snd (call_handler re env req s))"
proof (cases req)
  case (PostSend body)
  then show ?thesis by (auto simp: into_reply_def send_email_step [OF surjective_pairing] split: sum.splits)
qed (auto simp: into_reply_def read_steps template_invalidation_steps block_list_cache_steps
    intro: surjective_pairing template_write_steps block_list_write_steps retry_event_step retry_recipient_step)

lemma build_router_step: "api_step env s (snd (build_router re env authorization req s))"
  using call_handler_step [of s re req] call_handler_step [of "api_tick s" re req, THEN api_step_from_tick]
  by (auto simp: build_router_def bearer_auth_def retry_rate_limit_def split: option.splits)

end

definition in_process_stores ::
  "((string \<times> NotificationTemplate \<times> datetime) list, (string \<times> BlockListSnapshot \<times> datetime) list) api_env \<Rightarrow>
   ((string \<times> NotificationTemplate \<times> datetime) list, (string \<times> BlockListSnapshot \<times> datetime) list) api_env" where
  "in_process_stores env =
     env\<lparr>ae_templates := ttl_cache (300 * 1000000000), ae_block_list := ttl_cache (60 * 1000000000), ae_lower := ascii_lowercase\<rparr>"

interpretation ttl_api: api_stores "in_process_stores env" for env
  unfolding api_stores_def in_process_stores_def
  using email_templates.template_cache_axioms ascii_block_list.block_list_cache_axioms by simp

definition api_inv :: "('t, 'b) api_env \<Rightarrow> ('t, 'b) ApiState \<Rightarrow> bool" where
  "api_inv env s \<longleftrightarrow>
     log_inv (as_log s) \<and> template_inv (ae_templates env) (as_template_store s) \<and>
     bl_inv (ae_lower env) (ae_block_list env) (as_block_list_store s)"

lemma operator_steps_log: "operator_step\<^sup>*\<^sup>* db db' \<Longrightarrow> log_step\<^sup>*\<^sup>* db db'"
  by (induction rule: rtranclp_induct) (auto simp: log_step_def intro: rtranclp.rtrancl_into_rtrancl)

lemma api_step_inv: "api_step env s s' \<Longrightarrow> api_inv env s \<Longrightarrow> api_inv env s'"
  using log_steps_inv operator_steps_log by (auto simp: api_step_defs api_inv_def)

lemma operator_steps_keep:
  "operator_step\<^sup>*\<^sup>* db db' \<Longrightarrow> r \<in> set (notification_log db) \<Longrightarrow> n_status r \<in> {''SENT'', ''SKIPPED''} \<Longrightarrow>
   r \<in> set (notification_log db')"
  by (induction rule: rtranclp_induct) (auto dest: operator_step_keeps)

definition sample_api_env ::
  "((string \<times> NotificationTemplate \<times> datetime) list, (string \<times> BlockListSnapshot \<times> datetime) list) api_env" where
  "sample_api_env = in_process_stores
     \<lparr>ae_fault = (\<lambda>_. None), ae_now = (\<lambda>n. 7), ae_connected = (\<lambda>_. True), ae_open = (\<lambda>_. \<lparr>op_connect = True, op_create_channel = True, op_confirm_select = True, op_exchange_declare = True\<rparr>),
      ae_publish = (\<lambda>_ _. Confirmed ConfirmAck), ae_new_uuid = (\<lambda>n. ''new''), ae_formats = sample_formats,
      ae_de_text = (\<lambda>_. ''invalid type''), ae_lower = id, ae_pg_lower = id, ae_rank = (\<lambda>_. 0),
      ae_templates = ttl_cache 0, ae_block_list = ttl_cache 0\<rparr>"

definition sample_api_state ::
  "log_db \<Rightarrow> ((string \<times> NotificationTemplate \<times> datetime) list, (string \<times> BlockListSnapshot \<times> datetime) list) ApiState" where
  "sample_api_state db =
     \<lparr>as_log = db, as_template_store = \<lparr>ts_rows = [], ts_cache = []\<rparr>, as_block_list_store = sample_block_list,
      as_publisher = \<lparr>pb_inner = True, pb_sent = []\<rparr>, as_api_key = Some ''key'',
      as_filter = filter_new ascii_lowercase \<lparr>blocked_emails = [], blocked_domains = [], allowed_emails = [], allowed_domains = []\<rparr>,
      as_max_recipients = 2, as_tick = 0\<rparr>"

definition sample_router :: router_env where
  "sample_router = \<lparr>re_probe = (\<lambda>_. ProbeOk), re_retry_permit = (\<lambda>_. True), re_mac = (\<lambda>_ t. t),
     re_reject = (\<lambda>_. json_response 422 JNull), re_documents = \<lparr>ds_html = ''<html>'', ds_openapi = ''openapi: 3.1.0'', ds_asyncapi = ''asyncapi: 3.0.0''\<rparr>\<rparr>"

lemma sample_api_caches:
  "moka_cache (ae_templates sample_api_env)" "moka_cache (ae_block_list sample_api_env)" "lowercase (ae_lower sample_api_env)"
  using ttl.moka_cache_axioms ascii.lowercase_axioms
  by (simp_all add: sample_api_env_def in_process_stores_def)

lemma sample_api_inv: "log_inv db \<Longrightarrow> api_inv sample_api_env (sample_api_state db)"
  by (simp add: api_inv_def sample_api_state_def template_inv_def template_coherent_def bl_inv_def rows_lowered_def
      sample_block_list_def sample_api_env_def in_process_stores_def ttl_cache_def)

section \<open>Properties\<close>

text \<open>
  C8. No request breaks the stores: whatever the request, the token and the answers of database, clock and
  broker, the delivery log, the template store and the block list keep their invariants, the log
  changes only by operator steps (reset, revert), so a row that is SENT or SKIPPED is untouched, the
  configuration stays and no published message is forgotten.
\<close>

theorem router_keeps_invariants:
  assumes "moka_cache (ae_templates env)" "moka_cache (ae_block_list env)" "lowercase (ae_lower env)"
    and "api_inv env s" "build_router re env authorization req s = (resp, s')"
  shows "api_inv env s' \<and> same_config s s' \<and> operator_step\<^sup>*\<^sup>* (as_log s) (as_log s') \<and>
    (\<forall>r \<in> set (notification_log (as_log s)). n_status r \<in> {''SENT'', ''SKIPPED''} \<longrightarrow> r \<in> set (notification_log (as_log s'))) \<and>
    prefix (pb_sent (as_publisher s)) (pb_sent (as_publisher s'))"
proof -
  have "api_stores env" using assms(1-3) by (simp add: api_stores_def template_cache_def block_list_cache_def)
  from api_stores.build_router_step [OF this, of s re authorization req] assms(5) have step: "api_step env s s'" by simp
  then have "operator_step\<^sup>*\<^sup>* (as_log s) (as_log s')" by (simp add: api_step_def)
  with operator_steps_keep step api_step_inv [OF step assms(4)] show ?thesis by (auto simp: api_step_def)
qed

theorem router_keeps_invariants_witness:
  "\<exists>resp s'. build_router sample_router sample_api_env (Some ''Bearer key'') (PostRetryEvent ''e1'') (sample_api_state sample_db) = (resp, s') \<and>
     rs_status resp = 422 \<and> api_inv sample_api_env s'"
proof -
  let ?run = "build_router sample_router sample_api_env (Some ''Bearer key'') (PostRetryEvent ''e1'') (sample_api_state sample_db)"
  have "rs_status (fst ?run) = 422" by code_simp
  with router_keeps_invariants [OF sample_api_caches sample_api_inv [OF sample_db_inv], of sample_router "Some ''Bearer key''"
      "PostRetryEvent ''e1''" "fst ?run" "snd ?run"] show ?thesis
    by (intro exI [of _ "fst ?run"] exI [of _ "snd ?run"]) simp
qed

text \<open>
  C15. Without the token nothing happens: when a key is configured, a request to any endpoint but the two
  probes and the three documents whose Authorization header is not exactly the word Bearer, a blank and the key is answered 401 (no
  bearer token) or 403 (another token), with the state as it was. The documents (\<^verbatim>\<open>/docs\<close>, \<^verbatim>\<open>/openapi.yaml\<close>, \<^verbatim>\<open>/asyncapi.yaml\<close>) are served
  with 200 to everyone and change nothing either. The digest is only assumed
  to tell the key from other texts.
\<close>

theorem unauthorised_request_rejected:
  assumes "as_api_key s = Some key" "\<forall>t. re_mac re key t = re_mac re key key \<longrightarrow> t = key"
    and "authorization \<noteq> Some (''Bearer '' @ key)"
  shows "(\<not> is_probe req \<and> \<not> is_document req \<longrightarrow> (\<exists>body. build_router re env authorization req s =
      (json_response (if Option.bind authorization (strip_prefix ''Bearer '') = None then 401 else 403) body, s))) \<and>
    (is_document req \<longrightarrow> (\<exists>ty txt. build_router re env authorization req s = (document_response ty txt, s) \<and>
      txt \<in> {ds_html (re_documents re), ds_openapi (re_documents re), ds_asyncapi (re_documents re)}))"
proof (intro conjI impI)
  assume req: "\<not> is_probe req \<and> \<not> is_document req"
  show "\<exists>body. build_router re env authorization req s =
      (json_response (if Option.bind authorization (strip_prefix ''Bearer '') = None then 401 else 403) body, s)"
  proof (cases "Option.bind authorization (strip_prefix ''Bearer '')")
    case None
    with assms(1) req show ?thesis by (auto simp: build_router_def bearer_auth_def)
  next
    case (Some t)
    then obtain h where h: "authorization = Some h" "h = ''Bearer '' @ t"
      by (auto simp: bind_eq_Some_conv strip_prefix_def starts_with_iff split: if_splits)
    with assms(3) have "t \<noteq> key" by auto
    with assms(2) have "re_mac re key t \<noteq> re_mac re key key" by blast
    with Some assms(1) req show ?thesis by (auto simp: build_router_def bearer_auth_def)
  qed
next
  assume "is_document req"
  then show "\<exists>ty txt. build_router re env authorization req s = (document_response ty txt, s) \<and>
      txt \<in> {ds_html (re_documents re), ds_openapi (re_documents re), ds_asyncapi (re_documents re)}"
    by (cases req) (auto simp: build_router_def docs_page_def openapi_def asyncapi_def)
qed

theorem unauthorised_request_rejected_witness:
  "(\<exists>body. build_router sample_router sample_api_env (Some ''Bearer wrong'') (PostRetryEvent ''e1'') (sample_api_state sample_db) =
     (json_response 403 body, sample_api_state sample_db)) \<and>
   (\<exists>ty txt. build_router sample_router sample_api_env None GetOpenapi (sample_api_state sample_db) = (document_response ty txt, sample_api_state sample_db))"
proof -
  have s: "strip_prefix ''Bearer '' ''Bearer wrong'' \<noteq> None" by code_simp
  have k: "as_api_key (sample_api_state sample_db) = Some ''key''"
    "\<forall>t. re_mac sample_router ''key'' t = re_mac sample_router ''key'' ''key'' \<longrightarrow> t = ''key''"
    by (simp_all add: sample_api_state_def sample_router_def)
  from unauthorised_request_rejected [OF k, of "Some ''Bearer wrong''" "PostRetryEvent ''e1''" sample_api_env]
    unauthorised_request_rejected [OF k, of None GetOpenapi sample_api_env] s show ?thesis by auto
qed

section \<open>The publisher\<close>

lemma ensure_channel_state:
  "ensure_channel env s = (r, s1) \<Longrightarrow> pb_sent (as_publisher s1) = pb_sent (as_publisher s) \<and> as_log s1 = as_log s"
  by (auto simp: ensure_channel_def api_tick_def split: if_splits sum.splits)

definition publish_outcome :: "json \<Rightarrow> AppError + unit \<Rightarrow> ('t, 'b) ApiState \<Rightarrow> ('t, 'b) ApiState \<Rightarrow> nat \<Rightarrow> bool" where
  "publish_outcome body r s s' n \<longleftrightarrow>
     (\<exists>ms. pb_sent (as_publisher s') = pb_sent (as_publisher s) @ map (Pair body) ms \<and> length ms \<le> n \<and>
        list_all (\<lambda>m. \<exists>e. m = PublishError e) (butlast ms) \<and>
        (is_ok r \<longleftrightarrow> ms \<noteq> [] \<and> (\<exists>c. last ms = Confirmed c))) \<and> as_log s' = as_log s"

lemma publish_outcome_none:
  "pb_sent (as_publisher s') = pb_sent (as_publisher s) \<Longrightarrow> as_log s' = as_log s \<Longrightarrow> publish_outcome body (Inl e) s s' n"
  unfolding publish_outcome_def by (intro conjI exI [of _ "[]"]) (simp_all add: is_ok_def)

lemma publish_outcome_one:
  assumes "pb_sent (as_publisher s') = pb_sent (as_publisher s) @ [(body, m)]" "as_log s' = as_log s"
    and "is_ok r \<longleftrightarrow> (\<exists>c. m = Confirmed c)"
  shows "publish_outcome body r s s' (Suc n)"
  using assms unfolding publish_outcome_def by (intro conjI exI [of _ "[m]"]) simp_all

lemma publish_outcome_more:
  assumes "pb_sent (as_publisher s1) = pb_sent (as_publisher s) @ [(body, PublishError e)]" "as_log s1 = as_log s"
    and "publish_outcome body r s1 s' n"
  shows "publish_outcome body r s s' (Suc n)"
proof -
  obtain ms where ms: "pb_sent (as_publisher s') = pb_sent (as_publisher s1) @ map (Pair body) ms" "length ms \<le> n"
    "list_all (\<lambda>m. \<exists>e. m = PublishError e) (butlast ms)" "is_ok r \<longleftrightarrow> ms \<noteq> [] \<and> (\<exists>c. last ms = Confirmed c)" "as_log s' = as_log s1"
    using assms(3) by (auto simp: publish_outcome_def)
  then show ?thesis using assms(1,2)
    unfolding publish_outcome_def by (intro conjI exI [of _ "PublishError e # ms"]) auto
qed

lemma publish_attempts_outcome: "publish_attempts env n body s = (r, s') \<Longrightarrow> publish_outcome body r s s' n"
proof (induction n arbitrary: s)
  case 0
  then show ?case by (auto intro: publish_outcome_none)
next
  case (Suc n)
  obtain r1 s1 where 1: "ensure_channel env s = (r1, s1)" by fastforce
  note st = ensure_channel_state [OF 1]
  show ?case
  proof (cases r1)
    case (Inl e)
    with 1 Suc.prems st show ?thesis by (auto intro: publish_outcome_none)
  next
    case (Inr u)
    let ?m = "ae_publish env (as_tick s1) body"
    let ?s2 = "(api_tick s1)\<lparr>as_publisher := (as_publisher s1)\<lparr>pb_sent := pb_sent (as_publisher s1) @ [(body, ?m)]\<rparr>\<rparr>"
    let ?s3 = "?s2\<lparr>as_publisher := (as_publisher ?s2)\<lparr>pb_inner := False\<rparr>\<rparr>"
    have s2: "pb_sent (as_publisher ?s2) = pb_sent (as_publisher s) @ [(body, ?m)]" "as_log ?s2 = as_log s"
      and s3: "pb_sent (as_publisher ?s3) = pb_sent (as_publisher s) @ [(body, ?m)]" "as_log ?s3 = as_log s"
      using st by (simp_all add: api_tick_def)
    show ?thesis
    proof (cases "publish_attempts env n body ?s3 = (r, s') \<and> (\<exists>e. ?m = PublishError e)")
      case True
      then obtain e where run: "publish_attempts env n body ?s3 = (r, s')" and e: "?m = PublishError e" by blast
      show ?thesis by (rule publish_outcome_more [OF s3 [unfolded e] Suc.IH [OF run [unfolded e]]])
    next
      case False
      with 1 Inr Suc.prems have "s' = ?s2" "is_ok r \<longleftrightarrow> (\<exists>c. ?m = Confirmed c)"
        by (auto simp: Let_def is_ok_def split: publish_reply.splits if_splits)
      with publish_outcome_one [OF s2] show ?thesis by simp
    qed
  qed
qed

text \<open>
  What the publisher reports: it hands the broker nothing but the given message, at most twice and
  the second time only after the first could not be written, and reports success exactly when the last
  confirmation arrived. Any confirmation counts, so a message the broker refused (nack) is
  reported as published.
\<close>

lemma publisher_reports_confirmation:
  assumes "publisher_publish env body s = (r, s')"
  shows "\<exists>replies. pb_sent (as_publisher s') = pb_sent (as_publisher s) @ map (Pair body) replies \<and>
    length replies \<le> 2 \<and> (\<forall>m \<in> set (butlast replies). \<exists>e. m = PublishError e) \<and>
    (is_ok r \<longleftrightarrow> replies \<noteq> [] \<and> last replies \<in> {Confirmed ConfirmAck, Confirmed ConfirmNack, Confirmed ConfirmNotRequested})"
proof -
  have "(\<exists>c. m = Confirmed c) \<longleftrightarrow> m \<in> {Confirmed ConfirmAck, Confirmed ConfirmNack, Confirmed ConfirmNotRequested}" for m
    by (auto intro: confirmation.exhaust)
  with publish_attempts_outcome [OF assms [unfolded publisher_publish_def]] show ?thesis
    unfolding publish_outcome_def list_all_iff by auto
qed

section \<open>Refused retries\<close>

lemma republish_event_log: "republish_event env ev only s = (r, s') \<Longrightarrow> as_log s' = as_log s"
  using publish_attempts_outcome
  by (fastforce simp: republish_event_def publisher_publish_def publish_outcome_def log_read_def api_tick_def
      split: prod.splits sum.splits)

lemma republish_or_revert_refused:
  assumes "republish_or_revert env ev only s = (Err e, s')" "ae_fault env (as_tick s' - 1) = None"
  shows "\<exists>now reason n. revert_to_failed None now ev only reason (as_log s) = (Ok n, as_log s')"
proof -
  obtain r1 s1 where 1: "republish_event env ev (Some only) s = (r1, s1)" by fastforce
  with assms(1) have r1: "r1 = Inl e" by (cases r1) (auto simp: republish_or_revert_def)
  obtain db n where db: "revert_to_failed None (ae_now env (as_tick s1)) ev only
      (''manual retry aborted: re-enqueue failed: '' @ app_error_to_string e) (as_log s) = (Ok n, db)"
    by (simp add: revert_to_failed_def)
  have s': "s' = snd (log_write env (\<lambda>f n. revert_to_failed f n ev only
      (''manual retry aborted: re-enqueue failed: '' @ app_error_to_string e)) s1)"
    using assms(1) 1 r1 by (simp add: republish_or_revert_def)
  then have "as_tick s' = Suc (as_tick s1)" by (simp add: log_write_def api_tick_def split: prod.splits)
  with assms(2) have "ae_fault env (as_tick s1) = None" by simp
  with s' db republish_event_log [OF 1] have "as_log s' = db" by (simp add: log_write_def)
  with db show ?thesis by blast
qed

lemma reset_nothing: "reset_all_failed_for_event f now ev db = (Ok [], db') \<Longrightarrow> db' = db"
  by (cases db) (auto simp: reset_all_failed_for_event_def update_where_def filter_empty_conv split: option.splits intro: map_idI)

lemma reset_error: "reset_all_failed_for_event f now ev db = (Inl d, db') \<Longrightarrow> db' = db"
  by (cases f) (simp_all add: reset_all_failed_for_event_def)

lemma retry_event_refused_cases:
  assumes "retry_event env ev s = (Err e, s')"
  obtains "as_log s' = as_log s"
  | reset s1 where "reset_all_failed_for_event None (ae_now env (as_tick s)) ev (as_log s) = (Ok reset, as_log s1)"
      "republish_or_revert env ev reset s1 = (Err e, s')"
proof -
  let ?f = "ae_fault env (as_tick s)" and ?n = "ae_now env (as_tick s)"
  obtain r db where r: "reset_all_failed_for_event ?f ?n ev (as_log s) = (r, db)" by fastforce
  let ?s1 = "(api_tick s)\<lparr>as_log := db\<rparr>"
  have w: "log_write env (\<lambda>f n. reset_all_failed_for_event f n ev) s = (r, ?s1)" using r by (simp add: log_write_def)
  show thesis
  proof (cases "\<exists>xs. xs \<noteq> [] \<and> r = Inr xs")
    case True
    then obtain xs where x: "r = Inr xs" "xs \<noteq> []" by blast
    with r have "?f = None" by (cases ?f) (simp_all add: reset_all_failed_for_event_def)
    moreover have "republish_or_revert env ev xs ?s1 = (Err e, s')"
      using assms w x by (auto simp: retry_event_def split: prod.splits sum.splits)
    ultimately show thesis using that(2) [of xs ?s1] r x by simp
  next
    case False
    then have r': "(\<exists>d. r = Inl d) \<or> r = Inr []" by (cases r) auto
    then have "db = as_log s" using r reset_nothing reset_error by blast
    moreover have "as_log s' = db"
    proof (cases r)
      case (Inl d)
      with assms w show ?thesis by (auto simp: retry_event_def)
    next
      case (Inr xs)
      with r' have "r = Inr []" by simp
      with assms w show ?thesis
        by (auto simp: retry_event_def log_read_def api_tick_def split: sum.splits if_splits)
    qed
    ultimately show thesis using that(1) by simp
  qed
qed

text \<open>
  C27. A refused bulk retry can be repeated: when the retry of an event is answered with an error
  (nothing to retry, an expired attachment, a bad stored address, a broker that is down) and the compensating
  update reached the database, every delivery has the status it had before, and the same request selects
  the same recipients again.
\<close>

theorem refused_retry_restores_statuses:
  assumes "log_inv (as_log s)" "retry_event env ev s = (Err e, s')" "ae_fault env (as_tick s' - 1) = None"
  shows "map (\<lambda>r. (row_ident r, n_status r)) (notification_log (as_log s')) =
      map (\<lambda>r. (row_ident r, n_status r)) (notification_log (as_log s)) \<and>
    fst (reset_all_failed_for_event None now ev (as_log s')) = fst (reset_all_failed_for_event None now ev (as_log s))"
  using assms(2)
proof (cases rule: retry_event_refused_cases)
  case (2 reset s1)
  from republish_or_revert_refused [OF 2(2) assms(3)] obtain now' reason n where
    v: "revert_to_failed None now' ev reset reason (as_log s1) = (Ok n, as_log s')" by blast
  have "fst (reset_all_failed_for_event None now ev (as_log s)) = Ok reset"
    using 2(1) by (simp add: reset_all_failed_for_event_def)
  with retry_compensation [OF assms(1) 2(1) v, of now] show ?thesis
    by (auto simp: failed_of_event_def row_ident_def revert_update_def retry_update_def)
qed simp

theorem refused_retry_restores_statuses_witness:
  "\<exists>e s'. retry_event sample_api_env ''e1'' (sample_api_state sample_db) = (Err e, s') \<and>
     map n_status (notification_log (as_log s')) = [''FAILED''] \<and>
     fst (reset_all_failed_for_event None 9 ''e1'' (as_log s')) = Ok [''a@x.org'']"
proof -
  let ?s = "sample_api_state sample_db"
  obtain r s' where run: "retry_event sample_api_env ''e1'' ?s = (r, s')" by fastforce
  have "\<not> is_ok (fst (retry_event sample_api_env ''e1'' ?s))" by code_simp
  with run obtain e where e: "r = Err e" by (cases r) (simp_all add: is_ok_def)
  have log: "as_log ?s = sample_db" by (simp add: sample_api_state_def)
  have "ae_fault sample_api_env n = None" for n by (simp add: sample_api_env_def in_process_stores_def)
  with refused_retry_restores_statuses [OF _ run [unfolded e], of 9] sample_db_inv log
  have *: "map (\<lambda>r. (row_ident r, n_status r)) (notification_log (as_log s')) =
      map (\<lambda>r. (row_ident r, n_status r)) (notification_log sample_db)"
    "fst (reset_all_failed_for_event None 9 ''e1'' (as_log s')) = fst (reset_all_failed_for_event None 9 ''e1'' sample_db)"
    by simp_all
  have "map n_status (notification_log sample_db) = [''FAILED'']"
    "fst (reset_all_failed_for_event None 9 ''e1'' sample_db) = Ok [''a@x.org'']" by code_simp+
  moreover have "map n_status (notification_log (as_log s')) = map n_status (notification_log sample_db)"
    using arg_cong [OF *(1), of "map snd"] by (simp add: comp_def)
  ultimately show ?thesis using run e *(2) by auto
qed

end
