(* ===== verification/Runner.thy ===== *)
theory Runner
  imports Delivery Backoff
begin

text \<open>
  \<^verbatim>\<open>crates/consumer/src/runner.rs\<close>: the queue topology and the life of the consumer. The broker is a
  function from the commands it got so far and the next command to its reply. The life of the
  consumer is a machine over the events it waits for: the shutdown token, the connection, the
  deliveries, the semaphore, the end of a task and of a sleep.
\<close>

section \<open>Topology\<close>

datatype ExchangeKind = Fanout | Direct

datatype amqp_command =
    CreateChannel
  | QueueDeclarePassive string
  | ExchangeDeclare string ExchangeKind
  | QueueDeclare string "(string \<times> string) list"
  | QueueBind string string string
  | BasicQos u16

datatype amqp_reply = ReplyOk | ReplyNotFound string | ReplyError string

type_synonym amqp_broker = "amqp_command list \<Rightarrow> amqp_command \<Rightarrow> amqp_reply"

text \<open>A command under \<^verbatim>\<open>.await?\<close>: every reply but success ends the caller.\<close>

fun send_commands :: "amqp_broker \<Rightarrow> amqp_command list \<Rightarrow> amqp_command list \<Rightarrow> (string + unit) \<times> amqp_command list" where
  "send_commands br [] h = (Ok (), h)"
| "send_commands br (c # cs) h =
     (case br h c of
        ReplyOk \<Rightarrow> send_commands br cs (h @ [c])
      | ReplyNotFound e \<Rightarrow> (Err e, h @ [c])
      | ReplyError e \<Rightarrow> (Err e, h @ [c]))"

datatype probe_result = QueueExists | QueueMissing | ProbeFailed string

text \<open>The passive declaration on a channel of its own.\<close>

definition probe_queue :: "amqp_broker \<Rightarrow> string \<Rightarrow> amqp_command list \<Rightarrow> (string + probe_result) \<times> amqp_command list" where
  "probe_queue br queue h =
     (case send_commands br [CreateChannel] h of
        (Inl e, h) \<Rightarrow> (Err e, h)
      | (Inr _, h) \<Rightarrow>
          (Ok (case br h (QueueDeclarePassive queue) of
                 ReplyOk \<Rightarrow> QueueExists
               | ReplyNotFound _ \<Rightarrow> QueueMissing
               | ReplyError e \<Rightarrow> ProbeFailed e),
           h @ [QueueDeclarePassive queue]))"

definition passive_check_failed :: "string \<Rightarrow> string \<Rightarrow> string" where
  "passive_check_failed queue e =
     ''Passive queue check for '' @ CHR 0x27 # queue @ CHR 0x27 # '' failed '' @ em_dash
       @ '' this is usually a queue argument mismatch (e.g. x-dead-letter-exchange or durable flag changed). Delete the queue from the broker and restart to re-declare it. Broker error: ''
       @ e"

fun passive_checks :: "amqp_broker \<Rightarrow> string list \<Rightarrow> amqp_command list \<Rightarrow> (string + unit) \<times> amqp_command list" where
  "passive_checks br [] h = (Ok (), h)"
| "passive_checks br (q # qs) h =
     (case probe_queue br q h of
        (Inl e, h) \<Rightarrow> (Err e, h)
      | (Inr (ProbeFailed e), h) \<Rightarrow> (Err (passive_check_failed q e), h)
      | (Inr _, h) \<Rightarrow> passive_checks br qs h)"

abbreviation dlq_name :: "ConsumerConfig \<Rightarrow> string" where
  "dlq_name cfg \<equiv> cf_queue cfg @ ''.dlq''"

abbreviation dlx_name :: "ConsumerConfig \<Rightarrow> string" where
  "dlx_name cfg \<equiv> cf_exchange cfg @ ''.dlx''"

abbreviation delayed_exchange :: "ConsumerConfig \<Rightarrow> string" where
  "delayed_exchange cfg \<equiv> cf_exchange cfg @ ''.delayed''"

abbreviation delayed_queue :: "ConsumerConfig \<Rightarrow> string" where
  "delayed_queue cfg \<equiv> cf_queue cfg @ ''.delayed''"

definition delayed_queue_args :: "ConsumerConfig \<Rightarrow> (string \<times> string) list" where
  "delayed_queue_args cfg =
     [(''x-dead-letter-exchange'', cf_exchange cfg), (''x-dead-letter-routing-key'', cf_routing_key cfg)]"

text \<open>The delayed queue is declared only when the broker does not know it.\<close>

definition declare_delayed_queue :: "amqp_broker \<Rightarrow> ConsumerConfig \<Rightarrow> amqp_command list \<Rightarrow> (string + unit) \<times> amqp_command list" where
  "declare_delayed_queue br cfg h =
     (case probe_queue br (delayed_queue cfg) h of
        (Inl e, h) \<Rightarrow> (Err e, h)
      | (Inr QueueExists, h) \<Rightarrow> (Ok (), h)
      | (Inr QueueMissing, h) \<Rightarrow> send_commands br [QueueDeclare (delayed_queue cfg) (delayed_queue_args cfg)] h
      | (Inr (ProbeFailed e), h) \<Rightarrow>
          (Err (''Passive queue check for '' @ CHR 0x27 # delayed_queue cfg @ CHR 0x27 # '' failed: '' @ e), h))"

definition prefetch :: "ConsumerConfig \<Rightarrow> u16" where
  "prefetch cfg = of_nat (min (cf_max_concurrency cfg) 65535)"

definition dead_letter_commands :: "ConsumerConfig \<Rightarrow> amqp_command list" where
  "dead_letter_commands cfg =
     [ExchangeDeclare (dlx_name cfg) Fanout, QueueDeclare (dlq_name cfg) [],
      QueueBind (dlq_name cfg) (dlx_name cfg) (cf_queue cfg),
      ExchangeDeclare (delayed_exchange cfg) Fanout]"

definition main_commands :: "ConsumerConfig \<Rightarrow> amqp_command list" where
  "main_commands cfg =
     [QueueBind (delayed_queue cfg) (delayed_exchange cfg) '''',
      QueueDeclare (cf_queue cfg) [(''x-dead-letter-exchange'', dlx_name cfg)],
      ExchangeDeclare (cf_exchange cfg) Direct,
      QueueBind (cf_queue cfg) (cf_exchange cfg) (cf_routing_key cfg),
      BasicQos (prefetch cfg)]"

definition declare_topology :: "amqp_broker \<Rightarrow> ConsumerConfig \<Rightarrow> amqp_command list \<Rightarrow> (string + unit) \<times> amqp_command list" where
  "declare_topology br cfg h =
     (case passive_checks br [dlq_name cfg, cf_queue cfg] h of
        (Inl e, h) \<Rightarrow> (Err e, h)
      | (Inr _, h) \<Rightarrow>
          (case send_commands br (dead_letter_commands cfg) h of
             (Inl e, h) \<Rightarrow> (Err e, h)
           | (Inr _, h) \<Rightarrow>
               (case declare_delayed_queue br cfg h of
                  (Inl e, h) \<Rightarrow> (Err e, h)
                | (Inr _, h) \<Rightarrow> send_commands br (main_commands cfg) h)))"

section \<open>The life of the consumer\<close>

datatype runner_phase = LoopTop | Connecting | Consuming | AcquiringPermit string | Draining | Sleeping nat | Returned

text \<open>The delays are whole seconds, as in the code.\<close>

record runner =
  rn_phase :: runner_phase
  rn_reconnect_delay :: nat
  rn_permits :: nat
  rn_tasks :: "string list"
  rn_cancelled :: bool

datatype runner_event =
    ShutdownCancelled
  | ShutdownChecked
  | ConnectionReady
  | ConnectionFailed nat
  | ShutdownSelected
  | DeliveryReceived string
  | PermitAcquired
  | DrainCompleted
  | TaskFinished nat
  | SleepElapsed

definition run_consumer_start :: "ConsumerConfig \<Rightarrow> runner" where
  "run_consumer_start cfg =
     \<lparr>rn_phase = LoopTop, rn_reconnect_delay = 2, rn_permits = cf_max_concurrency cfg, rn_tasks = [], rn_cancelled = False\<rparr>"

text \<open>The error arm of \<^verbatim>\<open>run_consumer\<close>: the argument is the age of the connection in seconds.\<close>

definition connection_error :: "nat \<Rightarrow> runner \<Rightarrow> runner" where
  "connection_error elapsed r =
     (if rn_cancelled r then r\<lparr>rn_phase := Returned\<rparr>
      else let delay = (if elapsed > 90 then 2 else rn_reconnect_delay r)
           in r\<lparr>rn_reconnect_delay := delay, rn_phase := Sleeping delay\<rparr>)"

fun runner_react :: "ConsumerConfig \<Rightarrow> runner_event \<Rightarrow> runner \<Rightarrow> runner option" where
  "runner_react cfg ShutdownCancelled r = Some (r\<lparr>rn_cancelled := True\<rparr>)"
| "runner_react cfg ShutdownChecked r =
     (if rn_phase r = LoopTop then Some (r\<lparr>rn_phase := if rn_cancelled r then Returned else Connecting\<rparr>) else None)"
| "runner_react cfg ConnectionReady r =
     (if rn_phase r = Connecting then Some (r\<lparr>rn_phase := Consuming\<rparr>) else None)"
| "runner_react cfg (ConnectionFailed elapsed) r =
     (if rn_phase r = Connecting \<or> rn_phase r = Consuming then Some (connection_error elapsed r) else None)"
| "runner_react cfg ShutdownSelected r =
     (if \<not> rn_cancelled r then None
      else case rn_phase r of
             Consuming \<Rightarrow> Some (r\<lparr>rn_phase := Draining\<rparr>)
           | Sleeping _ \<Rightarrow> Some (r\<lparr>rn_phase := Returned\<rparr>)
           | _ \<Rightarrow> None)"
| "runner_react cfg (DeliveryReceived d) r =
     (if rn_phase r = Consuming then Some (r\<lparr>rn_phase := AcquiringPermit d\<rparr>) else None)"
| "runner_react cfg PermitAcquired r =
     (case rn_phase r of
        AcquiringPermit d \<Rightarrow>
          if rn_permits r = 0 then None
          else Some (r\<lparr>rn_phase := Consuming, rn_permits := rn_permits r - 1, rn_tasks := rn_tasks r @ [d]\<rparr>)
      | _ \<Rightarrow> None)"
| "runner_react cfg DrainCompleted r =
     (if rn_phase r = Draining \<and> rn_permits r \<ge> cf_max_concurrency cfg then Some (r\<lparr>rn_phase := Returned\<rparr>) else None)"
| "runner_react cfg (TaskFinished i) r =
     (if i < length (rn_tasks r)
      then Some (r\<lparr>rn_permits := Suc (rn_permits r), rn_tasks := take i (rn_tasks r) @ drop (Suc i) (rn_tasks r)\<rparr>)
      else None)"
| "runner_react cfg SleepElapsed r =
     (case rn_phase r of
        Sleeping _ \<Rightarrow> Some (r\<lparr>rn_phase := LoopTop, rn_reconnect_delay := min (rn_reconnect_delay r * 2) 60\<rparr>)
      | _ \<Rightarrow> None)"

fun runner_run :: "ConsumerConfig \<Rightarrow> runner_event list \<Rightarrow> runner \<Rightarrow> runner option" where
  "runner_run cfg [] r = Some r"
| "runner_run cfg (ev # evs) r = Option.bind (runner_react cfg ev r) (runner_run cfg evs)"

inductive consumer_reachable :: "ConsumerConfig \<Rightarrow> runner \<Rightarrow> bool" for cfg where
  reach_start: "consumer_reachable cfg (run_consumer_start cfg)"
| reach_react: "consumer_reachable cfg r \<Longrightarrow> runner_react cfg ev r = Some r' \<Longrightarrow> consumer_reachable cfg r'"

section \<open>The declared topology\<close>

text \<open>
  Where a message goes under a set of declarations: a fanout exchange passes it to every bound
  queue, another one to the queues bound with its key; a queue with a dead-letter argument
  passes what it rejects or expires to that exchange, under its own key if it has one.
\<close>

definition routed :: "amqp_command list \<Rightarrow> string \<Rightarrow> string \<Rightarrow> string set" where
  "routed cmds ex key =
     {q. \<exists>k. QueueBind q ex k \<in> set cmds \<and> (ExchangeDeclare ex Fanout \<in> set cmds \<or> k = key)}"

definition dead_lettered :: "amqp_command list \<Rightarrow> string \<Rightarrow> string \<Rightarrow> string set" where
  "dead_lettered cmds q key =
     {q'. \<exists>args dlx. QueueDeclare q args \<in> set cmds \<and> map_of args ''x-dead-letter-exchange'' = Some dlx \<and>
        q' \<in> routed cmds dlx (case_option key id (map_of args ''x-dead-letter-routing-key''))}"

lemma send_commands_Ok: "send_commands br cs h = (Inr u, h') \<Longrightarrow> h' = h @ cs"
  by (induction br cs h rule: send_commands.induct) (auto split: amqp_reply.splits)

lemma probe_queue_Ok: "probe_queue br q h = (Inr p, h') \<Longrightarrow> h' = h @ [CreateChannel, QueueDeclarePassive q]"
  by (auto simp: probe_queue_def split: amqp_reply.splits)

lemma passive_checks_Ok:
  "passive_checks br qs h = (Inr u, h') \<Longrightarrow> h' = h @ concat (map (\<lambda>q. [CreateChannel, QueueDeclarePassive q]) qs)"
  by (induction br qs h rule: passive_checks.induct)
    (auto split: prod.splits sum.splits probe_result.splits dest!: probe_queue_Ok)

lemma declare_delayed_queue_Ok:
  "declare_delayed_queue br cfg h = (Inr u, h') \<Longrightarrow>
   \<exists>d. (d = [] \<or> d = [QueueDeclare (delayed_queue cfg) (delayed_queue_args cfg)]) \<and>
       h' = h @ [CreateChannel, QueueDeclarePassive (delayed_queue cfg)] @ d"
  by (auto simp: declare_delayed_queue_def split: prod.splits sum.splits probe_result.splits
      dest!: probe_queue_Ok send_commands_Ok simp del: send_commands.simps)

lemma declare_topology_Ok:
  assumes "declare_topology br cfg h = (Inr u, h')"
  obtains d where "d = [] \<or> d = [QueueDeclare (delayed_queue cfg) (delayed_queue_args cfg)]"
    "h' = h @ [CreateChannel, QueueDeclarePassive (dlq_name cfg), CreateChannel, QueueDeclarePassive (cf_queue cfg)]
      @ dead_letter_commands cfg @ [CreateChannel, QueueDeclarePassive (delayed_queue cfg)] @ d @ main_commands cfg"
proof -
  obtain h1 h2 h3 u1 u2 u3 where run: "passive_checks br [dlq_name cfg, cf_queue cfg] h = (Inr u1, h1)"
    "send_commands br (dead_letter_commands cfg) h1 = (Inr u2, h2)" "declare_delayed_queue br cfg h2 = (Inr u3, h3)"
    "send_commands br (main_commands cfg) h3 = (Inr u, h')"
    using assms unfolding declare_topology_def by (auto split: prod.splits sum.splits simp del: passive_checks.simps)
  from declare_delayed_queue_Ok [OF run(3)] obtain d where
    "d = [] \<or> d = [QueueDeclare (delayed_queue cfg) (delayed_queue_args cfg)]"
    "h3 = h2 @ [CreateChannel, QueueDeclarePassive (delayed_queue cfg)] @ d" by blast
  with that passive_checks_Ok [OF run(1)] send_commands_Ok [OF run(2)] send_commands_Ok [OF run(4)]
  show thesis by simp
qed

section \<open>Properties\<close>

text \<open>
  C30. The declared topology delivers: when the declaration succeeds, a message published to the exchange
  with the routing key reaches exactly the main queue, one that the main queue rejects reaches
  exactly the dead-letter queue, one published to the delayed exchange waits in exactly the delayed queue and,
  where this run declared that queue, returns to exactly the main queue when it expires; and no more than the
  consumer's concurrency is prefetched.
\<close>

theorem topology_delivers:
  assumes "declare_topology br cfg [] = (Ok (), h)"
  shows "routed h (cf_exchange cfg) (cf_routing_key cfg) = {cf_queue cfg} \<and>
    dead_lettered h (cf_queue cfg) key = {dlq_name cfg} \<and>
    routed h (cf_exchange cfg @ ''.delayed'') key = {delayed_queue cfg} \<and>
    (\<forall>args. QueueDeclare (delayed_queue cfg) args \<in> set h \<longrightarrow> dead_lettered h (delayed_queue cfg) key = {cf_queue cfg}) \<and>
    last h = BasicQos (prefetch cfg) \<and> unat (prefetch cfg) \<le> cf_max_concurrency cfg"
proof -
  obtain d where d: "d = [] \<or> d = [QueueDeclare (delayed_queue cfg) (delayed_queue_args cfg)]"
    and h: "h = [CreateChannel, QueueDeclarePassive (dlq_name cfg), CreateChannel, QueueDeclarePassive (cf_queue cfg)]
      @ dead_letter_commands cfg @ [CreateChannel, QueueDeclarePassive (delayed_queue cfg)] @ d @ main_commands cfg"
    using declare_topology_Ok [OF assms] by auto
  note defs = routed_def dead_lettered_def h dead_letter_commands_def main_commands_def delayed_queue_args_def
  have "unat (prefetch cfg) = min (cf_max_concurrency cfg) 65535"
    by (simp add: prefetch_def unat_of_nat)
  moreover have "routed h (cf_exchange cfg) (cf_routing_key cfg) = {cf_queue cfg}" using d by (auto simp: defs)
  moreover have "dead_lettered h (cf_queue cfg) key = {dlq_name cfg}" using d by (auto simp: defs)
  moreover have "routed h (delayed_exchange cfg) key = {delayed_queue cfg}" using d by (auto simp: defs)
  moreover have "dead_lettered h (delayed_queue cfg) key = {cf_queue cfg}" if "QueueDeclare (delayed_queue cfg) args \<in> set h" for args
    using d that by (auto simp: defs)
  moreover have "last h = BasicQos (prefetch cfg)" by (simp add: h main_commands_def)
  ultimately show ?thesis by simp
qed

text \<open>A broker that knows no queue yet.\<close>

definition fresh_broker :: amqp_broker where
  "fresh_broker h c = (case c of QueueDeclarePassive q \<Rightarrow> ReplyNotFound ''404'' | _ \<Rightarrow> ReplyOk)"

theorem topology_delivers_witness:
  "\<exists>h. declare_topology fresh_broker consumer_config_default [] = (Ok (), h) \<and>
     dead_lettered h ''email.requested.delayed'' '''' = {''email.requested''}"
proof -
  let ?run = "declare_topology fresh_broker consumer_config_default []"
  have "fst ?run = Ok () \<and> QueueDeclare (delayed_queue consumer_config_default) (delayed_queue_args consumer_config_default) \<in> set (snd ?run)"
    by (simp add: declare_topology_def probe_queue_def declare_delayed_queue_def fresh_broker_def dead_letter_commands_def
        main_commands_def)
  then obtain h where run: "?run = (Ok (), h)"
    and d: "QueueDeclare (delayed_queue consumer_config_default) (delayed_queue_args consumer_config_default) \<in> set h"
    by (cases ?run) simp
  from topology_delivers [OF run, of "[]"] d
  have "dead_lettered h (delayed_queue consumer_config_default) [] = {cf_queue consumer_config_default}" by blast
  with run show ?thesis by (auto simp: consumer_config_default_def)
qed

section \<open>The life of the consumer\<close>

definition runner_inv :: "ConsumerConfig \<Rightarrow> runner \<Rightarrow> bool" where
  "runner_inv cfg r \<longleftrightarrow>
     rn_permits r + length (rn_tasks r) = cf_max_concurrency cfg \<and>
     (\<exists>k. rn_reconnect_delay r = capped_doubling 2 5 60 k) \<and>
     (\<forall>d. rn_phase r = Sleeping d \<longrightarrow> d = rn_reconnect_delay r)"

lemma doubled_delay: "min (capped_doubling 2 5 60 k * 2) 60 = capped_doubling 2 5 60 (Suc k)"
proof (cases "k < 5")
  case True
  then have "k \<in> {0, 1, 2, 3, 4}" by auto
  then show ?thesis by (auto simp: capped_doubling_def)
next
  case False
  then show ?thesis by (simp add: capped_doubling_def)
qed

lemma runner_inv_react: "runner_inv cfg r \<Longrightarrow> runner_react cfg ev r = Some r' \<Longrightarrow> runner_inv cfg r'"
proof (cases ev)
  case (ConnectionFailed elapsed)
  have "(2 :: nat) = capped_doubling 2 5 60 0" by (simp add: capped_doubling_def)
  then show "runner_inv cfg r \<Longrightarrow> runner_react cfg ev r = Some r' \<Longrightarrow> runner_inv cfg r'"
    using ConnectionFailed by (auto simp: runner_inv_def connection_error_def Let_def split: if_splits)
qed (auto simp: runner_inv_def doubled_delay split: if_splits runner_phase.splits)

lemma reachable_runner_inv: "consumer_reachable cfg r \<Longrightarrow> runner_inv cfg r"
proof (induction rule: consumer_reachable.induct)
  case reach_start
  have "(2 :: nat) = capped_doubling 2 5 60 0" by (simp add: capped_doubling_def)
  then show ?case by (auto simp: runner_inv_def run_consumer_start_def)
qed (rule runner_inv_react)

lemma reachable_run: "consumer_reachable cfg r \<Longrightarrow> runner_run cfg evs r = Some r' \<Longrightarrow> consumer_reachable cfg r'"
  by (induction cfg evs r rule: runner_run.induct) (auto simp: bind_eq_Some_conv intro: reach_react)

text \<open>
  C29. The consumer's life: in every state that connections, failures, deliveries, finished tasks and the
  shutdown can produce, no permit is lost and never more tasks run than the configured
  concurrency; the reconnection delay lies between 2 and 60 seconds and the sleep uses it; and the drain
  at shutdown completes exactly when no task is left.
\<close>

theorem consumer_lifecycle:
  assumes "consumer_reachable cfg r"
  shows "rn_permits r + length (rn_tasks r) = cf_max_concurrency cfg \<and> length (rn_tasks r) \<le> cf_max_concurrency cfg \<and>
    2 \<le> rn_reconnect_delay r \<and> rn_reconnect_delay r \<le> 60 \<and> (\<forall>d. rn_phase r = Sleeping d \<longrightarrow> d = rn_reconnect_delay r) \<and>
    (runner_react cfg DrainCompleted r \<noteq> None \<longleftrightarrow> rn_phase r = Draining \<and> rn_tasks r = [])"
proof -
  from reachable_runner_inv [OF assms] obtain k where inv: "rn_permits r + length (rn_tasks r) = cf_max_concurrency cfg"
    "rn_reconnect_delay r = capped_doubling 2 5 60 k" "\<forall>d. rn_phase r = Sleeping d \<longrightarrow> d = rn_reconnect_delay r"
    by (auto simp: runner_inv_def)
  have "capped_doubling 2 5 60 0 \<le> capped_doubling 2 5 60 k" by (rule doubling.monotone) simp
  moreover have "cf_max_concurrency cfg \<le> rn_permits r \<longleftrightarrow> rn_tasks r = []"
    using inv(1) by (cases "rn_tasks r") auto
  ultimately show ?thesis using inv doubling.capped [of 2 5 60 k] by (auto simp: capped_doubling_def)
qed

text \<open>One task is taken up, the connection drops, and the token fires while the consumer sleeps.\<close>

definition undrained_events :: "string \<Rightarrow> runner_event list" where
  "undrained_events d =
     [ShutdownChecked, ConnectionReady, DeliveryReceived d, PermitAcquired, ConnectionFailed 5, ShutdownCancelled, ShutdownSelected]"

lemma undrained_run:
  "0 < cf_max_concurrency cfg \<Longrightarrow>
   \<exists>r. runner_run cfg (undrained_events d) (run_consumer_start cfg) = Some r \<and> rn_phase r = Returned \<and> rn_tasks r = [d] \<and>
     rn_permits r = cf_max_concurrency cfg - 1"
  by (simp add: undrained_events_def run_consumer_start_def connection_error_def)

text \<open>
  The shutdown can skip the drain: a consumer that has lost its connection returns at once, with the tasks of
  that connection still running.
\<close>

theorem shutdown_skips_drain:
  assumes "0 < cf_max_concurrency cfg"
  shows "\<exists>r. consumer_reachable cfg r \<and> rn_phase r = Returned \<and> rn_tasks r = [d]"
  using undrained_run [OF assms, of d] reachable_run [OF reach_start] by blast

theorem consumer_lifecycle_witness:
  "\<exists>r. consumer_reachable consumer_config_default r \<and> rn_tasks r = [''m''] \<and> rn_permits r = 9 \<and> rn_reconnect_delay r \<le> 60"
proof -
  have "cf_max_concurrency consumer_config_default = 10" by (simp add: consumer_config_default_def)
  with undrained_run [of consumer_config_default "''m''"] obtain r where
    r: "runner_run consumer_config_default (undrained_events ''m'') (run_consumer_start consumer_config_default) = Some r"
      "rn_tasks r = [''m'']" "rn_permits r = 9" by auto
  have "consumer_reachable consumer_config_default r" using reachable_run [OF reach_start r(1)] .
  with consumer_lifecycle [OF this] r show ?thesis by blast
qed

end
