(* ===== verification/Cli_Queries.thy ===== *)
theory Cli_Queries
  imports Template_Store Outbox "HOL-Library.Multiset"
begin

text \<open>
  \<^verbatim>\<open>crates/store/src/cli_queries.rs\<close>: the read-only reports of the command line and of the MCP
  server, over the tables of the delivery log, of the templates and of the outbox. \<^verbatim>\<open>ILIKE\<close> is the
  database's and an argument, as is the collation \<open>rank\<close>. The database's errors reach the caller as
  texts. The status reports are shown to agree with those of the HTTP interface.
\<close>

section \<open>Result rows\<close>

record NotificationLogRow =
  nr_event_id :: string
  nr_event_type :: string
  nr_recipient_email :: string
  nr_status :: string
  nr_retry_count :: int
  nr_last_error :: "string option"
  nr_updated_at :: datetime

record RecipientStatusRow =
  rsr_recipient_email :: string
  rsr_status :: string
  rsr_retry_count :: int
  rsr_last_error :: "string option"
  rsr_updated_at :: datetime

record TemplateListRow =
  tl_event_type :: string
  tl_channel :: string
  tl_subject :: string
  tl_version :: int
  tl_active :: bool
  tl_updated_at :: datetime

record TemplateDetailRow =
  td_event_type :: string
  td_channel :: string
  td_subject :: string
  td_body_html :: string
  td_body_text :: string
  td_version :: int
  td_active :: bool
  td_updated_at :: datetime

record CliOutboxRow =
  xr_event_id :: string
  xr_event_type :: string
  xr_status :: string
  xr_fail_count :: int
  xr_payload :: json
  xr_created_at :: datetime
  xr_published_at :: "datetime option"

section \<open>Queries\<close>

definition select_all :: "db_fault \<Rightarrow> 'a list \<Rightarrow> string + 'a list" where
  "select_all fault rows = (case fault of Some e \<Rightarrow> Err e | None \<Rightarrow> Ok rows)"

text \<open>\<^verbatim>\<open>ORDER BY ... DESC LIMIT\<close>; a negative limit fails the statement.\<close>

definition select_newest :: "db_fault \<Rightarrow> int \<Rightarrow> ('a \<Rightarrow> datetime) \<Rightarrow> 'a list \<Rightarrow> string + 'a list" where
  "select_newest fault limit key rows =
     (case fault of
        Some e \<Rightarrow> Err e
      | None \<Rightarrow>
          if limit < 0 then Err ''LIMIT must not be negative''
          else Ok (take (nat limit) (sort_key (\<lambda>r. - key r) rows)))"

definition log_row :: "notification_row \<Rightarrow> NotificationLogRow" where
  "log_row r =
     \<lparr>nr_event_id = n_event_id r, nr_event_type = n_event_type r, nr_recipient_email = n_recipient_id r,
      nr_status = n_status r, nr_retry_count = n_retry_count r, nr_last_error = n_last_error r,
      nr_updated_at = n_updated_at r\<rparr>"

definition list_notification_logs ::
  "(string \<Rightarrow> string \<Rightarrow> bool) \<Rightarrow> db_fault \<Rightarrow> string option \<Rightarrow> string \<Rightarrow> string \<Rightarrow> int \<Rightarrow> log_db \<Rightarrow> string + NotificationLogRow list" where
  "list_notification_logs ilike fault status event_type_filter email_filter limit db =
     (case status of
        Some status \<Rightarrow>
          map_sum id (map log_row) (select_newest fault limit n_updated_at (filter (\<lambda>n.
            n_channel n = ''email'' \<and> n_status n = status \<and> ilike (n_event_type n) event_type_filter
            \<and> ilike (n_recipient_id n) email_filter) (notification_log db)))
      | None \<Rightarrow>
          map_sum id (map log_row) (select_newest fault limit n_updated_at (filter (\<lambda>n.
            n_channel n = ''email'' \<and> ilike (n_event_type n) event_type_filter
            \<and> ilike (n_recipient_id n) email_filter) (notification_log db))))"

definition recipient_status :: "notification_row \<Rightarrow> RecipientStatusRow" where
  "recipient_status r =
     \<lparr>rsr_recipient_email = n_recipient_id r, rsr_status = n_status r, rsr_retry_count = n_retry_count r,
      rsr_last_error = n_last_error r, rsr_updated_at = n_updated_at r\<rparr>"

text \<open>Rows of one creation time come in the order of this statement's scan, as in \<open>event_rows\<close>.\<close>

definition get_status_for_event :: "db_fault \<Rightarrow> uuid \<Rightarrow> log_db \<Rightarrow> string + RecipientStatusRow list" where
  "get_status_for_event fault event_id db =
     select_all fault (map recipient_status (sort_key n_created_at
       (filter (\<lambda>n. n_event_id n = event_id \<and> n_channel n = ''email'') (notification_log db))))"

definition get_status_for_recipient ::
  "db_fault \<Rightarrow> uuid \<Rightarrow> string \<Rightarrow> log_db \<Rightarrow> string + RecipientStatusRow option" where
  "get_status_for_recipient fault event_id email db =
     (case fault of
        Some e \<Rightarrow> Err e
      | None \<Rightarrow> Ok (map_option recipient_status (find (\<lambda>n.
          n_event_id n = event_id \<and> n_channel n = ''email'' \<and> n_recipient_id n = email) (notification_log db))))"

definition list_row :: "TemplateRow \<Rightarrow> TemplateListRow" where
  "list_row r =
     \<lparr>tl_event_type = tr_event_type r, tl_channel = tr_channel r, tl_subject = tr_subject r,
      tl_version = tr_version r, tl_active = tr_active r, tl_updated_at = tr_updated_at r\<rparr>"

definition cli_list_templates :: "(string \<Rightarrow> int) \<Rightarrow> db_fault \<Rightarrow> TemplateRow list \<Rightarrow> string + TemplateListRow list" where
  "cli_list_templates rank fault rows =
     select_all fault (map list_row
       (sort_key (rank \<circ> tr_event_type) (sort_key (rank \<circ> tr_channel) rows)))"

definition detail_row :: "TemplateRow \<Rightarrow> TemplateDetailRow" where
  "detail_row r =
     \<lparr>td_event_type = tr_event_type r, td_channel = tr_channel r, td_subject = tr_subject r,
      td_body_html = tr_body_html r, td_body_text = tr_body_text r, td_version = tr_version r,
      td_active = tr_active r, td_updated_at = tr_updated_at r\<rparr>"

definition show_template ::
  "(string \<Rightarrow> int) \<Rightarrow> db_fault \<Rightarrow> string \<Rightarrow> TemplateRow list \<Rightarrow> string + TemplateDetailRow list" where
  "show_template rank fault event_type rows =
     select_all fault (map detail_row
       (sort_key (rank \<circ> tr_channel) (filter (\<lambda>r. tr_event_type r = event_type) rows)))"

fun outbox_status_text :: "outbox_status \<Rightarrow> string" where
  "outbox_status_text ObPending = ''PENDING''"
| "outbox_status_text ObInProgress = ''IN_PROGRESS''"
| "outbox_status_text ObPublished = ''PUBLISHED''"
| "outbox_status_text ObFailed = ''FAILED''"

definition cli_outbox_row :: "outbox_row \<Rightarrow> CliOutboxRow" where
  "cli_outbox_row r =
     \<lparr>xr_event_id = ob_event_id r, xr_event_type = ob_event_type r, xr_status = outbox_status_text (ob_status r),
      xr_fail_count = ob_fail_count r, xr_payload = ob_payload r, xr_created_at = ob_created_at r,
      xr_published_at = ob_published_at r\<rparr>"

definition list_outbox_rows :: "db_fault \<Rightarrow> string \<Rightarrow> int \<Rightarrow> outbox_table \<Rightarrow> string + CliOutboxRow list" where
  "list_outbox_rows fault status limit rows =
     map_sum id (map cli_outbox_row) (select_newest fault limit ob_created_at
       (filter (\<lambda>r. outbox_status_text (ob_status r) = status) rows))"

section \<open>Newest first\<close>

text \<open>A limited report holds matching rows only, no more than asked for, the newest first, and leaves
  out a matching row only when it is full of rows that are at least as new.\<close>

lemma select_newest_correct:
  assumes "select_newest None limit key rows = Ok res"
  shows "set res \<subseteq> set rows \<and> length res = min (nat limit) (length rows) \<and> sorted (rev (map key res)) \<and>
    (\<forall>r \<in> set rows. r \<notin> set res \<longrightarrow> (\<forall>x \<in> set res. key r \<le> key x))"
proof -
  let ?s = "sort_key (\<lambda>r. - key r) rows"
  have res: "res = take (nat limit) ?s" using assms by (simp add: select_newest_def split: if_splits)
  have s: "sorted_wrt (\<lambda>a b. key b \<le> key a) ?s"
    using sorted_sort_key [of "\<lambda>r. - key r" rows] by (simp add: sorted_wrt_map)
  have "sorted_wrt (\<lambda>a b. key b \<le> key a) res" unfolding res by (rule sorted_wrt_take [OF s])
  then have "sorted (rev (map key res))" by (simp add: sorted_wrt_rev sorted_wrt_map)
  moreover have "key r \<le> key x" if "r \<in> set rows" "r \<notin> set res" "x \<in> set res" for r x
  proof -
    have "set rows = set (take (nat limit) ?s) \<union> set (drop (nat limit) ?s)"
      by (metis append_take_drop_id set_append set_sort)
    with that(1,2) have "r \<in> set (drop (nat limit) ?s)" by (auto simp: res)
    with s that(3) show ?thesis by (metis append_take_drop_id res sorted_wrt_append)
  qed
  ultimately show ?thesis using set_take_subset [of "nat limit" ?s] by (auto simp: res)
qed

section \<open>Agreement with the HTTP interface\<close>

text \<open>The part of a log entry that a status report shows.\<close>

definition report_of :: "NotificationLog \<Rightarrow> RecipientStatusRow" where
  "report_of l =
     \<lparr>rsr_recipient_email = l_recipient_email l, rsr_status = status_as_str (l_status l), rsr_retry_count = l_retry_count l,
      rsr_last_error = l_last_error l, rsr_updated_at = l_updated_at l\<rparr>"

lemma coalesced_email_key:
  assumes "log_inv db" "r \<in> set (notification_log db)"
  shows "coalesced_email db r = n_recipient_id r"
proof (cases "email_detail_of db r")
  case (Some e)
  then have e: "e \<in> set (email_notification_log db)" "e_notification_id e = n_id r"
    by (auto simp: email_detail_of_def find_Some_iff)
  with assms(1) obtain r' where r': "r' \<in> set (notification_log db)" "n_id r' = n_id r" "n_recipient_id r' = e_recipient_email e"
    by (auto simp: log_inv_def detail_inv_def)
  with assms have "r' = r" by (auto simp: log_inv_def distinct_map inj_on_def)
  with r' Some show ?thesis by (simp add: coalesced_email_def)
qed (simp add: coalesced_email_def)

lemma to_log_report:
  assumes "log_inv db" "r \<in> set (notification_log db)"
  shows "\<exists>l. to_log db r = Ok l \<and> report_of l = recipient_status r"
proof -
  obtain st where "n_status r = status_as_str st" using log_inv_row [OF assms] by (auto simp: row_inv_def)
  then show ?thesis
    by (simp add: to_log_def Let_def report_of_def recipient_status_def coalesced_email_key [OF assms])
qed

lemma collect_to_log_reports:
  "log_inv db \<Longrightarrow> set rows \<subseteq> set (notification_log db) \<Longrightarrow>
   \<exists>ls. collect_results (to_log db) rows = Ok ls \<and> map report_of ls = map recipient_status rows"
  by (induction rows) (use to_log_report in fastforce)+

text \<open>Two listings of the same tables: the rows are the same, the order in which they are scanned need not be.\<close>

definition same_tables :: "log_db \<Rightarrow> log_db \<Rightarrow> bool" where
  "same_tables db db' \<longleftrightarrow>
     mset (notification_log db') = mset (notification_log db) \<and>
     mset (email_notification_log db') = mset (email_notification_log db) \<and> next_id db' = next_id db"

lemma distinct_map_mset: "mset xs = mset ys \<Longrightarrow> distinct (map f xs) \<longleftrightarrow> distinct (map f ys)"
  by (metis mset_map mset_eq_imp_distinct_iff)

lemma log_inv_same_tables:
  assumes "log_inv db" "same_tables db db'"
  shows "log_inv db'"
proof -
  have "set (notification_log db') = set (notification_log db)" "set (email_notification_log db') = set (email_notification_log db)"
    using assms(2) by (auto simp: same_tables_def dest: mset_eq_setD)
  with assms show ?thesis
    using distinct_map_mset [of "notification_log db'" "notification_log db" n_id]
      distinct_map_mset [of "notification_log db'" "notification_log db" row_ident]
      distinct_map_mset [of "email_notification_log db'" "email_notification_log db" e_notification_id]
    by (auto simp: log_inv_def detail_inv_def same_tables_def)
qed

lemma mset_event_rows: "mset (event_rows db ev) = filter_mset (of_event ev) (mset (notification_log db))"
  by (simp add: event_rows_def)

lemma event_rows_tieless:
  assumes "same_tables db db'" "distinct (map n_created_at (event_rows db ev))"
  shows "event_rows db' ev = event_rows db ev"
proof -
  let ?r = "event_rows db ev" and ?r' = "event_rows db' ev"
  have m: "mset ?r' = mset ?r" using assms(1) by (simp add: mset_event_rows same_tables_def)
  show ?thesis
  proof (rule map_sorted_distinct_set_unique [of n_created_at])
    show "inj_on n_created_at (set ?r' \<union> set ?r)" using assms(2) mset_eq_setD [OF m] by (simp add: distinct_map)
    show "distinct (map n_created_at ?r')" using assms(2) distinct_map_mset [OF m] by blast
  qed (use assms(2) mset_eq_setD [OF m] in \<open>simp_all add: event_rows_def\<close>)
qed

lemma get_by_event_id_reports:
  assumes "log_inv db"
  shows "if event_rows db ev = [] then get_by_event_id None ev db = Err (NotFound ev)
    else \<exists>logs. get_by_event_id None ev db = Ok logs \<and> map report_of logs = map recipient_status (take 500 (event_rows db ev))"
proof -
  have "set (take 500 (event_rows db ev)) \<subseteq> set (notification_log db)"
    by (rule order_trans [OF set_take_subset]) (auto simp: event_rows_def)
  from collect_to_log_reports [OF assms this] show ?thesis by (auto simp: get_by_event_id_def Let_def)
qed

lemma find_row_same_tables:
  assumes "log_inv db" "same_tables db db'"
  shows "find_row db' ev rc = find_row db ev rc"
proof -
  have s: "set (notification_log db') = set (notification_log db)" using assms(2) by (auto simp: same_tables_def dest: mset_eq_setD)
  show ?thesis
  proof (cases "find_row db ev rc")
    case None
    with s show ?thesis by (metis find_row_None)
  next
    case (Some r)
    from find_row_Some [OF this] s obtain r' where r': "find_row db' ev rc = Some r'" by (metis find_row_None not_Some_eq)
    from find_row_Some [OF this] find_row_Some [OF Some] s row_key_unique [OF assms(1)] have "r' = r" by blast
    with r' Some show ?thesis by simp
  qed
qed

text \<open>
  C33. One log, one answer: take a reachable delivery log as the statement of the command line (and of the MCP server) scans it, and
  as the statement of the HTTP interface does, the same rows in whatever order. The status report lists exactly the event's rows, each once with its recipient, status, retry
  count, last error and time, by creation time; the interface reads the same rows with the same fields, also by creation time, but only
  the first 500, and answers not-found exactly when the report is empty. When no two rows of the event have the same
  creation time the two are in the same order; otherwise rows of one time may come differently, and the 500 may be
  different ones. The report on one recipient is that of the interface.
\<close>

theorem status_reports_agree:
  assumes "log_reachable db" "same_tables db db'"
  shows "\<exists>rows rows'. get_status_for_event None ev db = Ok (map recipient_status rows) \<and>
    mset rows = filter_mset (of_event ev) (mset (notification_log db)) \<and> sorted (map n_created_at rows) \<and>
    mset rows' = mset rows \<and> sorted (map n_created_at rows') \<and> (distinct (map n_created_at rows) \<longrightarrow> rows' = rows) \<and>
    (if rows = [] then get_by_event_id None ev db' = Err (NotFound ev)
     else \<exists>logs. get_by_event_id None ev db' = Ok logs \<and> map report_of logs = map recipient_status (take 500 rows') \<and>
       (length rows \<le> 500 \<longrightarrow> mset (map report_of logs) = mset (map recipient_status rows))) \<and>
    get_status_for_recipient None ev rc db =
      (case get_by_event_and_recipient None ev rc db' of Inr l \<Rightarrow> Ok (Some (report_of l)) | Inl _ \<Rightarrow> Ok None)"
proof -
  let ?rows = "event_rows db ev" and ?rows' = "event_rows db' ev"
  have inv: "log_inv db" using assms(1) log_steps_inv log_inv_empty unfolding log_reachable_def by blast
  note inv' = log_inv_same_tables [OF inv assms(2)]
  have rows: "get_status_for_event None ev db = Ok (map recipient_status ?rows)"
    by (simp add: get_status_for_event_def select_all_def event_rows_def of_event_def [abs_def] CHANNEL_EMAIL_def)
  have m: "mset ?rows' = mset ?rows" using assms(2) by (simp add: mset_event_rows same_tables_def)
  then have e: "?rows' = [] \<longleftrightarrow> ?rows = []" "length ?rows' = length ?rows" by (auto dest: mset_eq_length)
  have "get_status_for_recipient None ev rc db =
      (case get_by_event_and_recipient None ev rc db' of Inr l \<Rightarrow> Ok (Some (report_of l)) | Inl _ \<Rightarrow> Ok None)"
  proof -
    have find: "find (\<lambda>n. n_event_id n = ev \<and> n_channel n = ''email'' \<and> n_recipient_id n = rc) (notification_log db) = find_row db' ev rc"
      unfolding find_row_same_tables [OF inv assms(2)] by (simp add: find_row_def row_key_def [abs_def] CHANNEL_EMAIL_def)
    show ?thesis
    proof (cases "find_row db' ev rc")
      case None
      then show ?thesis by (simp add: get_status_for_recipient_def get_by_event_and_recipient_def find)
    next
      case (Some r)
      with to_log_report [OF inv'] find_row_Some [OF Some] show ?thesis
        by (fastforce simp: get_status_for_recipient_def get_by_event_and_recipient_def find)
    qed
  qed
  moreover have "if ?rows = [] then get_by_event_id None ev db' = Err (NotFound ev)
     else \<exists>logs. get_by_event_id None ev db' = Ok logs \<and> map report_of logs = map recipient_status (take 500 ?rows') \<and>
       (length ?rows \<le> 500 \<longrightarrow> mset (map report_of logs) = mset (map recipient_status ?rows))"
    using get_by_event_id_reports [OF inv', of ev] m e by (auto simp del: mset_map simp: mset_map [symmetric]) (metis mset_map)
  moreover have "sorted (map n_created_at ?rows)" "sorted (map n_created_at ?rows')" by (simp_all add: event_rows_def)
  ultimately show ?thesis using rows m mset_event_rows event_rows_tieless [OF assms(2), of ev]
    by (intro exI [of _ ?rows] exI [of _ ?rows']) simp
qed

text \<open>One batch of two recipients, scanned the other way round by the second statement.\<close>

definition batch_db :: log_db where
  "batch_db = snd (insert_pending_batch None 10 [sample_args, sample_args\<lparr>p_recipient_email := ''b@x.org''\<rparr>] empty_db)"

definition batch_db_reversed :: log_db where
  "batch_db_reversed = batch_db\<lparr>notification_log := rev (notification_log batch_db)\<rparr>"

lemma batch_db_facts:
  "map_sum id (map rsr_recipient_email) (get_status_for_event None ''e1'' batch_db) = Ok [''a@x.org'', ''b@x.org'']"
  "map_sum (\<lambda>_. ()) (map l_recipient_email) (get_by_event_id None ''e1'' batch_db_reversed) = Ok [''b@x.org'', ''a@x.org'']"
  by code_simp+

theorem status_reports_agree_witness:
  "\<exists>rows logs. get_status_for_event None ''e1'' batch_db = Ok rows \<and> get_by_event_id None ''e1'' batch_db_reversed = Ok logs \<and>
     map rsr_recipient_email rows = [''a@x.org'', ''b@x.org''] \<and> map l_recipient_email logs = [''b@x.org'', ''a@x.org''] \<and>
     mset (map report_of logs) = mset rows"
proof -
  have r: "log_reachable batch_db" unfolding batch_db_def by (rule log_reachable_consumer [OF log_reachable_empty step_batch])
  have t: "same_tables batch_db batch_db_reversed" by (simp add: same_tables_def batch_db_reversed_def)
  obtain rows where rows: "get_status_for_event None ''e1'' batch_db = Ok rows" "map rsr_recipient_email rows = [''a@x.org'', ''b@x.org'']"
    using batch_db_facts(1) by (cases "get_status_for_event None ''e1'' batch_db") auto
  obtain logs where logs: "get_by_event_id None ''e1'' batch_db_reversed = Ok logs" "map l_recipient_email logs = [''b@x.org'', ''a@x.org'']"
    using batch_db_facts(2) by (cases "get_by_event_id None ''e1'' batch_db_reversed") auto
  have n: "length rows = 2" using arg_cong [OF rows(2), of length] by simp
  from status_reports_agree [OF r t, of "''e1''" "''a@x.org''"] rows(1) logs(1) n
  have "mset (map report_of logs) = mset rows" by (auto split: if_splits)
  with rows logs show ?thesis by (intro exI [of _ rows] exI [of _ logs] conjI)
qed

end
