(* ===== verification/Mcp.thy ===== *)
theory Mcp
  imports Cli_Queries Api
begin

text \<open>
  \<^verbatim>\<open>crates/mcp/src/server.rs\<close> and the types of its \<^verbatim>\<open>config.rs\<close>: the tool server that an assistant calls. A tool takes its
  decoded arguments and the state of the server and returns the content of its result or an
  error. The server works on the tables of the service with caches of its own, and opens a
  connection to the broker for each send. Tool dispatch and argument extraction follow the crate
  \<^verbatim>\<open>rmcp\<close>: an unknown name is refused, and arguments that do not decode are answered by
  the crate. The texts of the libraries (pretty-printed JSON, RFC 3339 times, parse errors) are arguments.
\<close>

section \<open>State\<close>

record McpDatabaseConfig =
  md_url :: string

record McpAmqpConfig =
  mq_url :: string
  mq_exchange :: string
  mq_routing_key :: string

record McpConfig =
  mc_database :: McpDatabaseConfig
  mc_amqp :: McpAmqpConfig

definition mcp_config_new :: "string \<Rightarrow> string \<Rightarrow> string \<Rightarrow> string \<Rightarrow> McpConfig" where
  "mcp_config_new database_url amqp_url exchange routing_key =
     \<lparr>mc_database = \<lparr>md_url = database_url\<rparr>,
      mc_amqp = \<lparr>mq_url = amqp_url, mq_exchange = exchange, mq_routing_key = routing_key\<rparr>\<rparr>"

text \<open>A message handed to the broker: exchange, routing key, body and what came of its confirmation.\<close>

record mcp_message =
  mm_exchange :: string
  mm_routing_key :: string
  mm_body :: json
  mm_confirmation :: "string + confirmation"

record ('t, 'b) mcp_env =
  me_fault :: "nat \<Rightarrow> db_fault"
  me_now :: "nat \<Rightarrow> datetime"
  me_new_uuid :: "nat \<Rightarrow> uuid"
  me_parse :: "string \<Rightarrow> json option"
  me_uuid_error :: "string \<Rightarrow> string"
  me_rfc3339 :: "datetime \<Rightarrow> string"
  me_formats :: text_formats
  me_reject :: "de_error \<Rightarrow> string"
  me_lower :: "string \<Rightarrow> string"
  me_pg_lower :: "string \<Rightarrow> string"
  me_rank :: "string \<Rightarrow> int"
  me_templates :: "'t template_cache"
  me_block_list :: "'b block_list_cache"
  me_connect :: "nat \<Rightarrow> string \<Rightarrow> string + unit"
  me_create_channel :: "nat \<Rightarrow> string + unit"
  me_confirm_select :: "nat \<Rightarrow> string + unit"
  me_exchange_declare :: "nat \<Rightarrow> string \<Rightarrow> string + unit"
  me_basic_publish :: "nat \<Rightarrow> string + unit"
  me_confirmation :: "nat \<Rightarrow> string + confirmation"
  me_version :: string

record ('t, 'b) NotifyServer =
  ns_log :: log_db
  ns_template_store :: "'t TemplateStore"
  ns_block_list_store :: "'b BlockListStore"
  ns_cfg :: McpConfig
  ns_sent :: "mcp_message list"
  ns_tick :: nat

datatype mcp_error = InvalidParams string | InternalError string

datatype tool_content = PlainText string | PrettyJson json

type_synonym ('t, 'b) tool_result = "(mcp_error + tool_content) \<times> ('t, 'b) NotifyServer"

definition ns_ticked :: "('t, 'b) NotifyServer \<Rightarrow> ('t, 'b) NotifyServer" where
  "ns_ticked s = s\<lparr>ns_tick := Suc (ns_tick s)\<rparr>"

text \<open>A statement with its error turned into an internal error.\<close>

definition ns_read ::
  "('t, 'b) mcp_env \<Rightarrow> ('e \<Rightarrow> string) \<Rightarrow> (db_fault \<Rightarrow> 'e + 'a) \<Rightarrow> ('t, 'b) NotifyServer \<Rightarrow> (mcp_error + 'a) \<times> ('t, 'b) NotifyServer" where
  "ns_read env err f s = (map_sum (InternalError \<circ> err) id (f (me_fault env (ns_tick s))), ns_ticked s)"

section \<open>send\_email\<close>

record SendEmailArgs =
  sa_event_type :: string
  sa_to :: string
  sa_name :: "string option"
  sa_payload :: string
  sa_from_email :: "string option"
  sa_from_name :: "string option"
  sa_subject :: "string option"
  sa_body_html :: "string option"
  sa_body_text :: "string option"
  sa_event_id :: "string option"

definition default_payload :: string where
  "default_payload = ''{}''"

definition dec_send_email_args :: "json \<Rightarrow> de_error + SendEmailArgs" where
  "dec_send_email_args j =
     and_then (struct_slots [[''event_type''], [''to''], [''name''], [''payload''], [''from_email''], [''from_name''],
                             [''subject''], [''body_html''], [''body_text''], [''event_id'']] j) (\<lambda>fs.
     and_then (required dec_string (fs ! 0)) (\<lambda>event_type.
     and_then (required dec_string (fs ! 1)) (\<lambda>to.
     and_then (optional (dec_option dec_string) (fs ! 2)) (\<lambda>name.
     and_then (with_default default_payload dec_string (fs ! 3)) (\<lambda>payload.
     and_then (optional (dec_option dec_string) (fs ! 4)) (\<lambda>from_email.
     and_then (optional (dec_option dec_string) (fs ! 5)) (\<lambda>from_name.
     and_then (optional (dec_option dec_string) (fs ! 6)) (\<lambda>subject.
     and_then (optional (dec_option dec_string) (fs ! 7)) (\<lambda>body_html.
     and_then (optional (dec_option dec_string) (fs ! 8)) (\<lambda>body_text.
     and_then (optional (dec_option dec_string) (fs ! 9)) (\<lambda>event_id.
       Ok \<lparr>sa_event_type = event_type, sa_to = to, sa_name = name, sa_payload = payload, sa_from_email = from_email,
           sa_from_name = from_name, sa_subject = subject, sa_body_html = body_html, sa_body_text = body_text,
           sa_event_id = event_id\<rparr>)))))))))))"

definition inline_content :: "SendEmailArgs \<Rightarrow> bool" where
  "inline_content a \<longleftrightarrow> sa_subject a \<noteq> None \<and> sa_body_html a \<noteq> None \<and> sa_body_text a \<noteq> None"

definition send_payload :: "(string \<Rightarrow> json option) \<Rightarrow> SendEmailArgs \<Rightarrow> json" where
  "send_payload parse a =
     (if inline_content a
      then JObj [(''subject'', JStr (or_default [] (sa_subject a))), (''body_html'', JStr (or_default [] (sa_body_html a))),
                 (''body_text'', JStr (or_default [] (sa_body_text a)))]
      else or_default JNull (parse (sa_payload a)))"

definition send_event_type :: "SendEmailArgs \<Rightarrow> string" where
  "send_event_type a = (if inline_content a then ''GENERIC_HTML'' else sa_event_type a)"

definition mcp_event :: "('t, 'b) mcp_env \<Rightarrow> nat \<Rightarrow> SendEmailArgs \<Rightarrow> NotificationEvent" where
  "mcp_event env n a =
     \<lparr>ne_event_id = or_default (me_new_uuid env n) (Option.bind (sa_event_id a) (parse_uuid (me_formats env))),
      ne_timestamp = me_now env n, ne_event_type = send_event_type a, ne_payload = send_payload (me_parse env) a,
      ne_metadata = \<lparr>md_source = Some ''opencode-mcp''\<rparr>,
      ne_channel_overrides = \<lparr>co_email = Some
        \<lparr>eo_send_mode = SendIndividual, eo_group_retry_mode = RetryWhole, eo_retry_policy = Retry,
         eo_recipients = [\<lparr>r_email = sa_to a, r_name = sa_name a\<rparr>], eo_cc = [], eo_bcc = [],
         eo_from_override = map_option (\<lambda>email. \<lparr>fo_email = email, fo_name = sa_from_name a\<rparr>) (sa_from_email a),
         eo_attachments = [], eo_sender_account = None, eo_send_at = None, eo_priority = None\<rparr>\<rparr>\<rparr>"

text \<open>A connection for one message, with publisher confirms; the confirmation is awaited but not looked at.\<close>

definition mcp_publish :: "('t, 'b) mcp_env \<Rightarrow> json \<Rightarrow> ('t, 'b) NotifyServer \<Rightarrow> (mcp_error + unit) \<times> ('t, 'b) NotifyServer" where
  "mcp_publish env body s =
     (let n = ns_tick s; cfg = mc_amqp (ns_cfg s) in
      case and_then (me_connect env n (mq_url cfg)) (\<lambda>_.
           and_then (me_create_channel env n) (\<lambda>_.
           and_then (me_confirm_select env n) (\<lambda>_.
           and_then (me_exchange_declare env n (mq_exchange cfg)) (\<lambda>_.
             me_basic_publish env n)))) of
        Inl e \<Rightarrow> (Err (InternalError e), ns_ticked s)
      | Inr _ \<Rightarrow>
          (map_sum InternalError (\<lambda>_. ()) (me_confirmation env n),
           (ns_ticked s)\<lparr>ns_sent := ns_sent s @ [\<lparr>mm_exchange = mq_exchange cfg, mm_routing_key = mq_routing_key cfg,
              mm_body = body, mm_confirmation = me_confirmation env n\<rparr>]\<rparr>))"

definition tool_send_email :: "('t, 'b) mcp_env \<Rightarrow> SendEmailArgs \<Rightarrow> ('t, 'b) NotifyServer \<Rightarrow> ('t, 'b) tool_result" where
  "tool_send_email env a s =
     (if \<not> is_valid_email (sa_to a) then (Err (InvalidParams (''invalid email address: '' @ sa_to a)), s)
      else
        let event = mcp_event env (ns_tick s) a
        in case mcp_publish env (enc_event (me_formats env) event) s of
             (Inl e, s) \<Rightarrow> (Err e, s)
           | (Inr _, s) \<Rightarrow>
               (Ok (PrettyJson (JObj [(''status'', JStr ''published''), (''event_id'', JStr (ne_event_id event)),
                  (''event_type'', JStr (ne_event_type event)), (''recipient'', JStr (sa_to a)),
                  (''message'', JStr (''Email event '' @ ne_event_id event @ '' published to '' @ mq_routing_key (mc_amqp (ns_cfg s))))])), s))"

section \<open>Delivery status\<close>

definition dec_struct1 :: "string \<Rightarrow> (json \<Rightarrow> de_error + 'a) \<Rightarrow> json \<Rightarrow> de_error + 'a" where
  "dec_struct1 name dec j = and_then (struct_slots [[name]] j) (\<lambda>fs. required dec (fs ! 0))"

definition parse_event_id :: "('t, 'b) mcp_env \<Rightarrow> string \<Rightarrow> mcp_error + uuid" where
  "parse_event_id env t =
     (case parse_uuid (me_formats env) t of
        Some u \<Rightarrow> Ok u
      | None \<Rightarrow> Err (InvalidParams (''invalid event_id UUID: '' @ me_uuid_error env t)))"

definition status_fields :: "('t, 'b) mcp_env \<Rightarrow> RecipientStatusRow \<Rightarrow> (string \<times> json) list" where
  "status_fields env r =
     [(''recipient'', JStr (rsr_recipient_email r)), (''status'', JStr (rsr_status r)),
      (''retry_count'', JInt (rsr_retry_count r)), (''last_error'', enc_option JStr (rsr_last_error r)),
      (''updated_at'', JStr (me_rfc3339 env (rsr_updated_at r)))]"

definition tool_check_delivery_status ::
  "('t, 'b) mcp_env \<Rightarrow> string \<Rightarrow> ('t, 'b) NotifyServer \<Rightarrow> ('t, 'b) tool_result" where
  "tool_check_delivery_status env event_id s =
     (case parse_event_id env event_id of
        Inl e \<Rightarrow> (Err e, s)
      | Inr u \<Rightarrow>
          (case ns_read env id (\<lambda>f. get_status_for_event f u (ns_log s)) s of
             (Inl e, s) \<Rightarrow> (Err e, s)
           | (Inr rows, s) \<Rightarrow>
               (Ok (if rows = [] then PlainText (''No delivery records found for event '' @ event_id)
                    else PrettyJson (JObj [(''event_id'', JStr event_id),
                           (''recipients'', JArr (map (JObj \<circ> status_fields env) rows))])), s)))"

record RecipientStatusArgs =
  ra_event_id :: string
  ra_email :: string

definition dec_recipient_status_args :: "json \<Rightarrow> de_error + RecipientStatusArgs" where
  "dec_recipient_status_args j =
     and_then (struct_slots [[''event_id''], [''email'']] j) (\<lambda>fs.
     and_then (required dec_string (fs ! 0)) (\<lambda>event_id.
     and_then (required dec_string (fs ! 1)) (\<lambda>email.
       Ok \<lparr>ra_event_id = event_id, ra_email = email\<rparr>)))"

definition tool_get_recipient_status ::
  "('t, 'b) mcp_env \<Rightarrow> RecipientStatusArgs \<Rightarrow> ('t, 'b) NotifyServer \<Rightarrow> ('t, 'b) tool_result" where
  "tool_get_recipient_status env a s =
     (case parse_event_id env (ra_event_id a) of
        Inl e \<Rightarrow> (Err e, s)
      | Inr u \<Rightarrow>
          (case ns_read env id (\<lambda>f. get_status_for_recipient f u (ra_email a) (ns_log s)) s of
             (Inl e, s) \<Rightarrow> (Err e, s)
           | (Inr row, s) \<Rightarrow>
               (Ok (case row of
                      None \<Rightarrow> PlainText (''No delivery record found for event '' @ ra_event_id a @ '' / recipient '' @ ra_email a)
                    | Some r \<Rightarrow> PrettyJson (JObj ((''event_id'', JStr (ra_event_id a)) # status_fields env r))), s)))"

section \<open>Templates\<close>

definition tool_list_templates :: "('t, 'b) mcp_env \<Rightarrow> ('t, 'b) NotifyServer \<Rightarrow> ('t, 'b) tool_result" where
  "tool_list_templates env s =
     (case ns_read env id (\<lambda>f. cli_list_templates (me_rank env) f (ts_rows (ns_template_store s))) s of
        (Inl e, s) \<Rightarrow> (Err e, s)
      | (Inr rows, s) \<Rightarrow>
          (Ok (PrettyJson (JArr (map (\<lambda>t. JObj [(''event_type'', JStr (tl_event_type t)), (''channel'', JStr (tl_channel t)),
             (''subject'', JStr (tl_subject t)), (''version'', JInt (tl_version t)), (''active'', JBool (tl_active t)),
             (''updated_at'', JStr (me_rfc3339 env (tl_updated_at t)))]) rows))), s))"

definition tool_get_template :: "('t, 'b) mcp_env \<Rightarrow> string \<Rightarrow> ('t, 'b) NotifyServer \<Rightarrow> ('t, 'b) tool_result" where
  "tool_get_template env event_type s =
     (case ns_read env app_error_to_string (\<lambda>f. template_get (me_rank env) f event_type (ns_template_store s)) s of
        (Inl e, s) \<Rightarrow> (Err e, s)
      | (Inr rows, s) \<Rightarrow>
          (Ok (if rows = [] then PlainText (''No template found for event type '' @ quote event_type)
               else PrettyJson (JArr (map (\<lambda>t. JObj [(''event_type'', JStr (tr_event_type t)), (''channel'', JStr (tr_channel t)),
                 (''subject'', JStr (tr_subject t)), (''body_html'', JStr (tr_body_html t)), (''body_text'', JStr (tr_body_text t)),
                 (''version'', JInt (tr_version t)), (''active'', JBool (tr_active t)),
                 (''updated_at'', JStr (me_rfc3339 env (tr_updated_at t)))]) rows))), s))"

record UpsertTemplateArgs =
  uta_event_type :: string
  uta_channel :: string
  uta_subject :: string
  uta_body_html :: string
  uta_body_text :: string
  uta_active :: bool

fun dec_bool :: "json \<Rightarrow> de_error + bool" where
  "dec_bool (JBool b) = Ok b"
| "dec_bool _ = Err InvalidType"

definition dec_upsert_template_args :: "json \<Rightarrow> de_error + UpsertTemplateArgs" where
  "dec_upsert_template_args j =
     and_then (struct_slots [[''event_type''], [''channel''], [''subject''], [''body_html''], [''body_text''], [''active'']] j) (\<lambda>fs.
     and_then (required dec_string (fs ! 0)) (\<lambda>event_type.
     and_then (with_default ''email'' dec_string (fs ! 1)) (\<lambda>channel.
     and_then (required dec_string (fs ! 2)) (\<lambda>subject.
     and_then (required dec_string (fs ! 3)) (\<lambda>body_html.
     and_then (required dec_string (fs ! 4)) (\<lambda>body_text.
     and_then (with_default True dec_bool (fs ! 5)) (\<lambda>active.
       Ok \<lparr>uta_event_type = event_type, uta_channel = channel, uta_subject = subject, uta_body_html = body_html,
           uta_body_text = body_text, uta_active = active\<rparr>)))))))"

definition tool_upsert_template ::
  "('t, 'b) mcp_env \<Rightarrow> UpsertTemplateArgs \<Rightarrow> ('t, 'b) NotifyServer \<Rightarrow> ('t, 'b) tool_result" where
  "tool_upsert_template env a s =
     (if trim (uta_event_type a) = [] \<or> trim (uta_subject a) = []
      then (Err (InvalidParams ''event_type and subject must not be empty''), s)
      else
        case template_upsert (me_templates env) (me_fault env (ns_tick s)) (me_now env (ns_tick s)) (uta_event_type a) (uta_channel a)
               (uta_subject a) (uta_body_html a) (uta_body_text a) (uta_active a) (ns_template_store s) of
          (Inl e, t) \<Rightarrow> (Err (InternalError (app_error_to_string e)), (ns_ticked s)\<lparr>ns_template_store := t\<rparr>)
        | (Inr (version, inserted), t) \<Rightarrow>
            (Ok (PrettyJson (JObj [(''event_type'', JStr (uta_event_type a)), (''channel'', JStr (uta_channel a)),
               (''version'', JInt version), (''active'', JBool (uta_active a)), (''inserted'', JBool inserted)])),
             (ns_ticked s)\<lparr>ns_template_store := t\<rparr>))"

section \<open>Block list\<close>

definition mcp_entry_json :: "('t, 'b) mcp_env \<Rightarrow> BlockListEntry \<Rightarrow> json" where
  "mcp_entry_json env e =
     JObj [(''id'', JInt (b_id e)), (''kind'', JStr (b_kind e)), (''value'', JStr (b_value e)),
           (''reason'', enc_option JStr (b_reason e)), (''created_at'', JStr (me_rfc3339 env (b_created_at e)))]"

definition tool_list_blocklist :: "('t, 'b) mcp_env \<Rightarrow> ('t, 'b) NotifyServer \<Rightarrow> ('t, 'b) tool_result" where
  "tool_list_blocklist env s =
     (case ns_read env app_error_to_string (\<lambda>f. list_entries f (ns_block_list_store s)) s of
        (Inl e, s) \<Rightarrow> (Err e, s)
      | (Inr entries, s) \<Rightarrow> (Ok (PrettyJson (JArr (map (mcp_entry_json env) entries))), s))"

record AddBlocklistEntryArgs =
  aba_kind :: string
  aba_value :: string
  aba_reason :: "string option"

definition dec_add_blocklist_entry_args :: "json \<Rightarrow> de_error + AddBlocklistEntryArgs" where
  "dec_add_blocklist_entry_args j =
     and_then (struct_slots [[''kind''], [''value''], [''reason'']] j) (\<lambda>fs.
     and_then (required dec_string (fs ! 0)) (\<lambda>kind.
     and_then (required dec_string (fs ! 1)) (\<lambda>value.
     and_then (optional (dec_option dec_string) (fs ! 2)) (\<lambda>reason.
       Ok \<lparr>aba_kind = kind, aba_value = value, aba_reason = reason\<rparr>))))"

definition tool_add_blocklist_entry ::
  "('t, 'b) mcp_env \<Rightarrow> AddBlocklistEntryArgs \<Rightarrow> ('t, 'b) NotifyServer \<Rightarrow> ('t, 'b) tool_result" where
  "tool_add_blocklist_entry env a s =
     (if aba_kind a \<notin> set block_list_kinds
      then (Err (InvalidParams (''invalid kind '' @ quote (aba_kind a) @ '' '' @ em_dash @ '' must be one of: ''
              @ join '', '' block_list_kinds)), s)
      else
        case add_entry (me_lower env) (me_pg_lower env) (me_block_list env) (me_fault env (ns_tick s)) (me_now env (ns_tick s))
               (aba_kind a) (aba_value a) (aba_reason a) (ns_block_list_store s) of
          (Inl e, b) \<Rightarrow> (Err (InternalError (app_error_to_string e)), (ns_ticked s)\<lparr>ns_block_list_store := b\<rparr>)
        | (Inr entry, b) \<Rightarrow> (Ok (PrettyJson (mcp_entry_json env entry)), (ns_ticked s)\<lparr>ns_block_list_store := b\<rparr>))"

fun dec_i64 :: "json \<Rightarrow> de_error + int" where
  "dec_i64 (JInt i) = (if - (2 ^ 63) \<le> i \<and> i < 2 ^ 63 then Ok i else Err (InvalidValue (int_to_string i)))"
| "dec_i64 _ = Err InvalidType"

definition tool_remove_blocklist_entry :: "('t, 'b) mcp_env \<Rightarrow> int \<Rightarrow> ('t, 'b) NotifyServer \<Rightarrow> ('t, 'b) tool_result" where
  "tool_remove_blocklist_entry env i s =
     (case remove_entry (me_block_list env) (me_fault env (ns_tick s)) i (ns_block_list_store s) of
        (Inl e, b) \<Rightarrow> (Err (InternalError (app_error_to_string e)), (ns_ticked s)\<lparr>ns_block_list_store := b\<rparr>)
      | (Inr _, b) \<Rightarrow>
          (Ok (PlainText (''Blocklist entry '' @ int_to_string i @ '' removed'')), (ns_ticked s)\<lparr>ns_block_list_store := b\<rparr>))"

section \<open>The server itself\<close>

definition tool_health_check :: "('t, 'b) mcp_env \<Rightarrow> ('t, 'b) NotifyServer \<Rightarrow> ('t, 'b) tool_result" where
  "tool_health_check env s =
     (let db_ok = (me_fault env (ns_tick s) = None)
      in (Ok (PrettyJson (JObj [(''status'', JStr (if db_ok then ''healthy'' else ''unhealthy'')),
            (''database'', JStr (if db_ok then ''connected'' else ''disconnected'')), (''service'', JStr ''anvil-notify'')])),
          ns_ticked s))"

definition mcp_tools :: "string list" where
  "mcp_tools = [''send_email'', ''check_delivery_status'', ''list_templates'', ''get_template'', ''upsert_template'',
     ''get_recipient_status'', ''list_blocklist'', ''add_blocklist_entry'', ''remove_blocklist_entry'', ''health_check'',
     ''get_server_info'']"

definition tool_get_server_info :: "('t, 'b) mcp_env \<Rightarrow> ('t, 'b) NotifyServer \<Rightarrow> ('t, 'b) tool_result" where
  "tool_get_server_info env s =
     (Ok (PrettyJson (JObj [(''service'', JStr ''anvil-notify''), (''version'', JStr (me_version env)),
        (''description'', JStr (''MCP server for anvil-notify '' @ em_dash @ '' transactional email delivery service'')),
        (''tools'', JArr (map JStr mcp_tools)), (''amqp_exchange'', JStr (mq_exchange (mc_amqp (ns_cfg s)))),
        (''amqp_routing_key'', JStr (mq_routing_key (mc_amqp (ns_cfg s))))])), s)"

definition with_args ::
  "('t, 'b) mcp_env \<Rightarrow> (json \<Rightarrow> de_error + 'a) \<Rightarrow> ('a \<Rightarrow> ('t, 'b) NotifyServer \<Rightarrow> ('t, 'b) tool_result) \<Rightarrow> json \<Rightarrow>
   ('t, 'b) NotifyServer \<Rightarrow> ('t, 'b) tool_result" where
  "with_args env dec tool j s = (case dec j of Inl e \<Rightarrow> (Err (InvalidParams (me_reject env e)), s) | Inr a \<Rightarrow> tool a s)"

text \<open>The tools by name.\<close>

definition tool_router ::
  "('t, 'b) mcp_env \<Rightarrow> (string \<times> (json \<Rightarrow> ('t, 'b) NotifyServer \<Rightarrow> ('t, 'b) tool_result)) list" where
  "tool_router env =
     [(''send_email'', with_args env dec_send_email_args (tool_send_email env)),
      (''check_delivery_status'', with_args env (dec_struct1 ''event_id'' dec_string) (tool_check_delivery_status env)),
      (''list_templates'', \<lambda>_. tool_list_templates env),
      (''get_template'', with_args env (dec_struct1 ''event_type'' dec_string) (tool_get_template env)),
      (''upsert_template'', with_args env dec_upsert_template_args (tool_upsert_template env)),
      (''get_recipient_status'', with_args env dec_recipient_status_args (tool_get_recipient_status env)),
      (''list_blocklist'', \<lambda>_. tool_list_blocklist env),
      (''add_blocklist_entry'', with_args env dec_add_blocklist_entry_args (tool_add_blocklist_entry env)),
      (''remove_blocklist_entry'', with_args env (dec_struct1 ''id'' dec_i64) (tool_remove_blocklist_entry env)),
      (''health_check'', \<lambda>_. tool_health_check env),
      (''get_server_info'', \<lambda>_. tool_get_server_info env)]"

definition call_tool :: "('t, 'b) mcp_env \<Rightarrow> string \<Rightarrow> json \<Rightarrow> ('t, 'b) NotifyServer \<Rightarrow> ('t, 'b) tool_result" where
  "call_tool env name arguments s =
     (case map_of (tool_router env) name of
        None \<Rightarrow> (Err (InvalidParams ''tool not found''), s)
      | Some tool \<Rightarrow> tool arguments s)"

end
