(* ===== verification/Mcp_Props.thy ===== *)
theory Mcp_Props
  imports Mcp "HOL-Library.Sublist"
begin

text \<open>
  The MCP server: what a tool can change, and what its separate caches mean for the service. The service
  and the MCP server work on one block-list table, each with a snapshot cache of its own that
  only its own writes invalidate; a step relation interleaves their statements, the service's SELECTs, insertions and invalidations and the passing of time, and
  the age of what a check decides by is bounded by the time to live and the latency of a SELECT.
\<close>

section \<open>What a tool can change\<close>

lemma ns_read_Inr: "ns_read env err f s = (Inr r, s') \<Longrightarrow> s' = ns_ticked s"
  by (simp add: ns_read_def)

lemma ns_read_Inl: "ns_read env err f s = (Inl e, s') \<Longrightarrow> s' = ns_ticked s \<and> (\<exists>m. e = InternalError m)"
  by (cases "f (me_fault env (ns_tick s))") (auto simp: ns_read_def)

lemma ns_ticked_simps [simp]:
  "ns_log (ns_ticked s) = ns_log s" "ns_template_store (ns_ticked s) = ns_template_store s"
  "ns_block_list_store (ns_ticked s) = ns_block_list_store s" "ns_cfg (ns_ticked s) = ns_cfg s" "ns_sent (ns_ticked s) = ns_sent s"
  by (simp_all add: ns_ticked_def)

text \<open>The effect of one call: the log and the configuration stay, each store may be changed by its own tools only, at most one
  message is sent, and a call refused for its parameters has no effect at all.\<close>

definition tool_effect :: "bool \<Rightarrow> bool \<Rightarrow> bool \<Rightarrow> ('t, 'b) NotifyServer \<Rightarrow> ('t, 'b) tool_result \<Rightarrow> bool" where
  "tool_effect tpl lst snd_ok s r \<longleftrightarrow>
     ns_log (snd r) = ns_log s \<and> ns_cfg (snd r) = ns_cfg s \<and>
     (tpl \<or> ns_template_store (snd r) = ns_template_store s) \<and>
     (lst \<or> ns_block_list_store (snd r) = ns_block_list_store s) \<and>
     (ns_sent (snd r) = ns_sent s \<or> snd_ok \<and> (\<exists>m. ns_sent (snd r) = ns_sent s @ [m])) \<and>
     (\<forall>m. fst r = Inl (InvalidParams m) \<longrightarrow> snd r = s)"

lemma parse_event_id_error: "parse_event_id env t = Inl e \<Longrightarrow> \<exists>m. e = InvalidParams m"
  by (auto simp: parse_event_id_def split: option.splits)

lemma with_args_effect:
  "(\<And>a. tool_effect t l p s (tool a s)) \<Longrightarrow> tool_effect t l p s (with_args env dec tool j s)"
  by (auto simp: with_args_def tool_effect_def split: sum.splits)

lemma read_tools_effect:
  "tool_effect False False False s (tool_check_delivery_status env ev s)"
  "tool_effect False False False s (tool_get_recipient_status env ra s)"
  "tool_effect False False False s (tool_list_templates env s)"
  "tool_effect False False False s (tool_get_template env ty s)"
  "tool_effect False False False s (tool_list_blocklist env s)"
  "tool_effect False False False s (tool_health_check env s)"
  "tool_effect False False False s (tool_get_server_info env s)"
  by (auto simp: tool_effect_def tool_check_delivery_status_def tool_get_recipient_status_def tool_list_templates_def
      tool_get_template_def tool_list_blocklist_def tool_health_check_def tool_get_server_info_def Let_def
      split: sum.splits prod.splits dest!: ns_read_Inr ns_read_Inl)

lemma write_tools_effect:
  "tool_effect True False False s (tool_upsert_template env ua s)"
  "tool_effect False True False s (tool_add_blocklist_entry env aa s)"
  "tool_effect False True False s (tool_remove_blocklist_entry env i s)"
  by (auto simp: tool_effect_def tool_upsert_template_def tool_add_blocklist_entry_def tool_remove_blocklist_entry_def
      split: sum.splits prod.splits)

lemma mcp_publish_effect:
  assumes "mcp_publish env body s = (r, s')"
  shows "ns_log s' = ns_log s \<and> ns_cfg s' = ns_cfg s \<and> ns_template_store s' = ns_template_store s \<and>
    ns_block_list_store s' = ns_block_list_store s \<and>
    (ns_sent s' = ns_sent s \<or> (\<exists>m. ns_sent s' = ns_sent s @ [m])) \<and> r \<noteq> Inl (InvalidParams p)"
  using assms
  by (cases "me_confirmation env (ns_tick s)") (auto simp: mcp_publish_def Let_def split: sum.splits)

lemma send_tool_effect: "tool_effect False False True s (tool_send_email env a s)"
proof (cases "is_valid_email (sa_to a)")
  case True
  let ?body = "enc_event (me_formats env) (mcp_event env (ns_tick s) a)"
  obtain r s' where run: "mcp_publish env ?body s = (r, s')" by fastforce
  with True mcp_publish_effect [OF run] show ?thesis
    by (cases r) (auto simp: tool_effect_def tool_send_email_def Let_def)
qed (simp add: tool_effect_def tool_send_email_def)

lemma tool_effect_mono:
  "tool_effect t l p s r \<Longrightarrow> (t \<Longrightarrow> t') \<Longrightarrow> (l \<Longrightarrow> l') \<Longrightarrow> (p \<Longrightarrow> p') \<Longrightarrow> tool_effect t' l' p' s r"
  by (auto simp: tool_effect_def)

lemma call_tool_effect:
  "tool_effect (name = ''upsert_template'') (name \<in> {''add_blocklist_entry'', ''remove_blocklist_entry''}) (name = ''send_email'') s
     (call_tool env name args s)"
proof -
  let ?E = "\<lambda>tool. tool_effect (name = ''upsert_template'') (name \<in> {''add_blocklist_entry'', ''remove_blocklist_entry''})
    (name = ''send_email'') s (tool args s)"
  have "?E tool" if "map_of (tool_router env) name = Some tool" for tool
  proof -
    have "(name, tool) \<in> set (tool_router env)" using that by (rule map_of_SomeD)
    then show ?thesis
      unfolding tool_router_def list.set insert_iff empty_iff prod.inject
      by (elim disjE conjE FalseE)
        (auto intro!: with_args_effect intro: read_tools_effect write_tools_effect send_tool_effect tool_effect_mono)
  qed
  then show ?thesis by (auto simp: call_tool_def tool_effect_def split: option.splits)
qed


section \<open>The tables stay well-formed\<close>

text \<open>One template per event type and channel, block-list values in lower case.\<close>

definition tables_ok :: "(string \<Rightarrow> string) \<Rightarrow> ('t, 'b) NotifyServer \<Rightarrow> bool" where
  "tables_ok lower s \<longleftrightarrow>
     distinct (map (\<lambda>r. (tr_event_type r, tr_channel r)) (ts_rows (ns_template_store s))) \<and>
     rows_lowered lower (bl_rows (ns_block_list_store s))"

lemma upsert_distinct:
  assumes "distinct (map (\<lambda>r. (tr_event_type r, tr_channel r)) (ts_rows t))"
  shows "distinct (map (\<lambda>r. (tr_event_type r, tr_channel r))
    (ts_rows (snd (template_upsert ops fault now ty ch subj html txt active t))))"
proof -
  let ?k = "\<lambda>r. (tr_event_type r, tr_channel r)"
  have keep: "map ?k (map (\<lambda>x. if template_key ty ch x then template_write now subj html txt active r else x) (ts_rows t)) =
    map ?k (ts_rows t)" if "find (template_key ty ch) (ts_rows t) = Some r" for r
    using that by (auto simp: find_Some_iff template_key_def template_write_def Let_def)
  have new: "(ty, ch) \<notin> ?k ` set (ts_rows t)" if "find (template_key ty ch) (ts_rows t) = None"
    using that by (auto simp: find_None_iff template_key_def)
  show ?thesis
  proof (cases "find (template_key ty ch) (ts_rows t)")
    case None
    with assms new show ?thesis by (auto simp: template_upsert_defs split: option.splits)
  next
    case (Some r)
    with assms show ?thesis
      by (simp add: template_upsert_defs Let_def keep [OF Some] del: map_map split: option.split)
  qed
qed

lemma add_entry_lowered:
  assumes "lowercase lower" "rows_lowered lower (bl_rows b)"
  shows "rows_lowered lower (bl_rows (snd (add_entry lower pg_lower ops fault now kind value reason b)))"
  using assms lowercase.lower_idem [OF assms(1)]
  by (auto simp: add_entry_def Let_def rows_lowered_def bl_invalidate_def find_Some_iff split: option.splits)

lemma remove_entry_lowered:
  "rows_lowered lower (bl_rows b) \<Longrightarrow> rows_lowered lower (bl_rows (snd (remove_entry ops fault i b)))"
  by (auto simp: remove_entry_def rows_lowered_def bl_invalidate_def split: option.splits)

lemma with_args_tables:
  "tables_ok lower s \<Longrightarrow> (\<And>a. tables_ok lower (snd (tool a s))) \<Longrightarrow> tables_ok lower (snd (with_args env dec tool j s))"
  by (auto simp: with_args_def split: sum.splits)

lemma write_tools_tables:
  assumes "lowercase (me_lower env)" "tables_ok (me_lower env) s"
  shows "tables_ok (me_lower env) (snd (tool_upsert_template env ua s))"
    "tables_ok (me_lower env) (snd (tool_add_blocklist_entry env aa s))"
    "tables_ok (me_lower env) (snd (tool_remove_blocklist_entry env i s))"
  using assms upsert_distinct [of "ns_template_store s" "me_templates env" "me_fault env (ns_tick s)" "me_now env (ns_tick s)"
      "uta_event_type ua" "uta_channel ua" "uta_subject ua" "uta_body_html ua" "uta_body_text ua" "uta_active ua"]
    add_entry_lowered [OF assms(1), of "ns_block_list_store s" "me_pg_lower env" "me_block_list env" "me_fault env (ns_tick s)"
      "me_now env (ns_tick s)" "aba_kind aa" "aba_value aa" "aba_reason aa"]
    remove_entry_lowered [of "me_lower env" "ns_block_list_store s" "me_block_list env" "me_fault env (ns_tick s)" i]
  by (auto simp: tables_ok_def tool_upsert_template_def tool_add_blocklist_entry_def tool_remove_blocklist_entry_def
      split: sum.splits prod.splits)

lemma same_stores_tables:
  "tables_ok lower s \<Longrightarrow> tool_effect False False p s r \<Longrightarrow> tables_ok lower (snd r)"
  by (auto simp: tables_ok_def tool_effect_def)

lemma call_tool_tables:
  assumes "lowercase (me_lower env)" "tables_ok (me_lower env) s"
  shows "tables_ok (me_lower env) (snd (call_tool env name args s))"
proof -
  have "tables_ok (me_lower env) (snd (tool args s))" if "map_of (tool_router env) name = Some tool" for tool
  proof (cases "name \<in> {''upsert_template'', ''add_blocklist_entry'', ''remove_blocklist_entry''}")
    case True
    with that show ?thesis
      by (auto simp: tool_router_def intro!: with_args_tables write_tools_tables assms)
  next
    case False
    with call_tool_effect [of name s env args] that
    have "tool_effect False False (name = ''send_email'') s (tool args s)" by (simp add: call_tool_def)
    with assms(2) show ?thesis by (rule same_stores_tables)
  qed
  with assms(2) show ?thesis by (auto simp: call_tool_def split: option.splits)
qed

lemma router_names: "map fst (tool_router env) = mcp_tools"
  by (simp add: tool_router_def mcp_tools_def)

text \<open>
  C19. A tool does only what it is for: whatever a client calls with whatever arguments, the delivery log and the configuration are
  untouched, only the template tool changes templates, only the two block-list tools change the block list, only
  the send tool hands a message to the broker, and then at most one; templates stay unique per event type and channel and block-list
  values lower-case; a call that is refused for its parameters has no effect, and a name that
  the server does not announce is refused.
\<close>

theorem mcp_tools_confined:
  assumes "lowercase (me_lower env)" "tables_ok (me_lower env) s" "call_tool env name args s = (r, s')"
  shows "ns_log s' = ns_log s \<and> ns_cfg s' = ns_cfg s \<and> tables_ok (me_lower env) s' \<and>
    (name \<noteq> ''upsert_template'' \<longrightarrow> ns_template_store s' = ns_template_store s) \<and>
    (name \<notin> {''add_blocklist_entry'', ''remove_blocklist_entry''} \<longrightarrow> ns_block_list_store s' = ns_block_list_store s) \<and>
    (ns_sent s' = ns_sent s \<or> name = ''send_email'' \<and> (\<exists>m. ns_sent s' = ns_sent s @ [m])) \<and>
    (\<forall>m. r = Inl (InvalidParams m) \<longrightarrow> s' = s) \<and>
    (name \<notin> set mcp_tools \<longrightarrow> r = Inl (InvalidParams ''tool not found''))"
proof -
  have "map_of (tool_router env) name = None" if "name \<notin> set mcp_tools"
    using that router_names [of env] by (metis image_set map_of_eq_None_iff)
  with call_tool_effect [of name s env args] call_tool_tables [OF assms(1,2), of name args] assms(3)
  show ?thesis by (auto simp: tool_effect_def call_tool_def)
qed


definition sample_mcp_env ::
  "((string \<times> NotificationTemplate \<times> datetime) list, (string \<times> BlockListSnapshot \<times> datetime) list) mcp_env" where
  "sample_mcp_env =
     \<lparr>me_fault = (\<lambda>_. None), me_now = (\<lambda>_. 7), me_new_uuid = (\<lambda>_. ''new''), me_parse = (\<lambda>t. if t = ''{}'' then Some (JObj []) else None),
      me_uuid_error = (\<lambda>_. ''invalid''), me_rfc3339 = (\<lambda>_. ''1970''), me_formats = sample_formats, me_reject = (\<lambda>_. ''bad arguments''),
      me_lower = ascii_lowercase, me_pg_lower = ascii_lowercase, me_rank = (\<lambda>_. 0), me_templates = ttl_cache 300, me_block_list = ttl_cache 300,
      me_connect = (\<lambda>_ _. Ok ()), me_create_channel = (\<lambda>_. Ok ()), me_confirm_select = (\<lambda>_. Ok ()), me_exchange_declare = (\<lambda>_ _. Ok ()),
      me_basic_publish = (\<lambda>_. Ok ()), me_confirmation = (\<lambda>_. Ok ConfirmNack), me_version = ''0''\<rparr>"

definition sample_server ::
  "((string \<times> NotificationTemplate \<times> datetime) list, (string \<times> BlockListSnapshot \<times> datetime) list) NotifyServer" where
  "sample_server =
     \<lparr>ns_log = empty_db, ns_template_store = \<lparr>ts_rows = [], ts_cache = []\<rparr>, ns_block_list_store = sample_block_list,
      ns_cfg = mcp_config_new ''db'' ''amqp'' ''anvil-notify'' ''email.requested'', ns_sent = [], ns_tick = 0\<rparr>"

definition sample_block_args :: json where
  "sample_block_args = JObj [(''kind'', JStr ''blocked_email''), (''value'', JStr ''Spam@X.org'')]"

theorem mcp_tools_confined_witness:
  "\<exists>r s'. call_tool sample_mcp_env ''add_blocklist_entry'' sample_block_args sample_server = (Ok r, s') \<and>
     map b_value (bl_rows (ns_block_list_store s')) = [''spam@x.org''] \<and> ns_sent s' = [] \<and> tables_ok ascii_lowercase s'"
proof -
  let ?run = "call_tool sample_mcp_env ''add_blocklist_entry'' sample_block_args sample_server"
  have run: "is_ok (fst ?run) \<and> map b_value (bl_rows (ns_block_list_store (snd ?run))) = [''spam@x.org'']" by code_simp
  then obtain r s' where rs: "?run = (Ok r, s')" by (cases ?run) (auto simp: is_ok_def split: sum.splits)
  have l: "me_lower sample_mcp_env = ascii_lowercase" "ns_sent sample_server = []"
    by (simp_all add: sample_mcp_env_def sample_server_def)
  have "tables_ok ascii_lowercase sample_server"
    by (simp add: tables_ok_def sample_server_def sample_block_list_def rows_lowered_def)
  with mcp_tools_confined [of sample_mcp_env sample_server, unfolded l(1), OF ascii.lowercase_axioms _ rs] rs run l(2)
  show ?thesis by auto
qed

section \<open>One table, two processes\<close>

text \<open>A hit is younger than the time to live.\<close>

locale expiring_cache = moka_cache ops for ops :: "('k, 'v, 'c) cache_ops" + fixes ttl :: int
  assumes expires: "cache_get ops t' k (cache_insert ops t k v c) = Some w \<Longrightarrow> t' < t + ttl"
begin

text \<open>Every possible hit was inserted less than the time to live ago, at a time for which \<open>R\<close> holds.\<close>

definition aged :: "(datetime \<Rightarrow> 'v \<Rightarrow> bool) \<Rightarrow> 'c \<Rightarrow> bool" where
  "aged R c \<longleftrightarrow> (\<forall>t k v. cache_get ops t k c = Some v \<longrightarrow> (\<exists>t0. t < t0 + ttl \<and> R t0 v))"

lemma aged_insert:
  assumes "aged R c" "R t v"
  shows "aged R (cache_insert ops t k v c)"
  unfolding aged_def
proof (intro allI impI)
  fix t' k' w
  assume hit: "cache_get ops t' k' (cache_insert ops t k v c) = Some w"
  show "\<exists>t0. t' < t0 + ttl \<and> R t0 w"
  proof (cases "k' = k")
    case True
    with hit get_insert [OF hit] expires [of t' k t v c w] assms(2) show ?thesis by blast
  next
    case False
    with get_insert [OF hit] assms(1) show ?thesis unfolding aged_def by blast
  qed
qed

lemma aged_invalidate: "aged R c \<Longrightarrow> aged R (cache_invalidate ops k c)"
  unfolding aged_def using get_invalidate by metis

lemma aged_weaken: "aged R c \<Longrightarrow> (\<And>t v. R t v \<Longrightarrow> R' t v) \<Longrightarrow> aged R' c"
  unfolding aged_def by blast

end

interpretation ttl_age: expiring_cache "ttl_cache d" d
  by unfold_locales
    (auto simp: ttl_cache_def Let_def map_of_filter_key split: if_splits option.splits)

text \<open>
  The table with the service's cache, the clock, the service's SELECTs whose result is not yet in the cache, and every
  content the table has had, with its times. Additions and removals (the statements of \<^verbatim>\<open>add_entry\<close> and \<^verbatim>\<open>remove_entry\<close>) come from either
  process; only those of the service are followed by an invalidation of its cache, which is a step of its own. A SELECT
  takes at most \<open>latency\<close> from the table it sees to its insertion.
\<close>

record 'c shared_list =
  sl_store :: "'c BlockListStore"
  sl_loads :: "(datetime \<times> BlockListSnapshot) list"
  sl_now :: datetime
  sl_past :: "(datetime \<times> BlockListEntry list) set"

definition table_now :: "datetime \<Rightarrow> BlockListEntry list \<Rightarrow> int \<Rightarrow> 'c shared_list \<Rightarrow> 'c shared_list" where
  "table_now t rows n s =
     s\<lparr>sl_now := t, sl_store := (sl_store s)\<lparr>bl_rows := rows, bl_next_id := n\<rparr>, sl_past := insert (t, rows) (sl_past s)\<rparr>"

inductive shared_step ::
  "(string \<Rightarrow> string) \<Rightarrow> (string \<Rightarrow> string) \<Rightarrow> 'c block_list_cache \<Rightarrow> int \<Rightarrow> 'c shared_list \<Rightarrow> 'c shared_list \<Rightarrow> bool"
  for lower pg_lower ops latency where
  clock_advances:
    "sl_now s \<le> t \<Longrightarrow> \<forall>(t0, snap) \<in> set (sl_loads s). t \<le> t0 + latency \<Longrightarrow>
     shared_step lower pg_lower ops latency s (table_now t (bl_rows (sl_store s)) (bl_next_id (sl_store s)) s)"
| select_done:
    "bl_cached ops (sl_now s) (sl_store s) = None \<Longrightarrow> bl_load None (bl_rows (sl_store s)) = Ok snap \<Longrightarrow>
     shared_step lower pg_lower ops latency s (s\<lparr>sl_loads := sl_loads s @ [(sl_now s, snap)]\<rparr>)"
| snapshot_kept:
    "sl_loads s = ls @ (t0, snap) # ls' \<Longrightarrow>
     shared_step lower pg_lower ops latency s (s\<lparr>sl_store := bl_keep ops (sl_now s) snap (sl_store s), sl_loads := ls @ ls'\<rparr>)"
| select_dropped:
    "sl_loads s = ls @ l # ls' \<Longrightarrow> shared_step lower pg_lower ops latency s (s\<lparr>sl_loads := ls @ ls'\<rparr>)"
| entry_added:
    "b = snd (add_entry lower pg_lower ops fault (sl_now s) kind v reason (sl_store s)) \<Longrightarrow>
     shared_step lower pg_lower ops latency s (table_now (sl_now s) (bl_rows b) (bl_next_id b) s)"
| entry_removed:
    "b = snd (remove_entry ops fault i (sl_store s)) \<Longrightarrow>
     shared_step lower pg_lower ops latency s (table_now (sl_now s) (bl_rows b) (bl_next_id b) s)"
| list_invalidated:
    "shared_step lower pg_lower ops latency s (s\<lparr>sl_store := bl_invalidate ops (sl_store s)\<rparr>)"

definition shared_start :: "'c \<Rightarrow> datetime \<Rightarrow> 'c shared_list" where
  "shared_start c t = \<lparr>sl_store = \<lparr>bl_rows = [], bl_next_id = 1, bl_cache = c\<rparr>, sl_loads = [], sl_now = t, sl_past = {(t, [])}\<rparr>"

definition past_ok :: "(string \<Rightarrow> string) \<Rightarrow> 'c shared_list \<Rightarrow> bool" where
  "past_ok lower s \<longleftrightarrow>
     (sl_now s, bl_rows (sl_store s)) \<in> sl_past s \<and> (\<forall>(t, rows) \<in> sl_past s. t \<le> sl_now s \<and> rows_lowered lower rows)"

text \<open>The snapshot is a content that the table had at most \<open>d\<close> before the time \<open>t\<close>.\<close>

definition was_table :: "'c shared_list \<Rightarrow> int \<Rightarrow> datetime \<Rightarrow> BlockListSnapshot \<Rightarrow> bool" where
  "was_table s d t snap \<longleftrightarrow> (\<exists>t0 rows. (t0, rows) \<in> sl_past s \<and> t \<le> t0 + d \<and> snap = load_snapshot rows)"

definition loads_ok :: "int \<Rightarrow> 'c shared_list \<Rightarrow> bool" where
  "loads_ok d s \<longleftrightarrow> (\<forall>(t0, snap) \<in> set (sl_loads s). sl_now s \<le> t0 + d \<and> was_table s 0 t0 snap)"

lemma was_table_mono: "was_table s d t snap \<Longrightarrow> sl_past s \<subseteq> sl_past s' \<Longrightarrow> was_table s' d t snap"
  by (auto simp: was_table_def)

lemma load_was_table: "loads_ok d s \<Longrightarrow> (t0, snap) \<in> set (sl_loads s) \<Longrightarrow> was_table s d (sl_now s) snap"
  by (fastforce simp: loads_ok_def was_table_def)

lemma shared_step_past_ok:
  assumes "shared_step lower pg_lower ops latency s s'" "lowercase lower" "past_ok lower s"
  shows "past_ok lower s' \<and> sl_past s \<subseteq> sl_past s'"
proof -
  have rows: "rows_lowered lower (bl_rows (sl_store s))" using assms(3) by (auto simp: past_ok_def)
  from assms(1) show ?thesis
  proof cases
    case (clock_advances t)
    with assms(3) rows show ?thesis by (force simp: past_ok_def table_now_def)
  next
    case (entry_added b fault kind v reason)
    with add_entry_lowered [OF assms(2) rows] assms(3) show ?thesis by (auto simp: past_ok_def table_now_def)
  next
    case (entry_removed b fault i)
    with remove_entry_lowered [OF rows] assms(3) show ?thesis by (auto simp: past_ok_def table_now_def)
  qed (use assms(3) in \<open>auto simp: past_ok_def bl_keep_def bl_invalidate_def\<close>)
qed

lemma shared_step_loads:
  assumes "shared_step lower pg_lower ops latency s s'" "past_ok lower s" "sl_past s \<subseteq> sl_past s'" "0 \<le> latency" "loads_ok latency s"
  shows "loads_ok latency s'"
proof -
  have now: "was_table s 0 (sl_now s) (load_snapshot (bl_rows (sl_store s)))"
    using assms(2) by (auto simp: was_table_def past_ok_def)
  have "sl_now s' \<le> t0 + latency \<and> was_table s 0 t0 snap" if "(t0, snap) \<in> set (sl_loads s')" for t0 snap
    using assms(1)
  proof cases
    case (clock_advances t)
    with that assms(5) show ?thesis by (auto simp: table_now_def loads_ok_def)
  next
    case (select_done snap')
    with that assms(4,5) now show ?thesis by (auto simp: loads_ok_def bl_load_def)
  qed (use that assms(5) in \<open>auto simp: loads_ok_def table_now_def\<close>)
  then show ?thesis by (auto simp: loads_ok_def intro: was_table_mono [OF _ assms(3)])
qed

locale block_list_age = expiring_cache ops ttl for ops :: "(string, BlockListSnapshot, 'c) cache_ops" and ttl
begin

lemma shared_step_aged:
  assumes "shared_step lower pg_lower ops latency s s'" "sl_past s \<subseteq> sl_past s'" "loads_ok latency s"
    and "aged (was_table s latency) (bl_cache (sl_store s))"
  shows "aged (was_table s' latency) (bl_cache (sl_store s'))"
proof -
  have "aged (was_table s latency) (bl_cache (sl_store s'))"
    using assms(1)
  proof cases
    case (snapshot_kept ls t0 snap ls')
    then have "was_table s latency (sl_now s) snap" using load_was_table [OF assms(3)] by auto
    with snapshot_kept assms(4) show ?thesis by (simp add: bl_keep_def aged_insert)
  next
    case list_invalidated
    with assms(4) show ?thesis by (simp add: bl_invalidate_def aged_invalidate)
  qed (use assms(4) in \<open>auto simp: table_now_def\<close>)
  then show ?thesis by (rule aged_weaken) (rule was_table_mono [OF _ assms(2)])
qed

lemma shared_reachable_aged:
  assumes "(shared_step lower pg_lower ops latency)\<^sup>*\<^sup>* (shared_start c t) s" "lowercase lower" "0 \<le> latency"
    and "\<And>t' k. cache_get ops t' k c = None"
  shows "past_ok lower s \<and> loads_ok latency s \<and> aged (was_table s latency) (bl_cache (sl_store s))"
  using assms(1)
proof (induction rule: rtranclp_induct)
  case base
  then show ?case using assms(4) by (simp add: shared_start_def past_ok_def rows_lowered_def aged_def loads_ok_def)
next
  case (step y z)
  with shared_step_past_ok [OF step(2) assms(2)] have "past_ok lower z" "sl_past y \<subseteq> sl_past z" by simp_all
  with step shared_step_loads [OF step(2)] shared_step_aged [OF step(2)] assms(3) show ?case by blast
qed

end

interpretation ttl_block_list_age: block_list_age "ttl_cache d" d
  by unfold_locales

text \<open>A check decides by what the cache gives it, or by what its own SELECT has given it.\<close>

definition decides_by :: "'c block_list_cache \<Rightarrow> 'c shared_list \<Rightarrow> BlockListSnapshot \<Rightarrow> bool" where
  "decides_by ops s snap \<longleftrightarrow> bl_cached ops (sl_now s) (sl_store s) = Some snap \<or> snap \<in> snd ` set (sl_loads s)"

lemma cached_check: "bl_cached ops now b = Some snap \<Longrightarrow> bl_check lower ops fault now a b = (snapshot_check lower snap a, b)"
  by (simp add: bl_check_def bl_snapshot_def)

text \<open>
  C17. How old a block-list decision can be: the service and the MCP server share the table but not their snapshots, so a
  write through one is not seen by the other at once; and within the service the SELECT and the insertion into the cache are separate, so a
  snapshot can enter the cache after a write and even after the invalidation that followed it. In every interleaving of SELECTs, insertions, statements of either process,
  invalidations and the passing of time in which no SELECT takes longer than the latency from the table it sees to its
  insertion, a check of the service decides exactly the policy of a content the table has had: one that is younger than the time to live plus the latency when the check hits the cache, and no older than the latency when
  it decides by its own SELECT. What was removed longer ago than that no longer counts and what was added longer ago always counts.
\<close>

theorem block_list_staleness_bounded:
  assumes "expiring_cache ops ttl" "lowercase lower" "0 \<le> latency" "\<forall>t' k. cache_get ops t' k c = None"
    and "(shared_step lower pg_lower ops latency)\<^sup>*\<^sup>* (shared_start c t) s" "decides_by ops s snap"
  shows "\<exists>t0 rows. (t0, rows) \<in> sl_past s \<and> t0 \<le> sl_now s \<and> (sl_now s < t0 + latency + ttl \<or> sl_now s \<le> t0 + latency) \<and>
    snap = load_snapshot rows \<and> (is_ok (snapshot_check lower snap a) \<longleftrightarrow> filter_allows lower (filter_of_rows rows) a) \<and>
    (bl_cached ops (sl_now s) (sl_store s) = Some snap \<longrightarrow>
       sl_now s < t0 + latency + ttl \<and> bl_check lower ops fault (sl_now s) a (sl_store s) = (snapshot_check lower snap a, sl_store s))"
proof -
  have loc: "block_list_age ops ttl" using assms(1) by (simp add: block_list_age_def)
  have inv: "past_ok lower s" "loads_ok latency s" "expiring_cache.aged ops ttl (was_table s latency) (bl_cache (sl_store s))"
    using block_list_age.shared_reachable_aged [OF loc assms(5,2,3)] assms(4) by simp_all
  have pol: "t0 \<le> sl_now s \<and> (is_ok (snapshot_check lower (load_snapshot rows) a) \<longleftrightarrow> filter_allows lower (filter_of_rows rows) a)"
    if "(t0, rows) \<in> sl_past s" for t0 rows
    using that inv(1) snapshot_check_policy [of lower rows a] by (auto simp: past_ok_def)
  show ?thesis
  proof (cases "bl_cached ops (sl_now s) (sl_store s) = Some snap")
    case True
    with inv(3) obtain t1 where "sl_now s < t1 + ttl" "was_table s latency t1 snap"
      unfolding expiring_cache.aged_def [OF assms(1)] bl_cached_def by blast
    then obtain t0 rows where t0: "(t0, rows) \<in> sl_past s" "t1 \<le> t0 + latency" "snap = load_snapshot rows" "sl_now s < t0 + latency + ttl"
      by (auto simp: was_table_def)
    with pol [OF t0(1)] cached_check [OF True] show ?thesis by (intro exI [of _ t0] exI [of _ rows]) simp
  next
    case False
    with assms(6) obtain t1 where "(t1, snap) \<in> set (sl_loads s)" by (auto simp: decides_by_def)
    from load_was_table [OF inv(2) this] obtain t0 rows where t0: "(t0, rows) \<in> sl_past s" "sl_now s \<le> t0 + latency" "snap = load_snapshot rows"
      by (auto simp: was_table_def)
    with pol [OF t0(1)] False show ?thesis by (intro exI [of _ t0] exI [of _ rows]) simp
  qed
qed

text \<open>The service has read the empty list when an address is blocked, through the service itself and with the invalidation that follows;
  five later its SELECT enters the cache, and the address passes until the time to live has run out from then on.\<close>

definition blocked_rows :: "BlockListEntry list" where
  "blocked_rows = [\<lparr>b_id = 1, b_kind = ''blocked_email'', b_value = ''a@x.org'', b_reason = None, b_active = True, b_created_at = 0\<rparr>]"

definition stale_list :: "datetime \<Rightarrow> (string \<times> BlockListSnapshot \<times> datetime) list shared_list" where
  "stale_list t =
     \<lparr>sl_store = \<lparr>bl_rows = blocked_rows, bl_next_id = 2, bl_cache = [(CACHE_KEY, load_snapshot [], 35)]\<rparr>, sl_loads = [], sl_now = t,
      sl_past = {(t, blocked_rows), (5, blocked_rows), (0, blocked_rows), (0, [])}\<rparr>"

lemma stale_list_reachable:
  assumes "5 \<le> t"
  shows "(shared_step ascii_lowercase ascii_lowercase (ttl_cache 30) 5)\<^sup>*\<^sup>* (shared_start [] 0) (stale_list t)"
proof -
  let ?o = "ttl_cache 30 :: (string, BlockListSnapshot, (string \<times> BlockListSnapshot \<times> datetime) list) cache_ops"
  let ?S = "shared_step ascii_lowercase ascii_lowercase ?o 5"
  let ?a = "shared_start [] 0 :: (string \<times> BlockListSnapshot \<times> datetime) list shared_list"
  let ?b = "?a\<lparr>sl_loads := [(0, load_snapshot [])]\<rparr>"
  let ?c = "?b\<lparr>sl_store := \<lparr>bl_rows = blocked_rows, bl_next_id = 2, bl_cache = []\<rparr>, sl_past := {(0, blocked_rows), (0, [])}\<rparr>"
  let ?d = "?c\<lparr>sl_now := 5, sl_past := {(5, blocked_rows), (0, blocked_rows), (0, [])}\<rparr>"
  let ?e = "\<lparr>sl_store = \<lparr>bl_rows = blocked_rows, bl_next_id = 2, bl_cache = [(CACHE_KEY, load_snapshot [], 35)]\<rparr>, sl_loads = [], sl_now = 5,
      sl_past = {(5, blocked_rows), (0, blocked_rows), (0, [])}\<rparr>"
  have "?S ?a ?b" using select_done [of ?o ?a "load_snapshot []"] by (simp add: shared_start_def bl_cached_def bl_load_def ttl_cache_def)
  moreover have "?S ?b ?c"
  proof -
    have "snd (add_entry ascii_lowercase ascii_lowercase ?o None (sl_now ?b) ''blocked_email'' ''a@x.org'' None (sl_store ?b)) =
        \<lparr>bl_rows = blocked_rows, bl_next_id = 2, bl_cache = []\<rparr>" by code_simp
    from entry_added [OF this [symmetric]] show ?thesis by (simp add: table_now_def shared_start_def)
  qed
  moreover have "?S ?c ?c" using list_invalidated [of _ _ ?o 5 ?c] by (simp add: shared_start_def bl_invalidate_def ttl_cache_def)
  moreover have "?S ?c ?d" using clock_advances [of ?c 5 5] by (simp add: table_now_def shared_start_def)
  moreover have "?S ?d ?e"
    using snapshot_kept [of ?d "[]" 0 "load_snapshot []" "[]" ascii_lowercase ascii_lowercase ?o 5] by (simp add: shared_start_def bl_keep_def ttl_cache_def)
  moreover have "?S ?e (stale_list t)" using clock_advances [of ?e t] assms by (simp add: table_now_def stale_list_def)
  ultimately show ?thesis by (meson converse_rtranclp_into_rtranclp rtranclp.rtrancl_refl)
qed

theorem block_list_staleness_bounded_witness:
  "is_ok (fst (bl_check ascii_lowercase (ttl_cache 30) None 34 ''a@x.org'' (sl_store (stale_list 34)))) \<and>
   \<not> is_ok (fst (bl_check ascii_lowercase (ttl_cache 30) None 35 ''a@x.org'' (sl_store (stale_list 35)))) \<and>
   (\<exists>t0 rows. (t0, rows) \<in> sl_past (stale_list 34) \<and> 34 < t0 + 5 + 30 \<and> filter_allows ascii_lowercase (filter_of_rows rows) ''a@x.org'')"
proof -
  let ?o = "ttl_cache 30 :: (string, BlockListSnapshot, (string \<times> BlockListSnapshot \<times> datetime) list) cache_ops"
  have ok: "is_ok (fst (bl_check ascii_lowercase ?o None 34 ''a@x.org'' (sl_store (stale_list 34))))" by code_simp
  have blocked: "\<not> is_ok (fst (bl_check ascii_lowercase ?o None 35 ''a@x.org'' (sl_store (stale_list 35))))" by code_simp
  have n: "sl_now (stale_list 34) = 34" "bl_cached ?o 34 (sl_store (stale_list 34)) = Some (load_snapshot [])"
    by (simp_all add: stale_list_def bl_cached_def ttl_cache_def)
  then have dec: "decides_by ?o (stale_list 34) (load_snapshot [])" by (simp add: decides_by_def)
  have c: "\<forall>t' k. cache_get ?o t' k [] = None" by (simp add: ttl_cache_def)
  from block_list_staleness_bounded [OF ttl_age.expiring_cache_axioms ascii.lowercase_axioms _ c stale_list_reachable dec, of "''a@x.org''" None]
    n ok blocked show ?thesis by auto
qed

end
