(* ===== verification/Service.thy ===== *)
theory Service
  imports Mcp_Props Api_Routes Runner Rate_Limiter
begin

text \<open>
  \<^verbatim>\<open>src/main.rs\<close>, \<^verbatim>\<open>src/config.rs\<close> and \<^verbatim>\<open>src/outbox_worker.rs\<close>: the configuration with its checks, the order in which
  the service is put together, the task that wakes the stale-row reaper, and the HTTP router with the MCP endpoint
  mounted beside the API. This theory starts from the decoded structure; how it is loaded is in \<^verbatim>\<open>Service_Main\<close>. What the outside answers during start-up (database, broker, listeners) is an argument; an error is
  reported by its outermost context.
\<close>

section \<open>config.rs\<close>

record DatabaseConfig =
  dc_url :: string
  dc_pool_size :: u32

record AmqpConfig =
  aq_url :: string
  aq_queue :: string
  aq_exchange :: string
  aq_routing_key :: string
  aq_max_retries :: u32
  aq_retry_base_ms :: u64
  aq_max_concurrency :: nat
  aq_max_rl_waits :: u32
  aq_max_recipients_per_event :: nat

record HttpConfig =
  hc_port :: u16
  hc_api_key :: "string option"
  hc_allow_unauthenticated :: bool

record SmtpAccountConfig =
  ac_host :: string
  ac_port :: u16
  ac_username :: string
  ac_password :: string
  ac_from_email :: string
  ac_from_name :: string
  ac_tls_mode :: "SmtpTlsMode option"
  ac_connection_timeout_ms :: u64
  ac_read_timeout_ms :: u64
  ac_write_timeout_ms :: u64
  ac_pool_size :: u32

text \<open>The variant \<^verbatim>\<open>Smtp\<close> has the fields of an account.\<close>

datatype MailerConfig = SmtpMailer SmtpAccountConfig | WebhookMailer string "string option"

record AppConfig =
  app_database :: DatabaseConfig
  app_amqp :: AmqpConfig
  app_mailer :: MailerConfig
  app_http :: HttpConfig
  app_metrics_port :: "u16 option"
  app_rate_limit :: RateLimitConfig
  app_filter :: FilterConfig
  app_template_cache_ttl_secs :: u64
  app_block_list_cache_ttl_secs :: u64
  app_stale_pending_timeout_secs :: u64
  app_stale_pending_reaper_interval_secs :: u64
  app_max_attachment_bytes :: nat
  app_shutdown_timeout_secs :: u64
  app_mcp_cors_origin :: "string option"
  app_sender_accounts :: "(string \<times> SmtpAccountConfig) list"

datatype startup_warning =
    RetryBudgetExceeded
  | EmptyCredentials string
  | BurstBelowRate
  | BurstFarAboveRate
  | AuthenticationDisabled
  | ReaperTimeoutZero
  | ReaperTimeoutLong
  | AttachmentMemory

text \<open>The sum of all retry delays, each as the consumer computes it.\<close>

definition max_total_delay_ms :: "u64 \<Rightarrow> u32 \<Rightarrow> u64" where
  "max_total_delay_ms base max_retries =
     sum_list (map (\<lambda>i. retry_delay_ms base (of_nat i)) [1..<Suc (unat max_retries)])"

fun check_accounts :: "(string \<times> SmtpAccountConfig) list \<Rightarrow> string + unit" where
  "check_accounts [] = Ok ()"
| "check_accounts ((name, acct) # rest) =
     (if ac_host acct = [] then Err (''sender_accounts.'' @ name @ ''.host must not be empty'')
      else if ac_from_email acct = [] then Err (''sender_accounts.'' @ name @ ''.from_email must not be empty'')
      else check_accounts rest)"

fun check_mailer :: "MailerConfig \<Rightarrow> string + unit" where
  "check_mailer (SmtpMailer m) =
     (if ac_host m = [] then Err ''mailer.host must not be empty''
      else if ac_from_email m = [] then Err ''mailer.from_email must not be empty''
      else Ok ())"
| "check_mailer (WebhookMailer url _) =
     (if url = [] then Err ''mailer.url must not be empty''
      else if \<not> starts_with ''http://'' url \<and> \<not> starts_with ''https://'' url
      then Err ''mailer.url must start with http:// or https://''
      else Ok ())"

definition first_retry_ms :: "u64 \<Rightarrow> u64" where
  "first_retry_ms base = min (saturating_mul_u64 base 2) MAX_RETRY_DELAY_MS"

text \<open>The result is the warning the check logs, if any.\<close>

definition app_config_validate :: "AppConfig \<Rightarrow> string + startup_warning list" where
  "app_config_validate self =
     (let amqp = app_amqp self; base = aq_retry_base_ms amqp in
      if dc_url (app_database self) = [] then Err ''database.url must not be empty''
      else if aq_url amqp = [] then Err ''amqp.url must not be empty''
      else
        and_then (check_mailer (app_mailer self)) (\<lambda>_.
        if aq_max_concurrency amqp = 0 \<or> aq_max_concurrency amqp > 1000
        then Err (''amqp.max_concurrency must be between 1 and 1000, got '' @ nat_to_string (aq_max_concurrency amqp))
        else if aq_max_recipients_per_event amqp = 0 then Err ''amqp.max_recipients_per_event must be at least 1''
        else if first_retry_ms base \<ge> MAX_RETRY_DELAY_MS
        then Err (''amqp.retry_base_ms ('' @ nat_to_string (unat base) @ '') is so large that the first retry delay (''
               @ nat_to_string (unat (first_retry_ms base))
               @ '' ms) already hits the 30-minute cap; max_retries has no practical effect. Reduce retry_base_ms or keep it ''
               @ [CHR 0xE2, CHR 0x89, CHR 0xA4] @ '' 900_000 ms.'')
        else
          and_then (check_accounts (app_sender_accounts self)) (\<lambda>_.
            Ok (if max_total_delay_ms base (aq_max_retries amqp) > MAX_RETRY_DELAY_MS then [RetryBudgetExceeded] else []))))"

section \<open>main.rs: parts of the start-up\<close>

definition account_smtp :: "SmtpAccountConfig \<Rightarrow> SmtpConfig" where
  "account_smtp a =
     \<lparr>sc_host = ac_host a, sc_port = ac_port a, sc_username = ac_username a, sc_password = ac_password a,
      sc_from_email = ac_from_email a, sc_from_name = ac_from_name a, sc_tls_mode = ac_tls_mode a,
      sc_connection_timeout_ms = ac_connection_timeout_ms a, sc_read_timeout_ms = ac_read_timeout_ms a,
      sc_write_timeout_ms = ac_write_timeout_ms a, sc_pool_size = ac_pool_size a\<rparr>"

datatype service_sender = SmtpBackend SmtpSender | WebhookBackend WebhookSender

fun build_sender :: "(SmtpTlsMode \<Rightarrow> string \<Rightarrow> string option) \<Rightarrow> MailerConfig \<Rightarrow> string + service_sender" where
  "build_sender relay_error (SmtpMailer m) =
     (case smtp_sender_new relay_error (account_smtp m) of
        Inl _ \<Rightarrow> Err ''Failed to build SMTP sender''
      | Inr s \<Rightarrow> Ok (SmtpBackend s))"
| "build_sender relay_error (WebhookMailer url auth_token) = Ok (WebhookBackend \<lparr>wh_url = url, wh_auth_token = auth_token\<rparr>)"

fun register_accounts ::
  "(SmtpTlsMode \<Rightarrow> string \<Rightarrow> string option) \<Rightarrow> (string \<times> SmtpAccountConfig) list \<Rightarrow> SmtpSender SenderRegistry \<Rightarrow>
   string + SmtpSender SenderRegistry" where
  "register_accounts relay_error [] reg = Ok reg"
| "register_accounts relay_error ((name, acct) # rest) reg =
     (case smtp_sender_new relay_error (account_smtp acct) of
        Inl _ \<Rightarrow> Err (''Failed to build SMTP sender for account '' @ quote name)
      | Inr s \<Rightarrow> register_accounts relay_error rest (registry_register name s reg))"

definition account_warnings :: "(string \<times> SmtpAccountConfig) list \<Rightarrow> startup_warning list" where
  "account_warnings accts =
     map (EmptyCredentials \<circ> fst) (filter (\<lambda>(name, a). ac_username a = [] \<or> ac_password a = []) accts)"

definition BURST_RATIO_WARN :: u32 where
  "BURST_RATIO_WARN = 5"

definition rate_limit_warnings :: "RateLimitConfig \<Rightarrow> startup_warning list" where
  "rate_limit_warnings c =
     (if is_disabled (limiter_new c) then []
      else (if rl_burst_size c < rl_emails_per_second c then [BurstBelowRate] else []) @
           (if rl_emails_per_second c > 0 \<and> rl_burst_size c > saturating_mul_u32 (rl_emails_per_second c) BURST_RATIO_WARN
            then [BurstFarAboveRate] else []))"

text \<open>The guard on the API key.\<close>

definition check_api_key :: "HttpConfig \<Rightarrow> string + startup_warning list" where
  "check_api_key http =
     (case hc_api_key http of
        Some _ \<Rightarrow> Ok []
      | None \<Rightarrow>
          if hc_allow_unauthenticated http then Ok [AuthenticationDisabled]
          else Err ''HTTP API has no api_key configured and allow_unauthenticated is not set. Set AN__HTTP__API_KEY to a secret bearer token, or set AN__HTTP__ALLOW_UNAUTHENTICATED=true to explicitly opt in to running without authentication (dev/test only).'')"

definition REAPER_WARN_THRESHOLD_SECS :: u64 where
  "REAPER_WARN_THRESHOLD_SECS = 24 * 3600"

definition reaper_warnings :: "u64 \<Rightarrow> startup_warning list" where
  "reaper_warnings reaper_timeout =
     (if reaper_timeout = 0 then [ReaperTimeoutZero]
      else if reaper_timeout > REAPER_WARN_THRESHOLD_SECS then [ReaperTimeoutLong]
      else [])"

definition service_consumer :: "AppConfig \<Rightarrow> ConsumerConfig" where
  "service_consumer cfg =
     (let amqp = app_amqp cfg in
      \<lparr>cf_amqp_url = aq_url amqp, cf_queue = aq_queue amqp, cf_exchange = aq_exchange amqp,
       cf_routing_key = aq_routing_key amqp, cf_max_retries = aq_max_retries amqp,
       cf_retry_base_ms = aq_retry_base_ms amqp, cf_max_concurrency = aq_max_concurrency amqp,
       cf_max_attachment_bytes = app_max_attachment_bytes cfg, cf_max_rl_waits = aq_max_rl_waits amqp,
       cf_max_recipients_per_event = aq_max_recipients_per_event amqp\<rparr>)"

definition ATTACHMENT_MEMORY_WARN_BYTES :: nat where
  "ATTACHMENT_MEMORY_WARN_BYTES = 512 * 1024 * 1024"

text \<open>The product saturates at the largest \<^verbatim>\<open>usize\<close> of a 64-bit target.\<close>

definition memory_warnings :: "AppConfig \<Rightarrow> startup_warning list" where
  "memory_warnings cfg =
     (if min (aq_max_concurrency (app_amqp cfg) * app_max_attachment_bytes cfg) (2 ^ 64 - 1) > ATTACHMENT_MEMORY_WARN_BYTES
      then [AttachmentMemory] else [])"

section \<open>main.rs: the start-up\<close>

record startup_env =
  su_metrics_ok :: bool
  su_database_ok :: bool
  su_migrations_ok :: bool
  su_http_client_ok :: bool
  su_relay_error :: "SmtpTlsMode \<Rightarrow> string \<Rightarrow> string option"
  su_publisher :: open_replies
  su_lower :: "string \<Rightarrow> string"
  su_mcp_feature :: bool
  su_header_ok :: "string \<Rightarrow> bool"

record service =
  sv_api_key :: "string option"
  sv_filter :: RecipientFilter
  sv_max_recipients :: nat
  sv_publisher :: Publisher
  sv_sender :: service_sender
  sv_sender_registry :: "SmtpSender SenderRegistry"
  sv_rate_limiter :: MailRateLimiter
  sv_template_ttl_secs :: u64
  sv_block_list_ttl_secs :: u64
  sv_mcp :: "McpConfig option"
  sv_reaper_timeout :: u64
  sv_reaper_interval :: u64
  sv_consumer :: ConsumerConfig
  sv_warnings :: "startup_warning list"

text \<open>\<^verbatim>\<open>Publisher::connect\<close>.\<close>

definition publisher_connect :: "open_replies \<Rightarrow> string + Publisher" where
  "publisher_connect r = and_then (open_channel r) (\<lambda>_. Ok \<lparr>pb_inner = True, pb_sent = []\<rparr>)"

definition step_ok :: "bool \<Rightarrow> string \<Rightarrow> string + unit" where
  "step_ok ok context_text = (if ok then Ok () else Err context_text)"

definition with_context :: "string \<Rightarrow> string + 'a \<Rightarrow> string + 'a" where
  "with_context text r = (case r of Inl _ \<Rightarrow> Err text | Inr a \<Rightarrow> Ok a)"

datatype cors = AnyOrigin | OneOrigin string

text \<open>An origin that is no header value makes the process panic, here as an error of the start-up.\<close>

definition mcp_cors :: "(string \<Rightarrow> bool) \<Rightarrow> string option \<Rightarrow> string + cors option" where
  "mcp_cors header_ok origin =
     (case origin of
        None \<Rightarrow> Ok None
      | Some o' \<Rightarrow> if o' = ''*'' then Ok (Some AnyOrigin) else if header_ok o' then Ok (Some (OneOrigin o')) else Err ''invalid CORS origin'')"

text \<open>From the loaded configuration and the warnings of its check to the running parts.\<close>

definition build_service :: "startup_env \<Rightarrow> AppConfig \<Rightarrow> startup_warning list \<Rightarrow> string + service" where
  "build_service env cfg w1 =
     and_then (step_ok (su_metrics_ok env) ''Failed to install Prometheus metrics exporter'') (\<lambda>_.
     and_then (step_ok (su_database_ok env) ''Failed to connect to PostgreSQL'') (\<lambda>_.
     and_then (step_ok (su_migrations_ok env) ''Failed to run migrations'') (\<lambda>_.
     and_then (step_ok (su_http_client_ok env) ''Failed to build shared HTTP client'') (\<lambda>_.
     and_then (build_sender (su_relay_error env) (app_mailer cfg)) (\<lambda>sender.
     and_then (register_accounts (su_relay_error env) (app_sender_accounts cfg) registry_new) (\<lambda>registry.
     and_then (with_context ''Failed to create API publisher'' (publisher_connect (su_publisher env))) (\<lambda>publisher.
     and_then (check_api_key (app_http cfg)) (\<lambda>w2.
     and_then (if su_mcp_feature env then mcp_cors (su_header_ok env) (app_mcp_cors_origin cfg) else Ok None) (\<lambda>_.
     let consumer = service_consumer cfg; amqp = app_amqp cfg in
     and_then (with_context ''Invalid consumer config'' (consumer_config_validate consumer)) (\<lambda>_.
       Ok \<lparr>sv_api_key = hc_api_key (app_http cfg), sv_filter = filter_new (su_lower env) (app_filter cfg),
           sv_max_recipients = aq_max_recipients_per_event amqp, sv_publisher = publisher,
           sv_sender = sender, sv_sender_registry = registry, sv_rate_limiter = limiter_new (app_rate_limit cfg),
           sv_template_ttl_secs = app_template_cache_ttl_secs cfg, sv_block_list_ttl_secs = app_block_list_cache_ttl_secs cfg,
           sv_mcp = (if su_mcp_feature env
                     then Some (mcp_config_new (dc_url (app_database cfg)) (aq_url amqp) (aq_exchange amqp) (aq_routing_key amqp))
                     else None),
           sv_reaper_timeout = app_stale_pending_timeout_secs cfg,
           sv_reaper_interval = app_stale_pending_reaper_interval_secs cfg, sv_consumer = consumer,
           sv_warnings = w1 @ account_warnings (app_sender_accounts cfg) @ rate_limit_warnings (app_rate_limit cfg) @ w2
             @ reaper_warnings (app_stale_pending_timeout_secs cfg) @ memory_warnings cfg\<rparr>))))))))))"

definition start_service :: "startup_env \<Rightarrow> AppConfig \<Rightarrow> string + service" where
  "start_service env cfg =
     and_then (with_context ''Failed to load config'' (app_config_validate cfg)) (build_service env cfg)"

section \<open>main.rs: the stale-row reaper task\<close>

text \<open>\<^verbatim>\<open>tokio::time::interval\<close> panics on a period of zero, which ends the task. An event is whether the
  token fires (true) or the interval ticks; \<open>None\<close> is that the events are too few for the loop to end.\<close>

datatype reaper_end = ReaperPanicked | ReaperStopped log_db

fun reaper_loop :: "(nat \<Rightarrow> db_fault) \<Rightarrow> (nat \<Rightarrow> datetime) \<Rightarrow> u64 \<Rightarrow> bool list \<Rightarrow> nat \<Rightarrow> log_db \<Rightarrow> log_db option" where
  "reaper_loop fault now timeout [] n db = None"
| "reaper_loop fault now timeout (cancelled # events) n db =
     (if cancelled then Some db
      else reaper_loop fault now timeout events (Suc n) (snd (reap_stale_pending (fault n) (now n) timeout db)))"

definition stale_reaper_task ::
  "(nat \<Rightarrow> db_fault) \<Rightarrow> (nat \<Rightarrow> datetime) \<Rightarrow> service \<Rightarrow> bool list \<Rightarrow> log_db \<Rightarrow> reaper_end option" where
  "stale_reaper_task fault now sv events db =
     (if sv_reaper_interval sv = 0 then Some ReaperPanicked
      else map_option ReaperStopped (reaper_loop fault now (sv_reaper_timeout sv) events 0 db))"

section \<open>main.rs: the router with the MCP endpoint\<close>

datatype http_request = ApiCall api_request | McpCall string json

datatype http_reply = ApiReply response | McpReply "mcp_error + tool_content" | NoRoute

text \<open>API and MCP server use one database, with caches of their own.\<close>

definition mcp_sees :: "('t, 'b) ApiState \<Rightarrow> ('u, 'c) NotifyServer \<Rightarrow> ('u, 'c) NotifyServer" where
  "mcp_sees api m =
     m\<lparr>ns_log := as_log api, ns_template_store := (ns_template_store m)\<lparr>ts_rows := ts_rows (as_template_store api)\<rparr>,
       ns_block_list_store := (ns_block_list_store m)\<lparr>bl_rows := bl_rows (as_block_list_store api),
         bl_next_id := bl_next_id (as_block_list_store api)\<rparr>\<rparr>"

definition api_sees :: "('u, 'c) NotifyServer \<Rightarrow> ('t, 'b) ApiState \<Rightarrow> ('t, 'b) ApiState" where
  "api_sees m api =
     api\<lparr>as_log := ns_log m, as_template_store := (as_template_store api)\<lparr>ts_rows := ts_rows (ns_template_store m)\<rparr>,
         as_block_list_store := (as_block_list_store api)\<lparr>bl_rows := bl_rows (ns_block_list_store m),
           bl_next_id := bl_next_id (ns_block_list_store m)\<rparr>\<rparr>"

fun service_router ::
  "router_env \<Rightarrow> ('t, 'b) api_env \<Rightarrow> ('u, 'c) mcp_env \<Rightarrow> string option \<Rightarrow> http_request \<Rightarrow>
   ('t, 'b) ApiState \<times> ('u, 'c) NotifyServer option \<Rightarrow> http_reply \<times> ('t, 'b) ApiState \<times> ('u, 'c) NotifyServer option" where
  "service_router re env menv authorization (ApiCall req) (api, mcp) =
     (case build_router re env authorization req api of
        (resp, api) \<Rightarrow> (ApiReply resp, api, mcp))"
| "service_router re env menv authorization (McpCall name args) (api, None) = (NoRoute, api, None)"
| "service_router re env menv authorization (McpCall name args) (api, Some m) =
     (case call_tool menv name args (mcp_sees api m) of
        (r, m) \<Rightarrow> (McpReply r, api_sees m api, Some m))"

section \<open>outbox\_worker.rs\<close>

text \<open>The variables as the \<^verbatim>\<open>config\<close> crate decodes them; \<open>None\<close> is an absent one.\<close>

record OutboxVars =
  ov_database_url :: "string option"
  ov_amqp_url :: "string option"
  ov_exchange :: "string option"
  ov_routing_key :: "string option"
  ov_poll_interval_ms :: "u64 option"
  ov_batch_size :: "int option"
  ov_pool_size :: "u32 option"
  ov_stale_lock_timeout_secs :: "u64 option"
  ov_max_publish_failures :: "int option"

text \<open>Loading with its defaults and checks, and the worker's configuration built from it.\<close>

definition outbox_env_load :: "OutboxVars \<Rightarrow> string + OutboxConfig" where
  "outbox_env_load v =
     (case (ov_database_url v, ov_amqp_url v) of
        (Some db, Some amqp) \<Rightarrow>
          if db = [] then Err ''AN__OUTBOX__DATABASE_URL must not be empty''
          else if amqp = [] then Err ''AN__OUTBOX__AMQP_URL must not be empty''
          else Ok \<lparr>oc_database_url = db, oc_amqp_url = amqp, oc_exchange = or_default ''anvil-notify'' (ov_exchange v),
                   oc_routing_key = or_default ''email.requested'' (ov_routing_key v),
                   oc_poll_interval_ms = or_default 1000 (ov_poll_interval_ms v), oc_batch_size = or_default 50 (ov_batch_size v),
                   oc_pool_size = or_default 2 (ov_pool_size v),
                   oc_stale_lock_timeout_secs = or_default 300 (ov_stale_lock_timeout_secs v),
                   oc_max_publish_failures = or_default 5 (ov_max_publish_failures v)\<rparr>
      | (None, _) \<Rightarrow> Err ''missing field `database_url`''
      | (Some _, None) \<Rightarrow> Err ''missing field `amqp_url`'')"

end
