(* ===== verification/Service_Props.thy ===== *)
theory Service_Props
  imports Service Delivery_Props Api_Props
begin

text \<open>
  The service as it is put together: what a successful start-up guarantees to the consumer and the API, that the
  retry budget is computed without overflow, what the stale-row reaper task does, and that the MCP endpoint
  is open to requests without a token.
\<close>

section \<open>Retry budget\<close>

lemma unat_sum_list:
  fixes ws :: "u64 list"
  shows "sum_list (map unat ws) < 2 ^ 64 \<Longrightarrow> unat (sum_list ws) = sum_list (map unat ws)"
proof (induction ws)
  case (Cons w ws)
  then have "unat (sum_list ws) = sum_list (map unat ws)" by simp
  with Cons.prems show ?case by (simp add: unat_word_ariths)
qed simp

lemma max_total_delay_exact:
  "unat (max_total_delay_ms base n) = (\<Sum>i \<leftarrow> [1..<Suc (unat n)]. capped_doubling (unat base) 10 1800000 i)"
proof -
  let ?is = "[1..<Suc (unat n)]"
  have delay: "map (\<lambda>i. unat (retry_delay_ms base (of_nat i))) ?is = map (capped_doubling (unat base) 10 1800000) ?is"
  proof (rule map_cong [OF refl])
    fix i assume "i \<in> set ?is"
    then have "i < 2 ^ 32" using unsigned_less [of n, where ?'a = nat] by auto
    then have "unat (of_nat i :: u32) = i" by (simp add: unsigned_of_nat take_bit_eq_mod)
    then show "unat (retry_delay_ms base (of_nat i)) = capped_doubling (unat base) 10 1800000 i"
      by (simp add: retry_delay_doubling)
  qed
  have "sum_list (map (capped_doubling (unat base) 10 1800000) xs) \<le> length xs * 1800000" for xs :: "nat list"
    by (induction xs) (auto simp: capped_doubling_def)
  from this [of ?is] have "sum_list (map (capped_doubling (unat base) 10 1800000) ?is) \<le> unat n * 1800000"
    by (simp only: length_upt diff_Suc_1 One_nat_def)
  moreover have "unat n * 1800000 < 2 ^ 64" using unsigned_less [of n, where ?'a = nat] by simp
  ultimately have bound: "sum_list (map (capped_doubling (unat base) 10 1800000) ?is) < 2 ^ 64" by (rule order.strict_trans1)
  have "map unat (map (\<lambda>i. retry_delay_ms base (of_nat i)) ?is) = map (capped_doubling (unat base) 10 1800000) ?is"
    unfolding map_map comp_def by (rule delay)
  with bound unat_sum_list [of "map (\<lambda>i. retry_delay_ms base (of_nat i)) ?is"] show ?thesis
    unfolding max_total_delay_ms_def by (simp only:)
qed

section \<open>Accounts\<close>

lemma register_accounts_keep:
  "register_accounts re accts reg = Inr reg' \<Longrightarrow> name \<notin> fst ` set accts \<Longrightarrow>
   registry_resolve reg' (Some name) = registry_resolve reg (Some name)"
  by (induction re accts reg rule: register_accounts.induct) (auto simp: registry_resolve_register split: sum.splits)

lemma register_accounts_resolve:
  "register_accounts re accts reg = Inr reg' \<Longrightarrow> distinct (map fst accts) \<Longrightarrow> (name, a) \<in> set accts \<Longrightarrow>
   \<exists>s. smtp_sender_new re (account_smtp a) = Inr s \<and> registry_resolve reg' (Some name) = Some s"
proof (induction re accts reg rule: register_accounts.induct)
  case (2 re n acct rest reg)
  then obtain s where s: "smtp_sender_new re (account_smtp acct) = Inr s"
    "register_accounts re rest (registry_register n s reg) = Inr reg'" by (auto split: sum.splits)
  show ?case
  proof (cases "(name, a) = (n, acct)")
    case True
    with s 2(3) register_accounts_keep [OF s(2), of n] show ?thesis by (simp add: registry_resolve_register)
  next
    case False
    with 2 s show ?thesis by auto
  qed
qed simp

lemma smtp_sender_new_identity:
  "smtp_sender_new re c = Inr s \<Longrightarrow>
   ss_from_email s = sc_from_email c \<and> st_host (ss_transport s) = sc_host c \<and>
   st_credentials (ss_transport s) = (if sc_username c \<noteq> [] then Some (sc_username c, sc_password c) else None)"
  by (auto simp: smtp_sender_new_def Let_def split: SmtpTlsMode.splits option.splits)

section \<open>Start-up\<close>

lemma first_retry_unat: "unat (first_retry_ms base) = min (2 * unat base) 1800000"
  by (simp add: first_retry_ms_def unat_min_word saturating_mul_u64_unat MAX_RETRY_DELAY_MS_def)

lemma validate_Ok:
  assumes "app_config_validate cfg = Inr w"
  shows "0 < aq_max_concurrency (app_amqp cfg) \<and> aq_max_concurrency (app_amqp cfg) \<le> 1000 \<and>
    0 < aq_max_recipients_per_event (app_amqp cfg) \<and> unat (aq_retry_base_ms (app_amqp cfg)) < 900000 \<and>
    (RetryBudgetExceeded \<in> set w \<longleftrightarrow>
       1800000 < (\<Sum>i \<leftarrow> [1..<Suc (unat (aq_max_retries (app_amqp cfg)))]. capped_doubling (unat (aq_retry_base_ms (app_amqp cfg))) 10 1800000 i))"
proof -
  have "first_retry_ms (aq_retry_base_ms (app_amqp cfg)) < MAX_RETRY_DELAY_MS"
    and w: "w = (if max_total_delay_ms (aq_retry_base_ms (app_amqp cfg)) (aq_max_retries (app_amqp cfg)) > MAX_RETRY_DELAY_MS
      then [RetryBudgetExceeded] else [])"
    and rest: "0 < aq_max_concurrency (app_amqp cfg)" "aq_max_concurrency (app_amqp cfg) \<le> 1000"
      "0 < aq_max_recipients_per_event (app_amqp cfg)"
    using assms by (auto simp: app_config_validate_def Let_def and_then_Inr_iff split: if_splits)
  then have "unat (aq_retry_base_ms (app_amqp cfg)) < 900000"
    by (simp add: word_less_nat_alt first_retry_unat MAX_RETRY_DELAY_MS_def min_def split: if_splits)
  moreover have "RetryBudgetExceeded \<in> set w \<longleftrightarrow>
    1800000 < (\<Sum>i \<leftarrow> [1..<Suc (unat (aq_max_retries (app_amqp cfg)))]. capped_doubling (unat (aq_retry_base_ms (app_amqp cfg))) 10 1800000 i)"
    by (simp add: w word_less_nat_alt max_total_delay_exact MAX_RETRY_DELAY_MS_def)
  ultimately show ?thesis using rest by blast
qed


text \<open>
  What it means that a service is configured soundly: it has an API key unless running without one was allowed explicitly; the consumer's configuration
  passes its own check (so that error is never reported), admits between 1 and 1000 tasks and has the recipient limit of the API;
  the first retry delay stays below the 30-minute ceiling, and the warning about the retry budget appears exactly when the
  delays really add up to more than 30 minutes, since the sum cannot overflow; every named sender account is resolved to a
  sender with the host, credentials and address of that account and no other.
\<close>

definition service_sound :: "AppConfig \<Rightarrow> service \<Rightarrow> bool" where
  "service_sound cfg sv \<longleftrightarrow>
    (sv_api_key sv \<noteq> None \<or> hc_allow_unauthenticated (app_http cfg)) \<and>
    consumer_config_validate (sv_consumer sv) = Ok () \<and>
    0 < cf_max_concurrency (sv_consumer sv) \<and> cf_max_concurrency (sv_consumer sv) \<le> 1000 \<and>
    cf_max_recipients_per_event (sv_consumer sv) = sv_max_recipients sv \<and>
    unat (retry_delay_ms (cf_retry_base_ms (sv_consumer sv)) 1) < 1800000 \<and>
    (RetryBudgetExceeded \<in> set (sv_warnings sv) \<longleftrightarrow>
       1800000 < (\<Sum>i \<leftarrow> [1..<Suc (unat (cf_max_retries (sv_consumer sv)))].
                    min (unat (cf_retry_base_ms (sv_consumer sv)) * 2 ^ min i 10) 1800000)) \<and>
    (\<forall>(name, a) \<in> set (app_sender_accounts cfg). \<exists>s. registry_resolve (sv_sender_registry sv) (Some name) = Some s \<and>
       ss_from_email s = ac_from_email a \<and> st_host (ss_transport s) = ac_host a \<and>
       st_credentials (ss_transport s) = (if ac_username a \<noteq> [] then Some (ac_username a, ac_password a) else None))"

lemma started_service_sound:
  assumes "start_service env cfg = Ok sv" "distinct (map fst (app_sender_accounts cfg))"
  shows "service_sound cfg sv"
proof -
  let ?amqp = "app_amqp cfg"
  from assms(1) obtain w1 w2 reg pub sender where
    v: "app_config_validate cfg = Inr w1" and k: "check_api_key (app_http cfg) = Inr w2"
    and reg: "register_accounts (su_relay_error env) (app_sender_accounts cfg) registry_new = Inr reg"
    and c: "consumer_config_validate (service_consumer cfg) = Inr ()"
    and sv: "sv_consumer sv = service_consumer cfg" "sv_api_key sv = hc_api_key (app_http cfg)" "sv_sender_registry sv = reg"
      "sv_max_recipients sv = aq_max_recipients_per_event ?amqp"
      "sv_warnings sv = w1 @ account_warnings (app_sender_accounts cfg) @ rate_limit_warnings (app_rate_limit cfg) @ w2
             @ reaper_warnings (app_stale_pending_timeout_secs cfg) @ memory_warnings cfg"
    by (auto simp: start_service_def build_service_def and_then_Inr_iff with_context_def Let_def split: sum.splits)
  note V = validate_Ok [OF v]
  have "RetryBudgetExceeded \<notin> set (account_warnings (app_sender_accounts cfg) @ rate_limit_warnings (app_rate_limit cfg) @ w2
             @ reaper_warnings (app_stale_pending_timeout_secs cfg) @ memory_warnings cfg)"
    using k by (auto simp: account_warnings_def rate_limit_warnings_def check_api_key_def reaper_warnings_def memory_warnings_def
        split: option.splits if_splits)
  then have w: "RetryBudgetExceeded \<in> set (sv_warnings sv) \<longleftrightarrow> RetryBudgetExceeded \<in> set w1" by (simp add: sv)
  have key: "sv_api_key sv \<noteq> None \<or> hc_allow_unauthenticated (app_http cfg)"
    using k by (auto simp: sv check_api_key_def split: option.splits if_splits)
  have delay: "unat (retry_delay_ms (aq_retry_base_ms ?amqp) 1) < 1800000"
    using V by (simp add: retry_delay_doubling capped_doubling_def min_def)
  have accts: "\<exists>s. registry_resolve reg (Some name) = Some s \<and> ss_from_email s = ac_from_email a \<and> st_host (ss_transport s) = ac_host a \<and>
       st_credentials (ss_transport s) = (if ac_username a \<noteq> [] then Some (ac_username a, ac_password a) else None)"
    if "(name, a) \<in> set (app_sender_accounts cfg)" for name a
    using register_accounts_resolve [OF reg assms(2) that] smtp_sender_new_identity [of "su_relay_error env" "account_smtp a"]
    by (auto simp: account_smtp_def)
  have cons: "cf_max_concurrency (sv_consumer sv) = aq_max_concurrency ?amqp" "cf_retry_base_ms (sv_consumer sv) = aq_retry_base_ms ?amqp"
    "cf_max_retries (sv_consumer sv) = aq_max_retries ?amqp" "cf_max_recipients_per_event (sv_consumer sv) = sv_max_recipients sv"
    by (simp_all add: sv service_consumer_def Let_def)
  have "\<forall>(name, a) \<in> set (app_sender_accounts cfg). \<exists>s. registry_resolve (sv_sender_registry sv) (Some name) = Some s \<and>
       ss_from_email s = ac_from_email a \<and> st_host (ss_transport s) = ac_host a \<and>
       st_credentials (ss_transport s) = (if ac_username a \<noteq> [] then Some (ac_username a, ac_password a) else None)"
    unfolding sv(3) using accts by blast
  moreover have "consumer_config_validate (sv_consumer sv) = Ok ()" using c by (simp add: sv)
  ultimately show ?thesis
    unfolding service_sound_def cons w capped_doubling_def [symmetric] using key delay V by blast
qed

definition sample_account :: SmtpAccountConfig where
  "sample_account = \<lparr>ac_host = ''smtp'', ac_port = 587, ac_username = ''u'', ac_password = ''p'', ac_from_email = ''a@x.org'', ac_from_name = ''A'',
     ac_tls_mode = None, ac_connection_timeout_ms = 5000, ac_read_timeout_ms = 10000, ac_write_timeout_ms = 10000, ac_pool_size = 5\<rparr>"

definition sample_app_config :: AppConfig where
  "sample_app_config =
     \<lparr>app_database = \<lparr>dc_url = ''db'', dc_pool_size = 10\<rparr>,
      app_amqp = \<lparr>aq_url = ''amqp'', aq_queue = ''q'', aq_exchange = ''x'', aq_routing_key = ''k'', aq_max_retries = 3, aq_retry_base_ms = 1000,
        aq_max_concurrency = 10, aq_max_rl_waits = 5, aq_max_recipients_per_event = 500\<rparr>,
      app_mailer = WebhookMailer ''https://h'' None,
      app_http = \<lparr>hc_port = 8080, hc_api_key = Some ''key'', hc_allow_unauthenticated = False\<rparr>, app_metrics_port = None,
      app_rate_limit = rate_limit_default, app_filter = \<lparr>blocked_emails = [], blocked_domains = [], allowed_emails = [], allowed_domains = []\<rparr>,
      app_template_cache_ttl_secs = 300, app_block_list_cache_ttl_secs = 30, app_stale_pending_timeout_secs = 600,
      app_stale_pending_reaper_interval_secs = 300, app_max_attachment_bytes = 10485760, app_shutdown_timeout_secs = 30,
      app_mcp_cors_origin = None, app_sender_accounts = [(''shop'', sample_account)]\<rparr>"

definition sample_startup :: startup_env where
  "sample_startup = \<lparr>su_metrics_ok = True, su_database_ok = True, su_migrations_ok = True, su_http_client_ok = True, su_relay_error = (\<lambda>_ _. None),
     su_publisher = \<lparr>op_connect = True, op_create_channel = True, op_confirm_select = True, op_exchange_declare = True\<rparr>,
     su_lower = ascii_lowercase, su_mcp_feature = True, su_header_ok = (\<lambda>_. True)\<rparr>"

lemmas sample_startup_defs = sample_startup_def sample_app_config_def sample_account_def start_service_def build_service_def app_config_validate_def
  with_context_def step_ok_def publisher_connect_def open_channel_def check_api_key_def service_consumer_def consumer_config_validate_def
  first_retry_ms_def saturating_mul_u64_def MAX_RETRY_DELAY_MS_def smtp_sender_new_def account_smtp_def effective_tls_mode_def mcp_cors_def

section \<open>The reaper task\<close>

lemma reaper_loop_steps: "reaper_loop fault now timeout events n db = Some db' \<Longrightarrow> operator_step\<^sup>*\<^sup>* db db'"
proof (induction events arbitrary: n db)
  case (Cons c events)
  have "operator_step db (snd (reap_stale_pending (fault n) (now n) timeout db))" by (rule step_reap)
  with Cons show ?case by (auto split: if_splits intro: converse_rtranclp_into_rtranclp)
qed simp

text \<open>An interval of zero passes every check of the configuration, and then no row is ever reaped.\<close>

lemma reaper_dies_at_zero_interval:
  "sv_reaper_interval sv = 0 \<Longrightarrow> stale_reaper_task fault now sv events db = Some ReaperPanicked"
  by (simp add: stale_reaper_task_def)

lemma zero_interval_accepted:
  "is_ok (start_service sample_startup (sample_app_config\<lparr>app_stale_pending_reaper_interval_secs := 0\<rparr>))"
  by (simp add: sample_startup_defs Let_def)

lemma outbox_env_defaults:
  "outbox_env_load \<lparr>ov_database_url = Some (oc_database_url outbox_config_default), ov_amqp_url = Some (oc_amqp_url outbox_config_default),
     ov_exchange = None, ov_routing_key = None, ov_poll_interval_ms = None, ov_batch_size = None, ov_pool_size = None,
     ov_stale_lock_timeout_secs = None, ov_max_publish_failures = None\<rparr> = Ok outbox_config_default"
  by (simp add: outbox_env_load_def outbox_config_default_def or_default_def)


section \<open>The MCP endpoint and the token\<close>

definition holds_template :: "UpsertTemplateArgs \<Rightarrow> TemplateRow \<Rightarrow> bool" where
  "holds_template a r \<longleftrightarrow> template_key (uta_event_type a) (uta_channel a) r \<and> tr_subject r = uta_subject a \<and>
     tr_body_html r = uta_body_html a \<and> tr_body_text r = uta_body_text a \<and> tr_active r = uta_active a"

lemma upsert_holds:
  assumes "\<forall>r \<in> set (ts_rows t). tr_version r < int4_max"
  shows "\<exists>v i t'. template_upsert ops None now (uta_event_type a) (uta_channel a) (uta_subject a) (uta_body_html a) (uta_body_text a)
    (uta_active a) t = (Ok (v, i), t') \<and> (\<exists>r \<in> set (ts_rows t'). holds_template a r)"
proof (cases "find (template_key (uta_event_type a) (uta_channel a)) (ts_rows t)")
  case None
  then show ?thesis by (auto simp: template_upsert_defs holds_template_def template_key_def)
next
  case (Some r)
  then have r: "r \<in> set (ts_rows t)" "template_key (uta_event_type a) (uta_channel a) r" by (auto simp: find_Some_iff)
  let ?w = "template_write now (uta_subject a) (uta_body_html a) (uta_body_text a) (uta_active a) r"
  have "tr_version r < int4_max" using assms r(1) by blast
  then have w: "holds_template a ?w" "\<not> int4_max < tr_version ?w"
    using r(2) by (simp_all add: holds_template_def template_write_def template_key_def Let_def)
  have "?w \<in> (\<lambda>x. if template_key (uta_event_type a) (uta_channel a) x then ?w else x) ` set (ts_rows t)"
    using r by (intro image_eqI [of _ _ r]) simp_all
  with w show ?thesis by (auto simp: template_upsert_defs Some Let_def)
qed

text \<open>
  C11. The token does not protect the MCP endpoint: the router mounts it beside the protected routes, so with an API key configured, a
  client without any token that calls the template tool replaces the content of an email template in the table the
  consumer renders from, while the same client is refused with 401 by the template endpoint of the API.
\<close>

theorem mcp_needs_no_token:
  assumes "as_api_key api = Some key" "dec_upsert_template_args args = Ok a"
    and "trim (uta_event_type a) \<noteq> []" "trim (uta_subject a) \<noteq> []"
    and "me_fault menv (ns_tick m) = None" "\<forall>r \<in> set (ts_rows (as_template_store api)). tr_version r < int4_max"
  shows "(\<exists>reply api' m'. service_router re env menv None (McpCall ''upsert_template'' args) (api, Some m) = (McpReply (Ok reply), api', Some m') \<and>
      (\<exists>r \<in> set (ts_rows (as_template_store api')). holds_template a r)) \<and>
    (\<forall>body. \<exists>b. service_router re env menv None (ApiCall (PostTemplate body)) (api, Some m) = (ApiReply (json_response 401 b), api, Some m))"
proof -
  let ?m = "mcp_sees api m"
  have m: "ns_tick ?m = ns_tick m" "ts_rows (ns_template_store ?m) = ts_rows (as_template_store api)"
    by (simp_all add: mcp_sees_def)
  obtain v i t' where up: "template_upsert (me_templates menv) None (me_now menv (ns_tick m)) (uta_event_type a) (uta_channel a)
      (uta_subject a) (uta_body_html a) (uta_body_text a) (uta_active a) (ns_template_store ?m) = (Ok (v, i), t')"
    and holds: "\<exists>r \<in> set (ts_rows t'). holds_template a r"
    using upsert_holds [of "ns_template_store ?m" "me_templates menv" "me_now menv (ns_tick m)" a] assms(6) unfolding m(2) by blast
  let ?m' = "(ns_ticked ?m)\<lparr>ns_template_store := t'\<rparr>"
  have "\<exists>reply. call_tool menv ''upsert_template'' args ?m = (Ok reply, ?m')"
    using assms(2-5) up by (simp add: call_tool_def tool_router_def with_args_def tool_upsert_template_def m(1))
  then obtain reply where "service_router re env menv None (McpCall ''upsert_template'' args) (api, Some m) = (McpReply (Ok reply), api_sees ?m' api, Some ?m')"
    by auto
  moreover have "ts_rows (as_template_store (api_sees ?m' api)) = ts_rows t'" by (simp add: api_sees_def)
  moreover have "\<forall>body. \<exists>b. service_router re env menv None (ApiCall (PostTemplate body)) (api, Some m) = (ApiReply (json_response 401 b), api, Some m)"
    using assms(1) by (auto simp: build_router_def bearer_auth_def)
  ultimately show ?thesis using holds by metis
qed

theorem mcp_needs_no_token_witness:
  "\<exists>reply api' m'. service_router sample_router sample_api_env sample_mcp_env None
      (McpCall ''upsert_template'' (JObj [(''event_type'', JStr ''T''), (''subject'', JStr ''S''), (''body_html'', JStr ''evil''), (''body_text'', JStr ''evil'')]))
      (sample_api_state sample_db, Some sample_server) = (McpReply (Ok reply), api', Some m') \<and>
    (\<exists>r. r \<in> set (ts_rows (as_template_store api')) \<and> tr_body_html r = ''evil'')"
proof -
  let ?args = "JObj [(''event_type'', JStr ''T''), (''subject'', JStr ''S''), (''body_html'', JStr ''evil''), (''body_text'', JStr ''evil'')]"
  let ?a = "\<lparr>uta_event_type = ''T'', uta_channel = ''email'', uta_subject = ''S'', uta_body_html = ''evil'', uta_body_text = ''evil'', uta_active = True\<rparr>"
  have d: "dec_upsert_template_args ?args = Ok ?a" by code_simp
  have t: "trim (uta_event_type ?a) \<noteq> []" "trim (uta_subject ?a) \<noteq> []" by code_simp+
  have s: "as_api_key (sample_api_state sample_db) = Some ''key''" "me_fault sample_mcp_env (ns_tick sample_server) = None"
    "\<forall>r \<in> set (ts_rows (as_template_store (sample_api_state sample_db))). tr_version r < int4_max"
    by (simp_all add: sample_api_state_def sample_mcp_env_def)
  from mcp_needs_no_token [OF s(1) d t s(2,3), of sample_router sample_api_env] show ?thesis
    by (fastforce simp: holds_template_def)
qed

end
