(* ===== verification/Syslog.thy ===== *)
theory Syslog
  imports Prelude "HOL-Library.Char_ord" "HOL-Library.List_Lexorder"
begin

text \<open>
  \<^verbatim>\<open>src/syslog_layer.rs\<close>: the log sink that hands every event to syslog as one line of JSON. The crates \<^verbatim>\<open>syslog\<close> (sockets and message headers) and
  \<^verbatim>\<open>tracing\<close> (levels, spans and values as they are recorded) are what the operations take as arguments; the texts
  of floating-point numbers, errors and debug output are the standard library's. A line is read back by a reader of
  flat JSON objects.
\<close>

section \<open>Facility and severity\<close>

datatype Facility =
    LOG_KERN | LOG_USER | LOG_MAIL | LOG_DAEMON | LOG_AUTH | LOG_SYSLOG | LOG_LPR | LOG_NEWS | LOG_UUCP | LOG_CRON
  | LOG_LOCAL0 | LOG_LOCAL1 | LOG_LOCAL2 | LOG_LOCAL3 | LOG_LOCAL4 | LOG_LOCAL5 | LOG_LOCAL6 | LOG_LOCAL7

definition facility_names :: "(string \<times> Facility) list" where
  "facility_names =
     [(''kern'', LOG_KERN), (''user'', LOG_USER), (''mail'', LOG_MAIL), (''daemon'', LOG_DAEMON), (''auth'', LOG_AUTH),
      (''syslog'', LOG_SYSLOG), (''lpr'', LOG_LPR), (''news'', LOG_NEWS), (''uucp'', LOG_UUCP), (''cron'', LOG_CRON),
      (''local0'', LOG_LOCAL0), (''local1'', LOG_LOCAL1), (''local2'', LOG_LOCAL2), (''local3'', LOG_LOCAL3),
      (''local4'', LOG_LOCAL4), (''local5'', LOG_LOCAL5), (''local6'', LOG_LOCAL6), (''local7'', LOG_LOCAL7)]"

definition parse_facility :: "(string \<Rightarrow> string) \<Rightarrow> string \<Rightarrow> Facility" where
  "parse_facility lower s = (case map_of facility_names (lower s) of Some f \<Rightarrow> f | None \<Rightarrow> LOG_USER)"

datatype Level = LevelError | LevelWarn | LevelInfo | LevelDebug | LevelTrace

text \<open>The severities in use, of the eight of syslog.\<close>

datatype Severity = LOG_ERR | LOG_WARNING | LOG_INFO | LOG_DEBUG

fun to_severity :: "Level \<Rightarrow> Severity" where
  "to_severity LevelError = LOG_ERR"
| "to_severity LevelWarn = LOG_WARNING"
| "to_severity LevelInfo = LOG_INFO"
| "to_severity LevelDebug = LOG_DEBUG"
| "to_severity LevelTrace = LOG_DEBUG"

fun level_text :: "Level \<Rightarrow> string" where
  "level_text LevelError = ''ERROR''"
| "level_text LevelWarn = ''WARN''"
| "level_text LevelInfo = ''INFO''"
| "level_text LevelDebug = ''DEBUG''"
| "level_text LevelTrace = ''TRACE''"

section \<open>Transport\<close>

datatype transport = UnixSocket | RemoteTcp string | RemoteUdp string

definition choose_transport :: "string \<Rightarrow> transport" where
  "choose_transport server =
     (if server = [] then UnixSocket
      else if starts_with ''tcp://'' server then RemoteTcp (drop 6 server) else RemoteUdp server)"

record syslog_config =
  sc_transport :: transport
  sc_facility :: Facility
  sc_ident :: string

text \<open>Opening the socket may fail; the context of the error names the server.\<close>

definition transport_error :: "transport \<Rightarrow> string \<Rightarrow> string" where
  "transport_error t e =
     (case t of
        UnixSocket \<Rightarrow> ''Failed to connect to local syslog socket: '' @ e
      | RemoteTcp a \<Rightarrow> ''Failed to connect to syslog TCP server '' @ CHR 0x27 # a @ CHR 0x27 # '': '' @ e
      | RemoteUdp a \<Rightarrow> ''Failed to open UDP syslog socket to '' @ CHR 0x27 # a @ CHR 0x27 # '': '' @ e)"

definition syslog_new :: "(transport \<Rightarrow> string + unit) \<Rightarrow> string \<Rightarrow> Facility \<Rightarrow> string \<Rightarrow> string + syslog_config" where
  "syslog_new open_socket server facility ident =
     (let t = choose_transport server
      in case open_socket t of
           Inl e \<Rightarrow> Inl (transport_error t e)
         | Inr _ \<Rightarrow> Inr \<lparr>sc_transport = t, sc_facility = facility, sc_ident = ident\<rparr>)"

definition syslog_from_env ::
  "(string \<Rightarrow> string) \<Rightarrow> (transport \<Rightarrow> string + unit) \<Rightarrow> (string \<Rightarrow> string option) \<Rightarrow> string + syslog_config" where
  "syslog_from_env lower open_socket var =
     (let server = (case var ''LOG_SYSLOG_SERVER'' of Some v \<Rightarrow> v | None \<Rightarrow> []);
          facility_str = (case var ''LOG_SYSLOG_FACILITY'' of Some v \<Rightarrow> v | None \<Rightarrow> ''user'');
          ident = (case var ''LOG_SYSLOG_IDENT'' of Some v \<Rightarrow> v | None \<Rightarrow> ''anvil-notify'')
      in syslog_new open_socket server (parse_facility lower facility_str) ident)"

section \<open>Fields\<close>

text \<open>\<^verbatim>\<open>BTreeMap<String, String>\<close>: the entries in the byte order of the keys.\<close>

type_synonym fields = "(string \<times> string) list"

fun btree_insert :: "string \<Rightarrow> string \<Rightarrow> fields \<Rightarrow> fields" where
  "btree_insert k v [] = [(k, v)]"
| "btree_insert k v ((k', v') # m) =
     (if k < k' then (k, v) # (k', v') # m else if k = k' then (k, v) # m else (k', v') # btree_insert k v m)"

datatype field_value =
    F64 string
  | I64 int
  | U64 nat
  | FBool bool
  | FStr string
  | FError string
  | FDebug string

text \<open>What \<^verbatim>\<open>StringVisitor\<close> stores of a value.\<close>

fun visit_text :: "field_value \<Rightarrow> string" where
  "visit_text (F64 display) = display"
| "visit_text (I64 i) = int_to_string i"
| "visit_text (U64 n) = nat_to_string n"
| "visit_text (FBool b) = (if b then ''true'' else ''false'')"
| "visit_text (FStr s) = s"
| "visit_text (FError display) = display"
| "visit_text (FDebug debug) = debug"

definition record_fields :: "(string \<times> field_value) list \<Rightarrow> fields \<Rightarrow> fields" where
  "record_fields vs m = fold (\<lambda>(k, v). btree_insert k (visit_text v)) vs m"

definition insert_all :: "fields \<Rightarrow> fields \<Rightarrow> fields" where
  "insert_all src m = fold (\<lambda>(k, v). btree_insert k v) src m"

section \<open>The layer\<close>

record log_event =
  lv_level :: Level
  lv_target :: string
  lv_fields :: "(string \<times> field_value) list"
  lv_scope :: "nat list"

text \<open>The state: the fields stored in the extensions of the spans, whether the lock is poisoned, and what was sent.\<close>

record syslog_layer =
  sy_spans :: "nat \<Rightarrow> fields option"
  sy_poisoned :: bool
  sy_sent :: "(Severity \<times> string) list"

definition on_new_span :: "nat \<Rightarrow> bool \<Rightarrow> (string \<times> field_value) list \<Rightarrow> syslog_layer \<Rightarrow> syslog_layer" where
  "on_new_span i known attrs self =
     (if known then self\<lparr>sy_spans := (sy_spans self)(i := Some (record_fields attrs []))\<rparr> else self)"

text \<open>The parents of an event from the root to the leaf, then the event itself.\<close>

definition event_fields :: "log_event \<Rightarrow> syslog_layer \<Rightarrow> fields" where
  "event_fields event self =
     record_fields (lv_fields event)
       (fold (\<lambda>i m. case sy_spans self i of None \<Rightarrow> m | Some recorded \<Rightarrow> insert_all recorded m) (lv_scope event) [])"

definition replace_char :: "char \<Rightarrow> string \<Rightarrow> string \<Rightarrow> string" where
  "replace_char c r s = concat (map (\<lambda>x. if x = c then r else [x]) s)"

definition backslash :: char where
  "backslash = CHR 0x5C"

definition quotation :: char where
  "quotation = CHR 0x22"

definition escape_value :: "string \<Rightarrow> string" where
  "escape_value v =
     replace_char (CHR 0x0D) (backslash # ''r'') (replace_char (CHR 0x0A) (backslash # ''n'')
       (replace_char quotation [backslash, quotation] (replace_char backslash [backslash, backslash] v)))"

definition quoted_text :: "string \<Rightarrow> string" where
  "quoted_text s = quotation # s @ [quotation]"

definition format_message :: "log_event \<Rightarrow> syslog_layer \<Rightarrow> string" where
  "format_message event self =
     ''{'' @ quoted_text ''level'' @ '':'' @ quoted_text (level_text (lv_level event)) @ '','' @ quoted_text ''target'' @ '':''
       @ quoted_text (lv_target event)
       @ concat (map (\<lambda>(k, v). '','' @ quoted_text k @ '':'' @ quoted_text (escape_value v)) (event_fields event self)) @ ''}''"

definition syslog_send :: "Severity \<Rightarrow> string \<Rightarrow> syslog_layer \<Rightarrow> syslog_layer" where
  "syslog_send severity msg self = (if sy_poisoned self then self else self\<lparr>sy_sent := sy_sent self @ [(severity, msg)]\<rparr>)"

definition on_event :: "log_event \<Rightarrow> syslog_layer \<Rightarrow> syslog_layer" where
  "on_event event self = syslog_send (to_severity (lv_level event)) (format_message event self) self"

section \<open>A reader of flat JSON objects\<close>

text \<open>A JSON string after its opening quotation mark, with the short escapes; control characters are not allowed in it.\<close>

definition short_escapes :: "(char \<times> char) list" where
  "short_escapes =
     [(quotation, quotation), (backslash, backslash), (CHR ''/'', CHR ''/''), (CHR ''b'', CHR 0x08), (CHR ''f'', CHR 0x0C),
      (CHR ''n'', CHR 0x0A), (CHR ''r'', CHR 0x0D), (CHR ''t'', CHR 0x09)]"

definition control_char :: "char \<Rightarrow> bool" where
  "control_char c \<longleftrightarrow> (of_char c :: nat) < 32"

fun read_chars :: "string \<Rightarrow> (string \<times> string) option" where
  "read_chars [] = None"
| "read_chars [c] = (if c = quotation then Some ([], []) else None)"
| "read_chars (c # d # s) =
     (if c = quotation then Some ([], d # s)
      else if c = backslash
      then case map_of short_escapes d of
             None \<Rightarrow> None
           | Some x \<Rightarrow> map_option (\<lambda>(a, b). (x # a, b)) (read_chars s)
      else if control_char c then None
      else map_option (\<lambda>(a, b). (c # a, b)) (read_chars (d # s)))"

definition read_text :: "string \<Rightarrow> (string \<times> string) option" where
  "read_text s = (case s of [] \<Rightarrow> None | c # r \<Rightarrow> if c = quotation then read_chars r else None)"

lemma read_chars_shorter: "read_chars s = Some (a, r) \<Longrightarrow> length r < length s"
  by (induction s arbitrary: a rule: read_chars.induct) (fastforce split: if_splits option.splits)+

lemma read_text_shorter: "read_text s = Some (a, r) \<Longrightarrow> length r < length s"
  by (auto simp: read_text_def split: list.splits if_splits dest!: read_chars_shorter)

text \<open>One member: a text, a colon and a text.\<close>

definition read_member :: "string \<Rightarrow> ((string \<times> string) \<times> string) option" where
  "read_member s =
     (case read_text s of
        Some (k, c # r) \<Rightarrow> if c = CHR '':'' then map_option (\<lambda>(v, r). ((k, v), r)) (read_text r) else None
      | _ \<Rightarrow> None)"

lemma read_member_shorter: "read_member s = Some (kv, r) \<Longrightarrow> length r < length s"
  by (fastforce simp: read_member_def split: option.splits list.splits if_splits dest: read_text_shorter)

function read_members :: "string \<Rightarrow> (string \<times> string) list option" where
  "read_members s =
     (case read_member s of
        Some (kv, c # r) \<Rightarrow>
          if c = CHR '','' then map_option (\<lambda>m. kv # m) (read_members r)
          else if c = CHR ''}'' \<and> r = [] then Some [kv] else None
      | _ \<Rightarrow> None)"
  by pat_completeness auto
termination
  by (relation "measure length") (auto dest: read_member_shorter)

declare read_members.simps [simp del]

definition read_object :: "string \<Rightarrow> (string \<times> string) list option" where
  "read_object s = (case s of [] \<Rightarrow> None | c # r \<Rightarrow> if c = CHR ''{'' then read_members r else None)"

section \<open>Fields by name\<close>

lemma lookup_btree_insert [simp]: "map_of (btree_insert k v m) = (map_of m)(k \<mapsto> v)"
  by (induction m) (auto simp: fun_eq_iff)

lemma keys_btree_insert: "fst ` set (btree_insert k v m) = insert k (fst ` set m)"
  by (metis dom_fun_upd dom_map_of_conv_image_fst lookup_btree_insert option.distinct(1))

lemma btree_insert_sorted: "sorted_wrt (<) (map fst m) \<Longrightarrow> sorted_wrt (<) (map fst (btree_insert k v m))"
proof (induction m)
  case (Cons e m)
  obtain k' v' where e: "e = (k', v')" by fastforce
  have "k' < x" if "k' < k" "x \<in> fst ` set (btree_insert k v m)" for x
    using that Cons.prems by (auto simp: keys_btree_insert e)
  with Cons show ?case by (auto simp: e)
qed simp

lemma insert_all_lookup: "map_of (insert_all src m) = map_of m ++ map_of (rev src)"
  by (induction src arbitrary: m) (simp_all add: insert_all_def case_prod_beta map_add_assoc [symmetric] flip: fun_upd_def)

lemma insert_all_sorted: "sorted_wrt (<) (map fst m) \<Longrightarrow> sorted_wrt (<) (map fst (insert_all src m))"
  by (induction src arbitrary: m) (simp_all add: insert_all_def case_prod_beta btree_insert_sorted)

lemma record_fields_eq: "record_fields vs m = insert_all (map (map_prod id visit_text) vs) m"
  by (induction vs arbitrary: m) (simp_all add: record_fields_def insert_all_def case_prod_beta)

section \<open>Reading a line back\<close>

text \<open>A name or target that is written as it is: no quotation mark, backslash or control character.\<close>

definition plain_text :: "string \<Rightarrow> bool" where
  "plain_text s \<longleftrightarrow> list_all (\<lambda>c. c \<noteq> quotation \<and> c \<noteq> backslash \<and> \<not> control_char c) s"

text \<open>A value whose control characters are line ends only.\<close>

definition escapable :: "string \<Rightarrow> bool" where
  "escapable v \<longleftrightarrow> list_all (\<lambda>c. control_char c \<longrightarrow> c = CHR 0x0A \<or> c = CHR 0x0D) v"

lemma special_chars [simp]:
  "quotation \<noteq> backslash" "\<not> control_char quotation" "\<not> control_char backslash" "quotation \<noteq> CHR 0x0A" "quotation \<noteq> CHR 0x0D"
  "backslash \<noteq> CHR 0x0A" "backslash \<noteq> CHR 0x0D" "control_char (CHR 0x0A)" "control_char (CHR 0x0D)"
  "map_of short_escapes quotation = Some quotation" "map_of short_escapes backslash = Some backslash"
  "map_of short_escapes (CHR ''n'') = Some (CHR 0x0A)" "map_of short_escapes (CHR ''r'') = Some (CHR 0x0D)"
  by (simp_all add: quotation_def backslash_def control_char_def short_escapes_def)

lemmas special_chars_sym [simp] = special_chars(1,4,5,6,7) [symmetric]

lemma read_chars_quote [simp]: "read_chars (quotation # s) = Some ([], s)"
  by (cases s) simp_all

lemma read_chars_control [simp]: "control_char c \<Longrightarrow> read_chars (c # s) = None"
  by (cases s) (auto dest: special_chars(2,3) [THEN notE])

lemma read_chars_plain:
  "c \<noteq> quotation \<Longrightarrow> c \<noteq> backslash \<Longrightarrow> \<not> control_char c \<Longrightarrow> read_chars (c # s) = map_option (\<lambda>(a, b). (c # a, b)) (read_chars s)"
  by (cases s) simp_all

lemma read_chars_escape [simp]:
  "read_chars (backslash # d # s) = (case map_of short_escapes d of None \<Rightarrow> None | Some x \<Rightarrow> map_option (\<lambda>(a, b). (x # a, b)) (read_chars s))"
  by simp

lemma read_plain: "plain_text k \<Longrightarrow> read_text (quoted_text k @ s) = Some (k, s)"
  by (induction k) (auto simp: plain_text_def read_text_def quoted_text_def read_chars_plain)

lemma escape_append: "escape_value (a @ b) = escape_value a @ escape_value b"
  by (simp add: escape_value_def replace_char_def)

definition escape_char :: "char \<Rightarrow> string" where
  "escape_char c =
     (if c = backslash then [backslash, backslash] else if c = quotation then [backslash, quotation]
      else if c = CHR 0x0A then backslash # ''n'' else if c = CHR 0x0D then backslash # ''r'' else [c])"

lemma escape_single: "escape_value [c] = escape_char c"
  by (simp add: escape_value_def replace_char_def escape_char_def quotation_def backslash_def)

lemma escape_simps [simp]: "escape_value [] = []" "escape_value (c # v) = escape_char c @ escape_value v"
  using escape_append [of "[c]" v] by (simp_all add: escape_single) (simp add: escape_value_def replace_char_def)

lemma read_escaped_chars:
  "read_chars (escape_value v @ quotation # s) = (if escapable v then Some (v, s) else None)"
proof (induction v)
  case (Cons c v)
  show ?case
  proof (cases "c = backslash \<or> c = quotation \<or> c = CHR 0x0A \<or> c = CHR 0x0D")
    case True
    with Cons show ?thesis by (auto simp: escape_char_def escapable_def)
  next
    case False
    with Cons show ?thesis by (cases "control_char c") (auto simp: escape_char_def escapable_def read_chars_plain)
  qed
qed (simp add: escapable_def)

lemma read_escaped: "read_text (quoted_text (escape_value v) @ s) = (if escapable v then Some (v, s) else None)"
  using read_escaped_chars [of v s] by (simp add: read_text_def quoted_text_def)

lemma line_ends_escaped: "CHR 0x0A \<notin> set (escape_value v) \<and> CHR 0x0D \<notin> set (escape_value v)"
  by (induction v) (auto simp: escape_char_def)

definition member_text :: "string \<times> string \<Rightarrow> string" where
  "member_text kv = quoted_text (fst kv) @ '':'' @ quoted_text (escape_value (snd kv))"

lemma read_member_text:
  "plain_text (fst kv) \<Longrightarrow> read_member (member_text kv @ s) = (if escapable (snd kv) then Some (kv, s) else None)"
  by (simp add: read_member_def member_text_def read_plain read_escaped)

lemma read_members_text:
  assumes "plain_text (fst kv)" "\<forall>e \<in> set m. plain_text (fst e)"
  shows "read_members (member_text kv @ concat (map (\<lambda>e. '','' @ member_text e) m) @ ''}'') =
    (if \<forall>e \<in> set (kv # m). escapable (snd e) then Some (kv # m) else None)"
  using assms
proof (induction m arbitrary: kv)
  case Nil
  then show ?case by (subst read_members.simps) (simp add: read_member_text)
next
  case (Cons e m)
  have "read_members (member_text e @ concat (map (\<lambda>e. '','' @ member_text e) m) @ ''}'') =
      (if \<forall>e \<in> set (e # m). escapable (snd e) then Some (e # m) else None)"
    by (rule Cons.IH) (use Cons.prems in auto)
  then show ?case by (subst read_members.simps) (simp add: read_member_text Cons.prems(1))
qed

text \<open>The fields that reach a line: the event's own win, then those of the closer span.\<close>

definition scope_lookup :: "syslog_layer \<Rightarrow> nat list \<Rightarrow> string \<Rightarrow> string option" where
  "scope_lookup self scope = foldl (\<lambda>f i. f ++ (case sy_spans self i of None \<Rightarrow> Map.empty | Some m \<Rightarrow> map_of (rev m))) Map.empty scope"

definition span_fields :: "syslog_layer \<Rightarrow> nat list \<Rightarrow> fields \<Rightarrow> fields" where
  "span_fields self scope m = fold (\<lambda>i m. case sy_spans self i of None \<Rightarrow> m | Some recorded \<Rightarrow> insert_all recorded m) scope m"

lemma span_fields_lookup:
  "map_of (span_fields self scope m) =
     foldl (\<lambda>f i. f ++ (case sy_spans self i of None \<Rightarrow> Map.empty | Some m \<Rightarrow> map_of (rev m))) (map_of m) scope"
  by (induction scope arbitrary: m) (simp_all add: span_fields_def insert_all_lookup split: option.split)

lemma span_fields_sorted: "sorted_wrt (<) (map fst m) \<Longrightarrow> sorted_wrt (<) (map fst (span_fields self scope m))"
  by (induction scope arbitrary: m) (simp_all add: span_fields_def insert_all_sorted split: option.split)

lemma event_fields_eq:
  "event_fields event self = insert_all (map (map_prod id visit_text) (lv_fields event)) (span_fields self (lv_scope event) [])"
  by (simp add: event_fields_def record_fields_eq span_fields_def)

lemma format_message_eq:
  "format_message event self = CHR ''{'' # member_text (''level'', level_text (lv_level event)) @
     concat (map (\<lambda>e. '','' @ member_text e) ((''target'', lv_target event) # event_fields event self)) @ ''}''"
  if "plain_text (lv_target event)"
proof -
  have "escape_value s = s" if "plain_text s" for s
    using that by (induction s) (auto simp: plain_text_def escape_char_def)
  moreover have "plain_text (level_text l)" for l
    by (cases l) (simp_all add: plain_text_def quotation_def backslash_def control_char_def)
  ultimately show ?thesis using that by (simp add: format_message_def member_text_def split_def)
qed

text \<open>
  C23. A log event is one line that reads back: with a target and field names free of quotation marks, backslashes and control characters (as Rust paths and
  identifiers are), every event is sent as one message, of the severity of its level, without a line end whatever the values hold, so no value can forge
  a second log line. The message is a JSON object whose members are the level, the target and, in the order of their names and each once, the
  event's fields and those of its spans, where the event wins over its spans and a closer span over a wider one; all values are
  read back exactly. The exception: a value with another control character, a tab for one, is written raw and the line is not JSON.
\<close>

theorem syslog_line_reads_back:
  assumes "\<not> sy_poisoned self" "plain_text (lv_target event)" "\<forall>e \<in> set (event_fields event self). plain_text (fst e)"
  shows "let line = format_message event self; fs = event_fields event self in
    sy_sent (on_event event self) = sy_sent self @ [(to_severity (lv_level event), line)] \<and>
    CHR 0x0A \<notin> set line \<and> CHR 0x0D \<notin> set line \<and>
    read_object line = (if \<forall>e \<in> set fs. escapable (snd e)
      then Some ((''level'', level_text (lv_level event)) # (''target'', lv_target event) # fs) else None) \<and>
    sorted_wrt (<) (map fst fs) \<and>
    map_of fs = scope_lookup self (lv_scope event) ++ map_of (rev (map (map_prod id visit_text) (lv_fields event)))"
proof -
  let ?line = "format_message event self" and ?fs = "event_fields event self"
  let ?level = "(''level'', level_text (lv_level event))" and ?target = "(''target'', lv_target event)"
  have plain: "plain_text (fst ?level)" "\<forall>e \<in> set (?target # ?fs). plain_text (fst e)" "escapable (snd ?level)" "escapable (snd ?target)"
    using assms(2,3) by (cases "lv_level event"; auto simp: plain_text_def escapable_def quotation_def backslash_def control_char_def list_all_iff)+
  have "read_object ?line = (if \<forall>e \<in> set ?fs. escapable (snd e) then Some (?level # ?target # ?fs) else None)"
    using read_members_text [OF plain(1,2)] plain(3,4) by (simp add: read_object_def format_message_eq [OF assms(2)])
  moreover have ends: "CHR 0x0A \<notin> set (member_text e) \<and> CHR 0x0D \<notin> set (member_text e)" if "plain_text (fst e)" for e
    using that line_ends_escaped [of "snd e"] by (auto simp: member_text_def quoted_text_def plain_text_def list_all_iff)
  have "CHR 0x0A \<notin> set ?line \<and> CHR 0x0D \<notin> set ?line"
    using ends [OF plain(1)] ends plain(2) by (auto simp: format_message_eq [OF assms(2)])
  moreover have "map_of ?fs = scope_lookup self (lv_scope event) ++ map_of (rev (map (map_prod id visit_text) (lv_fields event)))"
    by (simp add: event_fields_eq insert_all_lookup span_fields_lookup scope_lookup_def)
  moreover have "sorted_wrt (<) (map fst ?fs)" by (simp add: event_fields_eq insert_all_sorted span_fields_sorted)
  moreover have "sy_sent (on_event event self) = sy_sent self @ [(to_severity (lv_level event), ?line)]"
    using assms(1) by (simp add: on_event_def syslog_send_def)
  ultimately show ?thesis by (simp add: Let_def)
qed

definition sample_layer :: syslog_layer where
  "sample_layer = on_new_span 1 True [(''event_id'', FDebug ''e1''), (''user'', FStr ''ann'')]
     \<lparr>sy_spans = (\<lambda>_. None), sy_poisoned = False, sy_sent = []\<rparr>"

definition sample_log_event :: log_event where
  "sample_log_event =
     \<lparr>lv_level = LevelWarn, lv_target = ''consumer::delivery'',
      lv_fields = [(''message'', FDebug (''a '' @ quotation # ''b'' @ [CHR 0x0A])), (''user'', FStr ''bob'')], lv_scope = [1]\<rparr>"

theorem syslog_line_reads_back_witness:
  "read_object (format_message sample_log_event sample_layer) =
     Some [(''level'', ''WARN''), (''target'', ''consumer::delivery''), (''event_id'', ''e1''),
           (''message'', ''a '' @ quotation # ''b'' @ [CHR 0x0A]), (''user'', ''bob'')] \<and>
   read_object (format_message (sample_log_event\<lparr>lv_fields := [(''x'', FStr [CHR 0x09])]\<rparr>) sample_layer) = None"
proof -
  let ?e = "sample_log_event\<lparr>lv_fields := [(''x'', FStr [CHR 0x09])]\<rparr>"
  have f: "event_fields sample_log_event sample_layer = [(''event_id'', ''e1''), (''message'', ''a '' @ quotation # ''b'' @ [CHR 0x0A]), (''user'', ''bob'')]"
    "event_fields ?e sample_layer = [(''event_id'', ''e1''), (''user'', ''ann''), (''x'', [CHR 0x09])]" by code_simp+
  have p: "\<not> sy_poisoned sample_layer" "plain_text (lv_target sample_log_event)" "plain_text (lv_target ?e)"
    "list_all (plain_text \<circ> fst) (event_fields sample_log_event sample_layer)" "list_all (plain_text \<circ> fst) (event_fields ?e sample_layer)"
    "list_all (escapable \<circ> snd) (event_fields sample_log_event sample_layer)" "\<not> escapable [CHR 0x09]"
    by code_simp+
  from syslog_line_reads_back [OF p(1,2)] syslog_line_reads_back [OF p(1,3)] p(4-) f show ?thesis
    by (simp add: Let_def list_all_iff) (simp add: sample_log_event_def)
qed

end
