(* ===== verification/Config_Layers.thy ===== *)
theory Config_Layers
  imports Json
begin

text \<open>
  How the binaries collect their configuration with the \<^verbatim>\<open>config\<close> crate: built-in defaults, then files, then the
  environment, where a later source wins key by key. A source is a partial function from dotted keys to texts; what a file
  holds and the conversion of a text to a number are arguments.
\<close>

type_synonym config_source = "string \<Rightarrow> string option"

datatype config_file = FileMissing | FileInvalid | FileSource config_source

text \<open>The last source that has the key.\<close>

definition layered :: "config_source list \<Rightarrow> config_source" where
  "layered srcs = foldl (++) Map.empty srcs"

text \<open>\<^verbatim>\<open>File::with_name(..).required(..)\<close>.\<close>

definition read_source :: "(string \<Rightarrow> config_file) \<Rightarrow> bool \<Rightarrow> string \<Rightarrow> string + config_source" where
  "read_source file mandatory name =
     (case file name of
        FileSource src \<Rightarrow> Ok src
      | FileInvalid \<Rightarrow> Err ''Failed to load config''
      | FileMissing \<Rightarrow> if mandatory then Err ''Failed to load config'' else Ok Map.empty)"

text \<open>The loader that the command line and the MCP server share in text: a given file replaces the pair of default files.\<close>

definition load_layers ::
  "(string \<Rightarrow> config_file) \<Rightarrow> config_source \<Rightarrow> config_source \<Rightarrow> string option \<Rightarrow> string + config_source" where
  "load_layers file defaults env path =
     (case path of
        Some p \<Rightarrow> and_then (read_source file True p) (\<lambda>f. Ok (layered [defaults, f, env]))
      | None \<Rightarrow>
          and_then (read_source file False ''config/default'') (\<lambda>d.
          and_then (read_source file False ''config/local'') (\<lambda>l. Ok (layered [defaults, d, l, env]))))"

definition required_key :: "config_source \<Rightarrow> string \<Rightarrow> string + string" where
  "required_key src key = (case src key of None \<Rightarrow> Err ''Failed to parse config'' | Some v \<Rightarrow> Ok v)"

definition amqp_defaults :: config_source where
  "amqp_defaults = [''amqp.exchange'' \<mapsto> ''anvil-notify'', ''amqp.routing_key'' \<mapsto> ''email.requested'']"

section \<open>Precedence\<close>

text \<open>With a given file the default files play no part; the environment always wins, the built-in defaults always lose.\<close>

lemma load_given_file:
  "load_layers file defaults env (Some p) = Ok src \<longleftrightarrow> (\<exists>f. file p = FileSource f \<and> src = defaults ++ f ++ env)"
  by (auto simp: load_layers_def read_source_def layered_def split: config_file.splits)

lemma load_default_files:
  "load_layers file defaults env None = Ok src \<longleftrightarrow>
     file ''config/default'' \<noteq> FileInvalid \<and> file ''config/local'' \<noteq> FileInvalid \<and>
     src = defaults ++ (case file ''config/default'' of FileSource d \<Rightarrow> d | _ \<Rightarrow> Map.empty)
             ++ (case file ''config/local'' of FileSource l \<Rightarrow> l | _ \<Rightarrow> Map.empty) ++ env"
  by (auto simp: load_layers_def read_source_def layered_def split: config_file.splits)

end
