(* ===== verification/Service_Tasks.thy ===== *)
theory Service_Tasks
  imports Service Syslog Config_Layers
begin

text \<open>
  The rest of the binaries: the choice of the log sink, the defaults of the configuration and its debug output, the HTTP task and the final join of
  \<^verbatim>\<open>src/main.rs\<close>, the start of \<^verbatim>\<open>src/outbox_worker.rs\<close> and the stand-alone MCP server
  (\<^verbatim>\<open>crates/mcp/src/main.rs\<close>). What the outside answers is an argument.
\<close>

section \<open>Log sinks\<close>

datatype log_sink = PrettySink | CompactSink | JsonSink | SyslogSink syslog_config

definition log_format :: "(string \<Rightarrow> string) \<Rightarrow> (string \<Rightarrow> string option) \<Rightarrow> string" where
  "log_format lower var = lower (or_default ''json'' (var ''LOG_FORMAT''))"

definition service_log_sink ::
  "(string \<Rightarrow> string) \<Rightarrow> (transport \<Rightarrow> string + unit) \<Rightarrow> (string \<Rightarrow> string option) \<Rightarrow> string + log_sink" where
  "service_log_sink lower open_socket var =
     (let fmt = log_format lower var in
      if fmt = ''pretty'' then Ok PrettySink
      else if fmt = ''compact'' then Ok CompactSink
      else if fmt = ''syslog''
      then (case syslog_from_env lower open_socket var of
              Inl _ \<Rightarrow> Err ''Failed to initialise syslog transport''
            | Inr c \<Rightarrow> Ok (SyslogSink c))
      else Ok JsonSink)"

definition outbox_log_sink :: "(string \<Rightarrow> string) \<Rightarrow> (string \<Rightarrow> string option) \<Rightarrow> log_sink" where
  "outbox_log_sink lower var =
     (let fmt = log_format lower var in if fmt = ''pretty'' then PrettySink else if fmt = ''compact'' then CompactSink else JsonSink)"

section \<open>Defaults of the configuration\<close>

text \<open>An SMTP block as it stands in a file: \<open>None\<close> is an absent key.\<close>

record SmtpVars =
  vr_host :: string
  vr_port :: u16
  vr_username :: "string option"
  vr_password :: "string option"
  vr_from_email :: string
  vr_from_name :: string
  vr_tls_mode :: "SmtpTlsMode option"
  vr_connection_timeout_ms :: "u64 option"
  vr_read_timeout_ms :: "u64 option"
  vr_write_timeout_ms :: "u64 option"
  vr_pool_size :: "u32 option"

definition smtp_account_decode :: "SmtpVars \<Rightarrow> SmtpAccountConfig" where
  "smtp_account_decode v =
     \<lparr>ac_host = vr_host v, ac_port = vr_port v, ac_username = or_default [] (vr_username v), ac_password = or_default [] (vr_password v),
      ac_from_email = vr_from_email v, ac_from_name = vr_from_name v, ac_tls_mode = vr_tls_mode v,
      ac_connection_timeout_ms = or_default 5000 (vr_connection_timeout_ms v), ac_read_timeout_ms = or_default 10000 (vr_read_timeout_ms v),
      ac_write_timeout_ms = or_default 10000 (vr_write_timeout_ms v), ac_pool_size = or_default 5 (vr_pool_size v)\<rparr>"

text \<open>The mailer crate's own decoding, \<^verbatim>\<open>SmtpConfigRaw\<close> with its conversion.\<close>

definition smtp_config_from_raw :: "SmtpVars \<Rightarrow> SmtpConfig" where
  "smtp_config_from_raw v =
     \<lparr>sc_host = vr_host v, sc_port = vr_port v, sc_username = or_default [] (vr_username v), sc_password = or_default [] (vr_password v),
      sc_from_email = vr_from_email v, sc_from_name = vr_from_name v, sc_tls_mode = vr_tls_mode v,
      sc_connection_timeout_ms = or_default 5000 (vr_connection_timeout_ms v), sc_read_timeout_ms = or_default 10000 (vr_read_timeout_ms v),
      sc_write_timeout_ms = or_default 10000 (vr_write_timeout_ms v), sc_pool_size = or_default 5 (vr_pool_size v)\<rparr>"

text \<open>The optional keys of the service's configuration.\<close>

record TuningVars =
  tv_pool_size :: "u32 option"
  tv_max_rl_waits :: "u32 option"
  tv_max_recipients_per_event :: "nat option"
  tv_allow_unauthenticated :: "bool option"
  tv_rate_limit :: "RateLimitConfig option"
  tv_template_cache_ttl_secs :: "u64 option"
  tv_block_list_cache_ttl_secs :: "u64 option"
  tv_stale_pending_timeout_secs :: "u64 option"
  tv_stale_pending_reaper_interval_secs :: "u64 option"
  tv_max_attachment_bytes :: "nat option"
  tv_shutdown_timeout_secs :: "u64 option"

text \<open>A configuration whose mandatory keys are given, completed by its defaults.\<close>

definition apply_defaults :: "TuningVars \<Rightarrow> AppConfig \<Rightarrow> AppConfig" where
  "apply_defaults v c = c
     \<lparr>app_database := (app_database c)\<lparr>dc_pool_size := or_default 10 (tv_pool_size v)\<rparr>,
      app_amqp := (app_amqp c)\<lparr>aq_max_rl_waits := or_default 5 (tv_max_rl_waits v),
        aq_max_recipients_per_event := or_default 500 (tv_max_recipients_per_event v)\<rparr>,
      app_http := (app_http c)\<lparr>hc_allow_unauthenticated := or_default False (tv_allow_unauthenticated v)\<rparr>,
      app_rate_limit := or_default rate_limit_default (tv_rate_limit v),
      app_template_cache_ttl_secs := or_default 300 (tv_template_cache_ttl_secs v),
      app_block_list_cache_ttl_secs := or_default 30 (tv_block_list_cache_ttl_secs v),
      app_stale_pending_timeout_secs := or_default 600 (tv_stale_pending_timeout_secs v),
      app_stale_pending_reaper_interval_secs := or_default 300 (tv_stale_pending_reaper_interval_secs v),
      app_max_attachment_bytes := or_default (10 * 1024 * 1024) (tv_max_attachment_bytes v),
      app_shutdown_timeout_secs := or_default 30 (tv_shutdown_timeout_secs v)\<rparr>"

section \<open>Debug output\<close>

text \<open>The fields that a \<^verbatim>\<open>Debug\<close> implementation shows, before they are laid out.\<close>

datatype debug_value = DebugText string | DebugNat nat | DebugOption "string option" | DebugTls "SmtpTlsMode option"

definition redacted :: string where
  "redacted = ''[REDACTED]''"

definition debug_account :: "SmtpAccountConfig \<Rightarrow> (string \<times> debug_value) list" where
  "debug_account a =
     [(''host'', DebugText (ac_host a)), (''port'', DebugNat (unat (ac_port a))), (''username'', DebugText (ac_username a)),
      (''password'', DebugText redacted), (''from_email'', DebugText (ac_from_email a)), (''from_name'', DebugText (ac_from_name a)),
      (''tls_mode'', DebugTls (ac_tls_mode a)), (''connection_timeout_ms'', DebugNat (unat (ac_connection_timeout_ms a))),
      (''read_timeout_ms'', DebugNat (unat (ac_read_timeout_ms a))), (''write_timeout_ms'', DebugNat (unat (ac_write_timeout_ms a))),
      (''pool_size'', DebugNat (unat (ac_pool_size a)))]"

fun debug_mailer :: "MailerConfig \<Rightarrow> (string \<times> debug_value) list" where
  "debug_mailer (SmtpMailer a) = debug_account a"
| "debug_mailer (WebhookMailer url auth_token) =
     [(''url'', DebugText url), (''auth_token'', DebugOption (map_option (\<lambda>_. redacted) auth_token))]"

section \<open>The tasks of the service\<close>

datatype api_task_end = BindFailed | ServeFailed | ServedUntilShutdown

definition api_task :: "bool \<Rightarrow> bool \<Rightarrow> api_task_end" where
  "api_task bind_ok serve_ok = (if \<not> bind_ok then BindFailed else if \<not> serve_ok then ServeFailed else ServedUntilShutdown)"

text \<open>The instant at which the last of the awaited tasks is done, in milliseconds after the signal; \<open>None\<close> is a task that never ends.\<close>

fun await_all :: "nat \<Rightarrow> nat option list \<Rightarrow> nat option" where
  "await_all now [] = Some now"
| "await_all now (t # ts) = (case t of None \<Rightarrow> None | Some n \<Rightarrow> await_all (max now n) ts)"

datatype shutdown_end = ShutdownComplete | ShutdownTimedOut

definition graceful_shutdown :: "u64 \<Rightarrow> nat option \<Rightarrow> nat option \<Rightarrow> nat option \<Rightarrow> shutdown_end" where
  "graceful_shutdown timeout_secs api consumer reaper =
     (case await_all 0 [api, consumer, reaper] of
        Some t \<Rightarrow> if t \<le> unat timeout_secs * 1000 then ShutdownComplete else ShutdownTimedOut
      | None \<Rightarrow> ShutdownTimedOut)"

section \<open>outbox\_worker.rs: start\<close>

definition outbox_main ::
  "(string \<Rightarrow> string) \<Rightarrow> (string \<Rightarrow> string option) \<Rightarrow> bool \<Rightarrow> OutboxVars \<Rightarrow> string + log_sink \<times> OutboxConfig" where
  "outbox_main lower var metrics_ok v =
     and_then (with_context ''Failed to load outbox worker config'' (outbox_env_load v)) (\<lambda>cfg.
     and_then (step_ok metrics_ok ''Failed to install Prometheus metrics exporter'') (\<lambda>_.
       Ok (outbox_log_sink lower var, cfg)))"

section \<open>The stand-alone MCP server\<close>

definition mcp_load :: "(string \<Rightarrow> config_file) \<Rightarrow> config_source \<Rightarrow> string option \<Rightarrow> string + McpConfig" where
  "mcp_load file env path =
     and_then (load_layers file amqp_defaults env path) (\<lambda>src.
     and_then (required_key src ''database.url'') (\<lambda>db.
     and_then (required_key src ''amqp.url'') (\<lambda>url.
     and_then (required_key src ''amqp.exchange'') (\<lambda>exchange.
     and_then (required_key src ''amqp.routing_key'') (\<lambda>routing_key.
       Ok (mcp_config_new db url exchange routing_key))))))"

datatype mcp_transport = McpStdio | McpHttp u16 string "cors option"

record mcp_start =
  mst_file :: "string \<Rightarrow> config_file"
  mst_env :: config_source
  mst_var :: "string \<Rightarrow> string option"
  mst_parse_u16 :: "string \<Rightarrow> u16 option"
  mst_header_ok :: "string \<Rightarrow> bool"
  mst_database_ok :: bool

definition mcp_main :: "mcp_start \<Rightarrow> string + McpConfig \<times> mcp_transport" where
  "mcp_main w =
     and_then (with_context ''Failed to load config'' (mcp_load (mst_file w) (mst_env w) (mst_var w ''MCP_CONFIG''))) (\<lambda>cfg.
     and_then (step_ok (mst_database_ok w) ''Failed to connect to PostgreSQL'') (\<lambda>_.
     (case Option.bind (mst_var w ''MCP_HTTP_PORT'') (mst_parse_u16 w) of
        None \<Rightarrow> Ok (cfg, McpStdio)
      | Some port \<Rightarrow>
          and_then (mcp_cors (mst_header_ok w) (mst_var w ''MCP_CORS_ORIGIN'')) (\<lambda>c.
            Ok (cfg, McpHttp port (or_default (''http://localhost:'' @ nat_to_string (unat port)) (mst_var w ''MCP_BASE_URL'')) c)))))"

text \<open>The middleware that both MCP endpoints share; a header's name is in lower case.\<close>

definition ensure_mcp_accept :: "string \<Rightarrow> (string \<times> string) list \<Rightarrow> (string \<times> string) list" where
  "ensure_mcp_accept path headers =
     (if starts_with ''/mcp'' path \<and> ''accept'' \<notin> fst ` set headers
      then headers @ [(''accept'', ''application/json, text/event-stream'')] else headers)"

section \<open>What holds of them\<close>

text \<open>The two decodings of an SMTP block agree, defaults included.\<close>

lemma smtp_defaults_agree: "account_smtp (smtp_account_decode v) = smtp_config_from_raw v"
  by (simp add: account_smtp_def smtp_account_decode_def smtp_config_from_raw_def)

text \<open>The debug output shows every field but the secrets, of which it shows nothing.\<close>

lemma debug_account_hides_password:
  "debug_account a = debug_account b \<longleftrightarrow> a\<lparr>ac_password := []\<rparr> = b\<lparr>ac_password := []\<rparr>"
  by (cases a; cases b) (auto simp: debug_account_def simp flip: word_unat_eq_iff)

lemma debug_mailer_hides_secrets:
  "debug_mailer (SmtpMailer a) = debug_mailer (SmtpMailer (a\<lparr>ac_password := p\<rparr>))"
  "debug_mailer (WebhookMailer url (Some t)) = debug_mailer (WebhookMailer url (Some t'))"
  by (simp_all add: debug_account_def)

lemma await_all_Some: "await_all now ts = Some t \<Longrightarrow> t \<le> d \<longleftrightarrow> now \<le> d \<and> (\<forall>x \<in> set ts. \<exists>n \<le> d. x = Some n)"
  by (induction ts arbitrary: now) (auto split: option.splits)

text \<open>The shutdown is complete exactly if each of the three tasks ends within the time; one that never ends, such as a
  delivery that spins, costs the whole of it.\<close>

lemma shutdown_complete_iff:
  "graceful_shutdown d api consumer reaper = ShutdownComplete \<longleftrightarrow>
     (\<forall>x \<in> {api, consumer, reaper}. \<exists>n \<le> unat d * 1000. x = Some n)"
proof (cases "await_all 0 [api, consumer, reaper]")
  case None
  then have "None \<in> {api, consumer, reaper}" by (auto split: option.splits)
  with None show ?thesis unfolding graceful_shutdown_def by auto
next
  case (Some t)
  with await_all_Some [OF Some, of "unat d * 1000"] show ?thesis unfolding graceful_shutdown_def by auto
qed

text \<open>A client's own header is kept, and the middleware changes nothing the second time.\<close>

lemma ensure_mcp_accept_facts:
  "''accept'' \<in> fst ` set headers \<Longrightarrow> ensure_mcp_accept path headers = headers"
  "ensure_mcp_accept path (ensure_mcp_accept path headers) = ensure_mcp_accept path headers"
  "starts_with ''/mcp'' path \<Longrightarrow> ''accept'' \<in> fst ` set (ensure_mcp_accept path headers)"
  by (auto simp: ensure_mcp_accept_def)

text \<open>A port that is no number does not stop the MCP server: it falls back to its standard streams.\<close>

lemma mcp_bad_port_falls_back:
  "mst_var w ''MCP_HTTP_PORT'' = Some p \<Longrightarrow> mst_parse_u16 w p = None \<Longrightarrow> mcp_main w = Ok (cfg, t) \<Longrightarrow> t = McpStdio"
  by (auto simp: mcp_main_def and_then_Inr_iff)

text \<open>Without tuning keys the defaults pass the checks that read them, without their warnings, for every number of
  concurrent deliveries up to 51.\<close>

definition no_tuning :: TuningVars where
  "no_tuning =
     \<lparr>tv_pool_size = None, tv_max_rl_waits = None, tv_max_recipients_per_event = None, tv_allow_unauthenticated = None, tv_rate_limit = None,
      tv_template_cache_ttl_secs = None, tv_block_list_cache_ttl_secs = None, tv_stale_pending_timeout_secs = None,
      tv_stale_pending_reaper_interval_secs = None, tv_max_attachment_bytes = None, tv_shutdown_timeout_secs = None\<rparr>"

lemma defaults_quiet:
  assumes "aq_max_concurrency (app_amqp c) \<le> 51"
  shows "memory_warnings (apply_defaults no_tuning c) = [] \<and>
    reaper_warnings (app_stale_pending_timeout_secs (apply_defaults no_tuning c)) = [] \<and>
    rate_limit_warnings (app_rate_limit (apply_defaults no_tuning c)) = []"
  using assms
  by (simp add: memory_warnings_def ATTACHMENT_MEMORY_WARN_BYTES_def reaper_warnings_def REAPER_WARN_THRESHOLD_SECS_def
      rate_limit_warnings_def rate_limit_default_def apply_defaults_def no_tuning_def or_default_def BURST_RATIO_WARN_def saturating_mul_u32_def)

end
