(* ===== verification/Service_Main.thy ===== *)
theory Service_Main
  imports Service_Props Service_Tasks
begin

text \<open>
  The process as a whole: \<^verbatim>\<open>AppConfig::load\<close> of \<^verbatim>\<open>src/config.rs\<close>, from the configuration sources over serde's decoding with its
  defaults to the checks, and \<^verbatim>\<open>main\<close> of \<^verbatim>\<open>src/main.rs\<close>, from the choice of the log sink to the exit. What the files and the
  environment hold and how the \<^verbatim>\<open>config\<close> crate converts a value to a type are arguments, as are the answers during
  start-up, the signal and the instants at which the tasks end.
\<close>

section \<open>config.rs: decoding\<close>

text \<open>The conversions of the \<^verbatim>\<open>config\<close> crate: of the value at a key to a number, a truth value, a TLS mode or a list, and the names of the accounts' tables.\<close>

record config_reader =
  cr_u16 :: "string \<Rightarrow> string \<Rightarrow> u16 option"
  cr_u32 :: "string \<Rightarrow> string \<Rightarrow> u32 option"
  cr_u64 :: "string \<Rightarrow> string \<Rightarrow> u64 option"
  cr_usize :: "string \<Rightarrow> string \<Rightarrow> nat option"
  cr_bool :: "string \<Rightarrow> string \<Rightarrow> bool option"
  cr_tls :: "string \<Rightarrow> string \<Rightarrow> SmtpTlsMode option"
  cr_list :: "string \<Rightarrow> string \<Rightarrow> string list option"
  cr_accounts :: "config_source \<Rightarrow> string list"

definition convert :: "(string \<Rightarrow> string \<Rightarrow> 'a option) \<Rightarrow> string \<Rightarrow> string \<Rightarrow> string + 'a" where
  "convert conv key v = (case conv key v of None \<Rightarrow> Err ''Failed to parse config'' | Some a \<Rightarrow> Ok a)"

definition parsed_key :: "(string \<Rightarrow> string \<Rightarrow> 'a option) \<Rightarrow> config_source \<Rightarrow> string \<Rightarrow> string + 'a" where
  "parsed_key conv src key = and_then (required_key src key) (convert conv key)"

definition default_key :: "(string \<Rightarrow> string \<Rightarrow> 'a option) \<Rightarrow> 'a \<Rightarrow> config_source \<Rightarrow> string \<Rightarrow> string + 'a" where
  "default_key conv d src key = (case src key of None \<Rightarrow> Ok d | Some v \<Rightarrow> convert conv key v)"

definition optional_key :: "(string \<Rightarrow> string \<Rightarrow> 'a option) \<Rightarrow> config_source \<Rightarrow> string \<Rightarrow> string + 'a option" where
  "optional_key conv src key = (case src key of None \<Rightarrow> Ok None | Some v \<Rightarrow> and_then (convert conv key v) (\<lambda>a. Ok (Some a)))"

definition decode_database :: "config_reader \<Rightarrow> config_source \<Rightarrow> string + DatabaseConfig" where
  "decode_database rd src =
     and_then (required_key src ''database.url'') (\<lambda>url.
     and_then (default_key (cr_u32 rd) 10 src ''database.pool_size'') (\<lambda>pool_size.
       Ok \<lparr>dc_url = url, dc_pool_size = pool_size\<rparr>))"

definition decode_amqp :: "config_reader \<Rightarrow> config_source \<Rightarrow> string + AmqpConfig" where
  "decode_amqp rd src =
     and_then (required_key src ''amqp.url'') (\<lambda>url.
     and_then (required_key src ''amqp.queue'') (\<lambda>queue.
     and_then (required_key src ''amqp.exchange'') (\<lambda>exchange.
     and_then (required_key src ''amqp.routing_key'') (\<lambda>routing_key.
     and_then (parsed_key (cr_u32 rd) src ''amqp.max_retries'') (\<lambda>max_retries.
     and_then (parsed_key (cr_u64 rd) src ''amqp.retry_base_ms'') (\<lambda>retry_base_ms.
     and_then (parsed_key (cr_usize rd) src ''amqp.max_concurrency'') (\<lambda>max_concurrency.
     and_then (default_key (cr_u32 rd) 5 src ''amqp.max_rl_waits'') (\<lambda>max_rl_waits.
     and_then (default_key (cr_usize rd) 500 src ''amqp.max_recipients_per_event'') (\<lambda>max_recipients.
       Ok \<lparr>aq_url = url, aq_queue = queue, aq_exchange = exchange, aq_routing_key = routing_key, aq_max_retries = max_retries,
           aq_retry_base_ms = retry_base_ms, aq_max_concurrency = max_concurrency, aq_max_rl_waits = max_rl_waits,
           aq_max_recipients_per_event = max_recipients\<rparr>)))))))))"

definition decode_http :: "config_reader \<Rightarrow> config_source \<Rightarrow> string + HttpConfig" where
  "decode_http rd src =
     and_then (parsed_key (cr_u16 rd) src ''http.port'') (\<lambda>port.
     and_then (default_key (cr_bool rd) False src ''http.allow_unauthenticated'') (\<lambda>allow.
       Ok \<lparr>hc_port = port, hc_api_key = src ''http.api_key'', hc_allow_unauthenticated = allow\<rparr>))"

text \<open>An SMTP block under a prefix; its absent keys are filled in by \<open>smtp_account_decode\<close>.\<close>

definition decode_account :: "config_reader \<Rightarrow> config_source \<Rightarrow> string \<Rightarrow> string + SmtpAccountConfig" where
  "decode_account rd src block =
     (let at = (\<lambda>field. block @ field) in
     and_then (required_key src (at ''host'')) (\<lambda>host.
     and_then (parsed_key (cr_u16 rd) src (at ''port'')) (\<lambda>port.
     and_then (required_key src (at ''from_email'')) (\<lambda>from_email.
     and_then (required_key src (at ''from_name'')) (\<lambda>from_name.
     and_then (optional_key (cr_tls rd) src (at ''tls_mode'')) (\<lambda>tls_mode.
     and_then (optional_key (cr_u64 rd) src (at ''connection_timeout_ms'')) (\<lambda>connection_timeout.
     and_then (optional_key (cr_u64 rd) src (at ''read_timeout_ms'')) (\<lambda>read_timeout.
     and_then (optional_key (cr_u64 rd) src (at ''write_timeout_ms'')) (\<lambda>write_timeout.
     and_then (optional_key (cr_u32 rd) src (at ''pool_size'')) (\<lambda>pool_size.
       Ok (smtp_account_decode
         \<lparr>vr_host = host, vr_port = port, vr_username = src (at ''username''), vr_password = src (at ''password''),
          vr_from_email = from_email, vr_from_name = from_name, vr_tls_mode = tls_mode,
          vr_connection_timeout_ms = connection_timeout, vr_read_timeout_ms = read_timeout, vr_write_timeout_ms = write_timeout,
          vr_pool_size = pool_size\<rparr>)))))))))))"

text \<open>The key \<^verbatim>\<open>backend\<close> selects the variant.\<close>

definition decode_mailer :: "config_reader \<Rightarrow> config_source \<Rightarrow> string + MailerConfig" where
  "decode_mailer rd src =
     and_then (required_key src ''mailer.backend'') (\<lambda>backend.
       if backend = ''smtp'' then and_then (decode_account rd src ''mailer.'') (\<lambda>a. Ok (SmtpMailer a))
       else if backend = ''webhook''
       then and_then (required_key src ''mailer.url'') (\<lambda>url. Ok (WebhookMailer url (src ''mailer.auth_token'')))
       else Err ''Failed to parse config'')"

definition decode_rate_limit :: "config_reader \<Rightarrow> config_source \<Rightarrow> string + RateLimitConfig" where
  "decode_rate_limit rd src =
     and_then (default_key (cr_u32 rd) 10 src ''rate_limit.emails_per_second'') (\<lambda>rate.
     and_then (default_key (cr_u32 rd) 20 src ''rate_limit.burst_size'') (\<lambda>burst.
       Ok \<lparr>rl_emails_per_second = rate, rl_burst_size = burst\<rparr>))"

definition decode_filter :: "config_reader \<Rightarrow> config_source \<Rightarrow> string + FilterConfig" where
  "decode_filter rd src =
     and_then (default_key (cr_list rd) [] src ''filter.blocked_emails'') (\<lambda>be.
     and_then (default_key (cr_list rd) [] src ''filter.blocked_domains'') (\<lambda>bd.
     and_then (default_key (cr_list rd) [] src ''filter.allowed_emails'') (\<lambda>ae.
     and_then (default_key (cr_list rd) [] src ''filter.allowed_domains'') (\<lambda>ad.
       Ok \<lparr>blocked_emails = be, blocked_domains = bd, allowed_emails = ae, allowed_domains = ad\<rparr>))))"

fun decode_accounts :: "config_reader \<Rightarrow> config_source \<Rightarrow> string list \<Rightarrow> string + (string \<times> SmtpAccountConfig) list" where
  "decode_accounts rd src [] = Ok []"
| "decode_accounts rd src (name # names) =
     and_then (decode_account rd src (''sender_accounts.'' @ name @ ''.'')) (\<lambda>a.
     and_then (decode_accounts rd src names) (\<lambda>rest. Ok ((name, a) # rest)))"

definition app_config_decode :: "config_reader \<Rightarrow> config_source \<Rightarrow> string + AppConfig" where
  "app_config_decode rd src =
     and_then (decode_database rd src) (\<lambda>database.
     and_then (decode_amqp rd src) (\<lambda>amqp.
     and_then (decode_mailer rd src) (\<lambda>mailer.
     and_then (decode_http rd src) (\<lambda>http.
     and_then (optional_key (cr_u16 rd) src ''metrics_port'') (\<lambda>metrics_port.
     and_then (decode_rate_limit rd src) (\<lambda>rate_limit.
     and_then (decode_filter rd src) (\<lambda>filt.
     and_then (default_key (cr_u64 rd) 300 src ''template_cache_ttl_secs'') (\<lambda>template_ttl.
     and_then (default_key (cr_u64 rd) 30 src ''block_list_cache_ttl_secs'') (\<lambda>block_list_ttl.
     and_then (default_key (cr_u64 rd) 600 src ''stale_pending_timeout_secs'') (\<lambda>stale_timeout.
     and_then (default_key (cr_u64 rd) 300 src ''stale_pending_reaper_interval_secs'') (\<lambda>reaper_interval.
     and_then (default_key (cr_usize rd) (10 * 1024 * 1024) src ''max_attachment_bytes'') (\<lambda>max_attachment.
     and_then (default_key (cr_u64 rd) 30 src ''shutdown_timeout_secs'') (\<lambda>shutdown_timeout.
     and_then (decode_accounts rd src (cr_accounts rd src)) (\<lambda>accounts.
       Ok \<lparr>app_database = database, app_amqp = amqp, app_mailer = mailer, app_http = http, app_metrics_port = metrics_port,
           app_rate_limit = rate_limit, app_filter = filt, app_template_cache_ttl_secs = template_ttl,
           app_block_list_cache_ttl_secs = block_list_ttl, app_stale_pending_timeout_secs = stale_timeout,
           app_stale_pending_reaper_interval_secs = reaper_interval, app_max_attachment_bytes = max_attachment,
           app_shutdown_timeout_secs = shutdown_timeout, app_mcp_cors_origin = src ''mcp_cors_origin'',
           app_sender_accounts = accounts\<rparr>))))))))))))))"

text \<open>\<^verbatim>\<open>AppConfig::load\<close>: no built-in defaults, the two optional files, the environment; the result comes with the warnings of the check.\<close>

definition app_config_load ::
  "config_reader \<Rightarrow> (string \<Rightarrow> config_file) \<Rightarrow> config_source \<Rightarrow> string + AppConfig \<times> startup_warning list" where
  "app_config_load rd file env =
     and_then (load_layers file Map.empty env None) (\<lambda>src.
     and_then (app_config_decode rd src) (\<lambda>app.
     and_then (app_config_validate app) (\<lambda>w. Ok (app, w))))"

section \<open>main.rs: main\<close>

datatype signal = SigInt | SigTerm

text \<open>
  What the process meets: variables, files and environment, the answers during start-up, whether the handler of SIGTERM can
  be installed, the first signal if any ever comes, and the milliseconds after it at which the tasks end (\<open>None\<close>: never).
\<close>

record main_world =
  mw_var :: "string \<Rightarrow> string option"
  mw_open_socket :: "transport \<Rightarrow> string + unit"
  mw_reader :: config_reader
  mw_file :: "string \<Rightarrow> config_file"
  mw_env :: config_source
  mw_startup :: startup_env
  mw_handler_ok :: bool
  mw_signal :: "signal option"
  mw_api_end :: "nat option"
  mw_consumer_end :: "nat option"
  mw_reaper_end :: "nat option"

record main_result =
  mr_sink :: log_sink
  mr_config :: AppConfig
  mr_service :: service
  mr_end :: "shutdown_end option"

text \<open>Without a signal the process runs on: \<open>mr_end\<close> is \<open>None\<close>.\<close>

definition await_shutdown :: "main_world \<Rightarrow> AppConfig \<Rightarrow> shutdown_end option" where
  "await_shutdown w cfg =
     (case mw_signal w of
        None \<Rightarrow> None
      | Some _ \<Rightarrow> Some (graceful_shutdown (app_shutdown_timeout_secs cfg) (mw_api_end w) (mw_consumer_end w) (mw_reaper_end w)))"

definition service_main :: "main_world \<Rightarrow> string + main_result" where
  "service_main w =
     and_then (service_log_sink (su_lower (mw_startup w)) (mw_open_socket w) (mw_var w)) (\<lambda>sink.
     and_then (with_context ''Failed to load config'' (app_config_load (mw_reader w) (mw_file w) (mw_env w))) (\<lambda>(cfg, warnings).
     and_then (build_service (mw_startup w) cfg warnings) (\<lambda>sv.
     and_then (step_ok (mw_handler_ok w) ''Failed to register SIGTERM handler'') (\<lambda>_.
       Ok \<lparr>mr_sink = sink, mr_config = cfg, mr_service = sv, mr_end = await_shutdown w cfg\<rparr>))))"

section \<open>What the sources decide\<close>

definition file_keys :: "config_file \<Rightarrow> config_source" where
  "file_keys f = (case f of FileSource src \<Rightarrow> src | _ \<Rightarrow> Map.empty)"

text \<open>The environment before the local file before the default file; a file that is there but cannot be read stops the load.\<close>

lemma load_sources:
  assumes "load_layers file Map.empty env None = Ok src"
  shows "src = file_keys (file ''config/default'') ++ file_keys (file ''config/local'') ++ env \<and>
    file ''config/default'' \<noteq> FileInvalid \<and> file ''config/local'' \<noteq> FileInvalid"
  using assms by (auto simp: load_default_files file_keys_def split: config_file.splits)

lemma decode_accounts_names: "decode_accounts rd src names = Ok accounts \<Longrightarrow> map fst accounts = names"
  by (induction names arbitrary: accounts) (auto simp: and_then_Inr_iff)

lemma decoded_fields:
  assumes "app_config_decode rd src = Ok cfg"
  shows "src ''database.url'' = Some (dc_url (app_database cfg)) \<and> src ''amqp.url'' = Some (aq_url (app_amqp cfg)) \<and>
    hc_api_key (app_http cfg) = src ''http.api_key'' \<and> map fst (app_sender_accounts cfg) = cr_accounts rd src"
  using assms
  by (auto simp: app_config_decode_def decode_database_def decode_amqp_def decode_http_def and_then_Inr_iff required_key_def
      decode_accounts_names split: option.splits)

text \<open>Where no tuning key is given, the decoded configuration has exactly the defaults.\<close>

definition tuning_keys :: "string list" where
  "tuning_keys =
     [''database.pool_size'', ''amqp.max_rl_waits'', ''amqp.max_recipients_per_event'', ''http.allow_unauthenticated'',
      ''rate_limit.emails_per_second'', ''rate_limit.burst_size'', ''template_cache_ttl_secs'', ''block_list_cache_ttl_secs'',
      ''stale_pending_timeout_secs'', ''stale_pending_reaper_interval_secs'', ''max_attachment_bytes'', ''shutdown_timeout_secs'']"

lemma decoded_section_defaults:
  "decode_database rd src = Ok d \<Longrightarrow> src ''database.pool_size'' = None \<Longrightarrow> dc_pool_size d = 10"
  "decode_amqp rd src = Ok q \<Longrightarrow> src ''amqp.max_rl_waits'' = None \<Longrightarrow> aq_max_rl_waits q = 5"
  "decode_amqp rd src = Ok q \<Longrightarrow> src ''amqp.max_recipients_per_event'' = None \<Longrightarrow> aq_max_recipients_per_event q = 500"
  "decode_http rd src = Ok h \<Longrightarrow> src ''http.allow_unauthenticated'' = None \<Longrightarrow> \<not> hc_allow_unauthenticated h"
  "decode_rate_limit rd src = Ok l \<Longrightarrow> src ''rate_limit.emails_per_second'' = None \<Longrightarrow> src ''rate_limit.burst_size'' = None \<Longrightarrow> l = rate_limit_default"
  by (auto simp: decode_database_def decode_amqp_def decode_http_def decode_rate_limit_def rate_limit_default_def and_then_Inr_iff default_key_def)

lemma decoded_defaults:
  assumes "app_config_decode rd src = Ok cfg" "\<forall>key \<in> set tuning_keys. src key = None"
  shows "apply_defaults no_tuning cfg = cfg"
proof -
  from assms(2) have keys: "src ''database.pool_size'' = None" "src ''amqp.max_rl_waits'' = None"
    "src ''amqp.max_recipients_per_event'' = None" "src ''http.allow_unauthenticated'' = None"
    "src ''rate_limit.emails_per_second'' = None" "src ''rate_limit.burst_size'' = None" "src ''template_cache_ttl_secs'' = None"
    "src ''block_list_cache_ttl_secs'' = None" "src ''stale_pending_timeout_secs'' = None"
    "src ''stale_pending_reaper_interval_secs'' = None" "src ''max_attachment_bytes'' = None" "src ''shutdown_timeout_secs'' = None"
    by (simp_all add: tuning_keys_def)
  from assms(1) have parts: "decode_database rd src = Ok (app_database cfg)" "decode_amqp rd src = Ok (app_amqp cfg)"
    "decode_http rd src = Ok (app_http cfg)" "decode_rate_limit rd src = Ok (app_rate_limit cfg)"
    by (auto simp: app_config_decode_def and_then_Inr_iff)
  from assms(1) have "default_key (cr_u64 rd) 300 src ''template_cache_ttl_secs'' = Ok (app_template_cache_ttl_secs cfg)"
    "default_key (cr_u64 rd) 30 src ''block_list_cache_ttl_secs'' = Ok (app_block_list_cache_ttl_secs cfg)"
    "default_key (cr_u64 rd) 600 src ''stale_pending_timeout_secs'' = Ok (app_stale_pending_timeout_secs cfg)"
    "default_key (cr_u64 rd) 300 src ''stale_pending_reaper_interval_secs'' = Ok (app_stale_pending_reaper_interval_secs cfg)"
    "default_key (cr_usize rd) (10 * 1024 * 1024) src ''max_attachment_bytes'' = Ok (app_max_attachment_bytes cfg)"
    "default_key (cr_u64 rd) 30 src ''shutdown_timeout_secs'' = Ok (app_shutdown_timeout_secs cfg)"
    by (auto simp: app_config_decode_def and_then_Inr_iff)
  with keys have plain: "app_template_cache_ttl_secs cfg = 300" "app_block_list_cache_ttl_secs cfg = 30"
    "app_stale_pending_timeout_secs cfg = 600" "app_stale_pending_reaper_interval_secs cfg = 300"
    "app_max_attachment_bytes cfg = 10 * 1024 * 1024" "app_shutdown_timeout_secs cfg = 30"
    by (simp_all add: default_key_def)
  note d = decoded_section_defaults(1) [OF parts(1)] decoded_section_defaults(2,3) [OF parts(2)]
    decoded_section_defaults(4) [OF parts(3)] decoded_section_defaults(5) [OF parts(4)]
  show ?thesis
    by (rule AppConfig.equality) (simp_all add: apply_defaults_def no_tuning_def or_default_def keys plain d)
qed

section \<open>Properties\<close>

lemma build_service_key: "build_service env cfg w1 = Ok sv \<Longrightarrow> sv_api_key sv = hc_api_key (app_http cfg)"
  by (auto simp: build_service_def and_then_Inr_iff Let_def)

lemma service_main_Ok:
  assumes "service_main w = Ok r"
  obtains src warnings where "load_layers (mw_file w) Map.empty (mw_env w) None = Ok src"
    "app_config_decode (mw_reader w) src = Ok (mr_config r)" "app_config_validate (mr_config r) = Ok warnings"
    "build_service (mw_startup w) (mr_config r) warnings = Ok (mr_service r)"
    "mr_end r = await_shutdown w (mr_config r)"
  using assms
  by (auto simp: service_main_def app_config_load_def and_then_Inr_iff with_context_def split: sum.splits prod.splits)

text \<open>
  C16. A process that comes up is configured soundly and by its sources: its configuration is decoded from the two files and the
  environment, where the environment wins over the local file and that over the default file; its API key is the one
  they give, and without one it runs only if that was allowed explicitly; consumer, retry budget and senders are sound in the
  sense of \<open>service_sound\<close>. It exits after the first signal and not before, and reports a graceful shutdown exactly
  if API, consumer and reaper all end within the configured time. The account tables of the sources have distinct names.
\<close>

theorem running_service_sound:
  assumes "service_main w = Ok r" "\<forall>src. distinct (cr_accounts (mw_reader w) src)"
  shows "service_sound (mr_config r) (mr_service r) \<and>
    (\<exists>src. src = file_keys (mw_file w ''config/default'') ++ file_keys (mw_file w ''config/local'') ++ mw_env w \<and>
       app_config_decode (mw_reader w) src = Ok (mr_config r) \<and> sv_api_key (mr_service r) = src ''http.api_key'') \<and>
    (mr_end r \<noteq> None \<longleftrightarrow> mw_signal w \<noteq> None) \<and>
    (mr_end r = Some ShutdownComplete \<longleftrightarrow> mw_signal w \<noteq> None \<and>
       (\<forall>x \<in> {mw_api_end w, mw_consumer_end w, mw_reaper_end w}.
          \<exists>n \<le> unat (app_shutdown_timeout_secs (mr_config r)) * 1000. x = Some n))"
proof -
  from assms(1) obtain src warnings where l: "load_layers (mw_file w) Map.empty (mw_env w) None = Ok src"
    and d: "app_config_decode (mw_reader w) src = Ok (mr_config r)" and v: "app_config_validate (mr_config r) = Ok warnings"
    and b: "build_service (mw_startup w) (mr_config r) warnings = Ok (mr_service r)"
    and e: "mr_end r = await_shutdown w (mr_config r)"
    by (rule service_main_Ok)
  have "start_service (mw_startup w) (mr_config r) = Ok (mr_service r)" using v b by (simp add: start_service_def with_context_def)
  then have "service_sound (mr_config r) (mr_service r)"
    using assms(2) decoded_fields [OF d] by (intro started_service_sound) simp_all
  moreover have "sv_api_key (mr_service r) = hc_api_key (app_http (mr_config r))"
    using b by (rule build_service_key)
  moreover have "mr_end r = Some ShutdownComplete \<longleftrightarrow> mw_signal w \<noteq> None \<and>
       (\<forall>x \<in> {mw_api_end w, mw_consumer_end w, mw_reaper_end w}.
          \<exists>n \<le> unat (app_shutdown_timeout_secs (mr_config r)) * 1000. x = Some n)"
    using shutdown_complete_iff by (auto simp: e await_shutdown_def split: option.splits)
  moreover have "mr_end r \<noteq> None \<longleftrightarrow> mw_signal w \<noteq> None" by (auto simp: e await_shutdown_def split: option.splits)
  ultimately show ?thesis using load_sources [OF l] d decoded_fields [OF d] by auto
qed

text \<open>A process with its secrets in the environment, which overrides the key of the default file.\<close>

definition sample_reader :: config_reader where
  "sample_reader =
     \<lparr>cr_u16 = (\<lambda>_ _. Some 8080), cr_u32 = (\<lambda>_ _. Some 3), cr_u64 = (\<lambda>_ _. Some 1000), cr_usize = (\<lambda>_ _. Some 10),
      cr_bool = (\<lambda>_ v. Some (v = ''true'')), cr_tls = (\<lambda>_ _. None), cr_list = (\<lambda>_ v. Some [v]), cr_accounts = (\<lambda>_. [])\<rparr>"

definition sample_file :: config_source where
  "sample_file =
     [''database.url'' \<mapsto> ''db'', ''amqp.url'' \<mapsto> ''amqp'', ''amqp.queue'' \<mapsto> ''q'', ''amqp.exchange'' \<mapsto> ''x'',
      ''amqp.routing_key'' \<mapsto> ''k'', ''amqp.max_retries'' \<mapsto> ''3'', ''amqp.retry_base_ms'' \<mapsto> ''1000'', ''amqp.max_concurrency'' \<mapsto> ''10'',
      ''mailer.backend'' \<mapsto> ''webhook'', ''mailer.url'' \<mapsto> ''https://h'', ''http.port'' \<mapsto> ''8080'', ''http.api_key'' \<mapsto> ''dev'']"

definition sample_main_world :: main_world where
  "sample_main_world =
     \<lparr>mw_var = (\<lambda>_. None), mw_open_socket = (\<lambda>_. Ok ()), mw_reader = sample_reader,
      mw_file = (\<lambda>name. if name = ''config/default'' then FileSource sample_file else FileMissing),
      mw_env = [''http.api_key'' \<mapsto> ''secret''], mw_startup = sample_startup, mw_handler_ok = True, mw_signal = Some SigTerm,
      mw_api_end = Some 5, mw_consumer_end = Some 900, mw_reaper_end = Some 5\<rparr>"

definition sample_loaded :: AppConfig where
  "sample_loaded = sample_app_config\<lparr>app_sender_accounts := [],
     app_http := \<lparr>hc_port = 8080, hc_api_key = Some ''secret'', hc_allow_unauthenticated = False\<rparr>\<rparr>"

lemma sample_decodes: "app_config_decode sample_reader (sample_file(''http.api_key'' \<mapsto> ''secret'')) = Ok sample_loaded"
  by (simp add: app_config_decode_def decode_database_def decode_amqp_def decode_http_def decode_mailer_def decode_rate_limit_def
      decode_filter_def required_key_def parsed_key_def default_key_def optional_key_def convert_def sample_reader_def sample_file_def
      sample_loaded_def sample_app_config_def rate_limit_default_def)

lemma sample_starts: "is_ok (start_service sample_startup sample_loaded)"
  by (simp add: sample_loaded_def sample_startup_defs Let_def)

lemma sample_main_runs: "\<exists>r. service_main sample_main_world = Ok r \<and> mr_config r = sample_loaded"
proof -
  have low: "ascii_lowercase ''json'' = ''json''" by code_simp
  have sink: "service_log_sink ascii_lowercase (\<lambda>_. Ok ()) (\<lambda>_. None) = Ok JsonSink"
    by (simp add: service_log_sink_def log_format_def or_default_def low Let_def)
  from sample_starts obtain sv warnings where "app_config_validate sample_loaded = Ok warnings" "build_service sample_startup sample_loaded warnings = Ok sv"
    by (auto simp: start_service_def is_ok_def and_then_Inr_iff with_context_def split: sum.splits)
  then show ?thesis
    by (simp add: service_main_def sample_main_world_def sample_startup_def sink app_config_load_def load_layers_def read_source_def
        layered_def sample_decodes with_context_def step_ok_def)
qed

theorem running_service_sound_witness:
  "\<exists>r. service_main sample_main_world = Ok r \<and> sv_api_key (mr_service r) = Some ''secret'' \<and> mr_end r = Some ShutdownComplete \<and>
     service_sound (mr_config r) (mr_service r)"
proof -
  from sample_main_runs obtain r where r: "service_main sample_main_world = Ok r" "mr_config r = sample_loaded" by blast
  have "app_shutdown_timeout_secs sample_loaded = 30" by (simp add: sample_loaded_def sample_app_config_def)
  moreover have "distinct (cr_accounts (mw_reader sample_main_world) src)" for src by (simp add: sample_main_world_def sample_reader_def)
  ultimately show ?thesis using running_service_sound [OF r(1)] r by (auto simp: sample_main_world_def)
qed

end
