(* ===== verification/Anctl.thy ===== *)
theory Anctl
  imports Cli_Queries Api_Routes Mailer Mcp Config_Layers
begin

text \<open>
  \<^verbatim>\<open>crates/anctl\<close>: the operator's command line, after its arguments are parsed. A command is the request it sends to the HTTP
  interface with its reading of the response, the query it runs on a database, or the event it hands to the
  broker. Its result is an error or what it prints; what a failing command printed before is not kept. The answers to prompts,
  file contents and the texts of the libraries (status names, rendered JSON, formatted times) are arguments.
\<close>

section \<open>output.rs\<close>

text \<open>A byte that continues a UTF-8 sequence; the characters of a text are its other bytes with what follows.\<close>

definition continuation_byte :: "char \<Rightarrow> bool" where
  "continuation_byte c \<longleftrightarrow> 128 \<le> (of_char c :: nat) \<and> (of_char c :: nat) < 192"

fun take_chars :: "nat \<Rightarrow> string \<Rightarrow> string" where
  "take_chars n [] = []"
| "take_chars n (c # s) =
     (if continuation_byte c then c # take_chars n s
      else case n of 0 \<Rightarrow> [] | Suc m \<Rightarrow> c # take_chars m s)"

definition truncate_text :: "string \<Rightarrow> nat \<Rightarrow> string" where
  "truncate_text s n = (let t = take_chars n s in if length t < length s then t @ [CHR 0xE2, CHR 0x80, CHR 0xA6] else t)"

definition opt :: "string option \<Rightarrow> string" where
  "opt s = or_default em_dash s"

datatype OutputFormat = TableFormat | JsonFormat

text \<open>Printed lines, a table of cells (headed by the columns' titles), or JSON.\<close>

datatype cli_output = Printed "string list" | PrintedTable "string list list" | PrintedJson json

text \<open>A row of a table: the title of each column, the name of the field and its value.\<close>

type_synonym display_row = "(string \<times> string \<times> json) list"

fun cell_text :: "json \<Rightarrow> string" where
  "cell_text (JStr s) = s"
| "cell_text (JInt i) = int_to_string i"
| "cell_text (JBool b) = (if b then ''true'' else ''false'')"
| "cell_text _ = []"

definition print_table :: "display_row list \<Rightarrow> cli_output" where
  "print_table rows =
     (case rows of
        [] \<Rightarrow> Printed [''(no results)'']
      | r # _ \<Rightarrow> PrintedTable (map fst r # map (map (cell_text \<circ> snd \<circ> snd)) rows))"

definition print_json :: "display_row list \<Rightarrow> cli_output" where
  "print_json rows = PrintedJson (JArr (map (JObj \<circ> map snd) rows))"

definition print_rows :: "OutputFormat \<Rightarrow> display_row list \<Rightarrow> cli_output" where
  "print_rows fmt rows = (case fmt of JsonFormat \<Rightarrow> print_json rows | TableFormat \<Rightarrow> print_table rows)"

section \<open>config.rs\<close>

record CliConfig =
  cc_database_url :: string
  cc_amqp :: McpAmqpConfig
  cc_http_port :: u16
  cc_http_api_key :: "string option"
  cc_outbox_database_url :: "string option"
  cc_api_url :: "string option"

definition local_url :: "CliConfig \<Rightarrow> string" where
  "local_url cfg = ''http://localhost:'' @ nat_to_string (unat (cc_http_port cfg))"

definition api_base_url :: "CliConfig \<Rightarrow> string" where
  "api_base_url self = or_default (local_url self) (cc_api_url self)"

text \<open>Loading; the port is converted by the crate.\<close>

definition cli_defaults :: config_source where
  "cli_defaults = amqp_defaults(''http.port'' \<mapsto> ''8080'')"

definition cli_load ::
  "(string \<Rightarrow> config_file) \<Rightarrow> (string \<Rightarrow> u16 option) \<Rightarrow> config_source \<Rightarrow> string option \<Rightarrow> string + CliConfig" where
  "cli_load file parse_u16 env path =
     and_then (load_layers file cli_defaults env path) (\<lambda>src.
     and_then (required_key src ''database.url'') (\<lambda>db.
     and_then (required_key src ''amqp.url'') (\<lambda>url.
     and_then (required_key src ''amqp.exchange'') (\<lambda>exchange.
     and_then (required_key src ''amqp.routing_key'') (\<lambda>routing_key.
     and_then (required_key src ''http.port'') (\<lambda>port.
       case parse_u16 port of
         None \<Rightarrow> Err ''Failed to parse config''
       | Some p \<Rightarrow>
           Ok \<lparr>cc_database_url = db, cc_amqp = \<lparr>mq_url = url, mq_exchange = exchange, mq_routing_key = routing_key\<rparr>,
               cc_http_port = p, cc_http_api_key = src ''http.api_key'', cc_outbox_database_url = src ''outbox_database_url'',
               cc_api_url = src ''api_url''\<rparr>))))))"

text \<open>The \<^verbatim>\<open>Authorization\<close> header that \<^verbatim>\<open>bearer_auth\<close> sets.\<close>

definition cli_authorization :: "CliConfig \<Rightarrow> string option" where
  "cli_authorization cfg = map_option (\<lambda>key. ''Bearer '' @ key) (cc_http_api_key cfg)"

text \<open>The environment of a command: the service at a base URL, asked with an \<^verbatim>\<open>Authorization\<close> header and for an
  endpoint, which answers or is not reached; and the answer to a yes-or-no prompt, if it can be shown.\<close>

record cli_env =
  ce_http :: "string \<Rightarrow> string option \<Rightarrow> api_request \<Rightarrow> response option"
  ce_confirm :: "bool option"
  ce_status_text :: "nat \<Rightarrow> string"
  ce_json_text :: "json \<Rightarrow> string"
  ce_format_time :: "datetime \<Rightarrow> string"

definition http_send :: "cli_env \<Rightarrow> string \<Rightarrow> CliConfig \<Rightarrow> api_request \<Rightarrow> (response \<Rightarrow> string + 'a) \<Rightarrow> string + 'a" where
  "http_send env base cfg req k =
     (case ce_http env base (cli_authorization cfg) req of None \<Rightarrow> Err ''HTTP request failed'' | Some r \<Rightarrow> k r)"

definition response_text :: "cli_env \<Rightarrow> response \<Rightarrow> string" where
  "response_text env r = (case rs_body r of None \<Rightarrow> or_default [] (rs_text r) | Some j \<Rightarrow> ce_json_text env j)"

text \<open>The body as JSON, null where it is none.\<close>

definition body_or_null :: "response \<Rightarrow> json" where
  "body_or_null r = or_default JNull (rs_body r)"

definition http_failed :: "cli_env \<Rightarrow> string \<Rightarrow> response \<Rightarrow> string \<Rightarrow> string" where
  "http_failed env what r detail = what @ '' failed (HTTP '' @ ce_status_text env (rs_status r) @ ''): '' @ detail"

definition check_mark :: string where
  "check_mark = [CHR 0xE2, CHR 0x9C, CHR 0x93]"

fun json_as_i64 :: "json \<Rightarrow> int option" where
  "json_as_i64 (JInt i) = (if - (2 ^ 63) \<le> i \<and> i < 2 ^ 63 then Some i else None)"
| "json_as_i64 _ = None"

definition get_i64 :: "string \<Rightarrow> json \<Rightarrow> int option" where
  "get_i64 key j = Option.bind (json_get key j) json_as_i64"

definition get_u64 :: "string \<Rightarrow> json \<Rightarrow> nat option" where
  "get_u64 key j = Option.bind (json_get key j) json_as_u64"

section \<open>cmd/blocklist.rs\<close>

datatype BlocklistAction =
    BlList
  | BlAdd string string "string option"
  | BlRemove int
  | BlFlush
  | BlReload

text \<open>The endpoint that method and path select.\<close>

fun blocklist_request :: "BlocklistAction \<Rightarrow> api_request" where
  "blocklist_request BlList = GetBlocklist"
| "blocklist_request (BlAdd kind v reason) =
     PostBlocklist (JObj [(''kind'', JStr kind), (''value'', JStr v), (''reason'', enc_option JStr reason)])"
| "blocklist_request (BlRemove i) = DeleteBlocklistEntry i"
| "blocklist_request BlFlush = DeleteBlocklistCache"
| "blocklist_request BlReload = PostBlocklistCache"

definition blocklist_row :: "json \<Rightarrow> display_row" where
  "blocklist_row e =
     [(''ID'', ''id'', JInt (or_default 0 (get_i64 ''id'' e))), (''Kind'', ''kind'', JStr (or_default [] (get_str ''kind'' e))),
      (''Value'', ''value'', JStr (or_default [] (get_str ''value'' e))), (''Reason'', ''reason'', JStr (or_default [] (get_str ''reason'' e))),
      (''Created'', ''created_at'', JStr (or_default [] (get_str ''created_at'' e)))]"

definition json_error_or_unknown :: "response \<Rightarrow> string" where
  "json_error_or_unknown r = or_default ''unknown error'' (get_str ''error'' (body_or_null r))"

fun blocklist_report :: "cli_env \<Rightarrow> OutputFormat \<Rightarrow> BlocklistAction \<Rightarrow> response \<Rightarrow> string + cli_output list" where
  "blocklist_report env fmt BlList r =
     (if \<not> is_success (rs_status r) then Err (http_failed env ''List'' r (response_text env r))
      else case Option.bind (rs_body r) json_as_array of
             None \<Rightarrow> Err ''Failed to parse response''
           | Some entries \<Rightarrow>
               if entries = [] then Ok [Printed [''(no active block/allow-list entries)'']]
               else Ok [case fmt of
                          JsonFormat \<Rightarrow> PrintedJson (JArr entries)
                        | TableFormat \<Rightarrow> print_table (map blocklist_row entries)])"
| "blocklist_report env fmt (BlAdd kind v reason) r =
     (if is_success (rs_status r)
      then Ok [Printed [check_mark @ '' Entry added (id='' @ int_to_string (or_default 0 (get_i64 ''id'' (body_or_null r))) @ ''): ''
             @ kind @ '' '' @ quote v]]
      else Err (http_failed env ''Add'' r (json_error_or_unknown r)))"
| "blocklist_report env fmt (BlRemove i) r =
     (if is_success (rs_status r) then Ok [Printed [check_mark @ '' Entry '' @ int_to_string i @ '' removed (soft-deleted).'']]
      else Err (http_failed env ''Remove'' r (response_text env r)))"
| "blocklist_report env fmt BlFlush r =
     (if is_success (rs_status r) then Ok [Printed [check_mark @ '' Block-list cache evicted. Next check will reload from DB.'']]
      else Err (http_failed env ''Flush'' r (response_text env r)))"
| "blocklist_report env fmt BlReload r =
     (if is_success (rs_status r)
      then Ok [Printed [check_mark @ '' Block-list cache reloaded (''
             @ nat_to_string (or_default 0 (get_u64 ''entry_count'' (body_or_null r))) @ '' active entries).'']]
      else Err (http_failed env ''Reload'' r (json_error_or_unknown r)))"

definition blocklist_run :: "cli_env \<Rightarrow> CliConfig \<Rightarrow> OutputFormat \<Rightarrow> BlocklistAction \<Rightarrow> string + cli_output list" where
  "blocklist_run env cfg fmt action = http_send env (api_base_url cfg) cfg (blocklist_request action) (blocklist_report env fmt action)"

section \<open>cmd/retry.rs\<close>

definition retry_request :: "uuid \<Rightarrow> string option \<Rightarrow> api_request" where
  "retry_request event_id email = (case email of Some e \<Rightarrow> PostRetryRecipient event_id e | None \<Rightarrow> PostRetryEvent event_id)"

definition retry_report :: "cli_env \<Rightarrow> response \<Rightarrow> string + cli_output list" where
  "retry_report env r =
     (let body = body_or_null r
      in if is_success (rs_status r)
         then Ok [Printed ((check_mark @ '' '' @ or_default ''OK'' (get_str ''message'' body))
                # (case get_u64 ''recipientsReset'' body of Some n \<Rightarrow> [''  Recipients reset: '' @ nat_to_string n] | None \<Rightarrow> [])
                @ (case get_str ''eventId'' body of Some i \<Rightarrow> [''  Event ID        : '' @ i] | None \<Rightarrow> []))]
         else Err (http_failed env ''Retry'' r
                (or_default ''unknown error'' (case get_str ''error'' body of Some e \<Rightarrow> Some e | None \<Rightarrow> json_as_str body))))"

text \<open>A prompt unless \<^verbatim>\<open>--yes\<close>; the request goes to the local port whatever \<^verbatim>\<open>api_url\<close> is.\<close>

definition confirmed :: "cli_env \<Rightarrow> bool \<Rightarrow> (unit \<Rightarrow> string + cli_output list) \<Rightarrow> string + cli_output list" where
  "confirmed env yes k =
     (if yes then k ()
      else case ce_confirm env of
             None \<Rightarrow> Err ''Prompt failed''
           | Some ok \<Rightarrow> if ok then k () else Ok [Printed [''Aborted.'']])"

definition retry_run :: "cli_env \<Rightarrow> CliConfig \<Rightarrow> uuid \<Rightarrow> string option \<Rightarrow> bool \<Rightarrow> string + cli_output list" where
  "retry_run env cfg event_id email yes =
     confirmed env yes (\<lambda>_. http_send env (local_url cfg) cfg (retry_request event_id email) (retry_report env))"

section \<open>cmd/status.rs, logs.rs, outbox.rs\<close>

definition status_row :: "cli_env \<Rightarrow> RecipientStatusRow \<Rightarrow> display_row" where
  "status_row env r =
     [(''Email'', ''email'', JStr (rsr_recipient_email r)), (''Status'', ''status'', JStr (rsr_status r)),
      (''Retries'', ''retry_count'', JInt (rsr_retry_count r)), (''Last Error'', ''last_error'', JStr (opt (rsr_last_error r))),
      (''Updated'', ''updated_at'', JStr (ce_format_time env (rsr_updated_at r)))]"

definition status_summary :: "uuid \<Rightarrow> RecipientStatusRow list \<Rightarrow> cli_output" where
  "status_summary event_id rows =
     (let n = (\<lambda>st. length (filter (\<lambda>r. rsr_status r = st) rows)); skipped = n ''SKIPPED''
      in Printed [''Event: '' @ event_id,
          ''Total: '' @ nat_to_string (length rows) @ ''  Sent: '' @ nat_to_string (n ''SENT'')
            @ ''  Pending: '' @ nat_to_string (n ''PENDING'') @ ''  Failed: '' @ nat_to_string (n ''FAILED'')
            @ ''  Blocked: '' @ nat_to_string (n ''BLOCKED'')
            @ (if skipped > 0 then ''  Skipped: '' @ nat_to_string skipped else []), []])"

text \<open>The fault is that of the connection or of the query.\<close>

definition status_run ::
  "cli_env \<Rightarrow> db_fault \<Rightarrow> OutputFormat \<Rightarrow> uuid \<Rightarrow> string option \<Rightarrow> log_db \<Rightarrow> string + cli_output list" where
  "status_run env fault fmt event_id email db =
     (case email of
        Some e \<Rightarrow>
          and_then (get_status_for_recipient fault event_id e db) (\<lambda>row.
            Ok (case row of
                  None \<Rightarrow> [Printed [''No record found for '' @ e @ '' in event '' @ event_id]]
                | Some r \<Rightarrow> [print_rows fmt [status_row env r]]))
      | None \<Rightarrow>
          and_then (get_status_for_event fault event_id db) (\<lambda>rows.
            Ok (if rows = [] then [Printed [''No records found for event '' @ event_id]]
                else (case fmt of TableFormat \<Rightarrow> [status_summary event_id rows] | JsonFormat \<Rightarrow> [])
                     @ [print_rows fmt (map (status_row env) rows)])))"

record LogsArgs =
  la_status :: "string option"
  la_event_type :: "string option"
  la_email :: "string option"
  la_limit :: int
  la_full_error :: bool

definition like_filter :: "string option \<Rightarrow> string" where
  "like_filter m = ''%'' @ or_default [] m @ ''%''"

text \<open>No text has more than \<^verbatim>\<open>usize::MAX\<close> characters: \<^verbatim>\<open>--full-error\<close> and \<^verbatim>\<open>--full-payload\<close> cut nothing.\<close>

definition preview :: "bool \<Rightarrow> nat \<Rightarrow> string \<Rightarrow> string" where
  "preview full n s = (if full then s else truncate_text s n)"

definition logs_row :: "cli_env \<Rightarrow> bool \<Rightarrow> NotificationLogRow \<Rightarrow> display_row" where
  "logs_row env full_error r =
     [(''Event ID'', ''event_id'', JStr (nr_event_id r)), (''Type'', ''event_type'', JStr (nr_event_type r)),
      (''Recipient'', ''recipient'', JStr (nr_recipient_email r)), (''Status'', ''status'', JStr (nr_status r)),
      (''Retries'', ''retry_count'', JInt (nr_retry_count r)),
      (''Last Error'', ''last_error'', JStr (case nr_last_error r of None \<Rightarrow> em_dash | Some e \<Rightarrow> preview full_error 60 e)),
      (''Updated'', ''updated_at'', JStr (ce_format_time env (nr_updated_at r)))]"

definition logs_run ::
  "(string \<Rightarrow> string \<Rightarrow> bool) \<Rightarrow> cli_env \<Rightarrow> db_fault \<Rightarrow> OutputFormat \<Rightarrow> LogsArgs \<Rightarrow> log_db \<Rightarrow> string + cli_output list" where
  "logs_run ilike env fault fmt a db =
     and_then (list_notification_logs ilike fault (la_status a) (like_filter (la_event_type a)) (like_filter (la_email a)) (la_limit a) db) (\<lambda>rows.
       Ok [if rows = [] then Printed [''(no results)''] else print_rows fmt (map (logs_row env (la_full_error a)) rows)])"

definition outbox_display_row :: "cli_env \<Rightarrow> bool \<Rightarrow> CliOutboxRow \<Rightarrow> display_row" where
  "outbox_display_row env full_payload r =
     [(''Event ID'', ''event_id'', JStr (xr_event_id r)), (''Type'', ''event_type'', JStr (xr_event_type r)),
      (''Status'', ''status'', JStr (xr_status r)), (''Fails'', ''fail_count'', JInt (xr_fail_count r)),
      (''Payload (preview)'', ''payload_preview'', JStr (preview full_payload 80 (ce_json_text env (xr_payload r)))),
      (''Created'', ''created_at'', JStr (ce_format_time env (xr_created_at r))),
      (''Published'', ''published_at'', JStr (case xr_published_at r of None \<Rightarrow> em_dash | Some t \<Rightarrow> ce_format_time env t))]"

definition outbox_run ::
  "cli_env \<Rightarrow> db_fault \<Rightarrow> CliConfig \<Rightarrow> OutputFormat \<Rightarrow> outbox_status \<Rightarrow> int \<Rightarrow> bool \<Rightarrow> outbox_table \<Rightarrow> string + cli_output list" where
  "outbox_run env fault cfg fmt status limit full_payload rows =
     (case cc_outbox_database_url cfg of
        None \<Rightarrow> Err (''outbox_database_url is not configured.'' @ CHR 0x0A # ''Set AN__OUTBOX_DATABASE_URL or add outbox_database_url to config/local.toml.'')
      | Some _ \<Rightarrow>
          and_then (list_outbox_rows fault (outbox_status_text status) limit rows) (\<lambda>rs.
            Ok [if rs = [] then Printed [''(no '' @ outbox_status_text status @ '' outbox rows)'']
                else print_rows fmt (map (outbox_display_row env full_payload) rs)]))"

section \<open>cmd/health.rs\<close>

definition trim_slashes :: "string \<Rightarrow> string" where
  "trim_slashes s = rev (dropWhile (\<lambda>c. c = CHR ''/'') (rev s))"

text \<open>One probe, asked without a token: its lines and whether it succeeded.\<close>

definition check_endpoint :: "cli_env \<Rightarrow> string \<Rightarrow> string \<Rightarrow> api_request \<Rightarrow> string + string list \<times> bool" where
  "check_endpoint env base path req =
     (case ce_http env base None req of
        None \<Rightarrow> Err (''error sending request for url ('' @ base @ path @ '')'')
      | Some r \<Rightarrow>
          (let body = response_text env r; lines = (if body = [] then [] else [body])
           in if is_success (rs_status r) then Ok ((''OK  '' @ base @ path) # lines, True)
              else Ok ((''UNHEALTHY  '' @ base @ path @ ''  (HTTP '' @ ce_status_text env (rs_status r) @ '')'') # lines, False)))"

text \<open>The flag is whether the process ends with success.\<close>

definition health_run :: "cli_env \<Rightarrow> CliConfig \<Rightarrow> string option \<Rightarrow> bool \<Rightarrow> string + string list \<times> bool" where
  "health_run env cfg api_url check_ready =
     (let base = trim_slashes (or_default (local_url cfg) api_url) in
      and_then (check_endpoint env base ''/health'' GetHealth) (\<lambda>(lines, ok).
        if check_ready
        then and_then (check_endpoint env base ''/ready'' GetReady) (\<lambda>(lines', ok'). Ok (lines @ lines', ok \<and> ok'))
        else Ok (lines, ok)))"

section \<open>cmd/template.rs: template files\<close>

record J2Sections =
  j2_subject :: string
  j2_body_html :: string
  j2_body_text :: string

definition subject_marker :: string where
  "subject_marker = ''{# subject #}''"

definition html_marker :: string where
  "html_marker = ''{# body_html #}''"

definition text_marker :: string where
  "text_marker = ''{# body_text #}''"

definition markers :: "string list" where
  "markers = [subject_marker, html_marker, text_marker]"

text \<open>\<^verbatim>\<open>str::lines\<close>: a carriage return before a line feed belongs to the line end; a last empty line is dropped.\<close>

definition strip_cr :: "string \<Rightarrow> string" where
  "strip_cr l = (if l \<noteq> [] \<and> last l = CHR 0x0D then butlast l else l)"

definition str_lines :: "string \<Rightarrow> string list" where
  "str_lines s =
     (let ps = split_str (CHR 0x0A) s in map strip_cr (butlast ps) @ (if last ps = [] then [] else [last ps]))"

record j2_state =
  js_sections :: "(string \<times> string) list"
  js_current :: "string option"
  js_buf :: string

text \<open>The sections read so far, by their marker.\<close>

definition store_section :: "string \<Rightarrow> string \<Rightarrow> (string \<times> string) list \<Rightarrow> string + (string \<times> string) list" where
  "store_section marker content secs =
     (if map_of secs marker \<noteq> None then Err (''duplicate '' @ marker @ '' section'') else Ok (secs @ [(marker, content)]))"

definition close_section :: "j2_state \<Rightarrow> string + (string \<times> string) list" where
  "close_section st =
     (case js_current st of None \<Rightarrow> Ok (js_sections st) | Some m \<Rightarrow> store_section m (trim (js_buf st)) (js_sections st))"

definition push_line :: "string \<Rightarrow> string \<Rightarrow> string" where
  "push_line buf line = (if buf \<noteq> [] then buf @ CHR 0x0A # line else line)"

fun parse_j2_lines :: "string list \<Rightarrow> j2_state \<Rightarrow> string + (string \<times> string) list" where
  "parse_j2_lines [] st = close_section st"
| "parse_j2_lines (line # rest) st =
     (let trimmed = trim line in
      if trimmed \<in> set markers
      then and_then (close_section st) (\<lambda>secs.
             parse_j2_lines rest \<lparr>js_sections = secs, js_current = Some trimmed, js_buf = []\<rparr>)
      else if js_current st \<noteq> None then parse_j2_lines rest (st\<lparr>js_buf := push_line (js_buf st) line\<rparr>)
      else parse_j2_lines rest st)"

definition section_of :: "string \<Rightarrow> (string \<times> string) list \<Rightarrow> string + string" where
  "section_of marker secs =
     (case map_of secs marker of None \<Rightarrow> Err (''missing '' @ marker @ '' section'') | Some c \<Rightarrow> Ok c)"

definition parse_j2 :: "string \<Rightarrow> string + J2Sections" where
  "parse_j2 content =
     and_then (parse_j2_lines (str_lines content) \<lparr>js_sections = [], js_current = None, js_buf = []\<rparr>) (\<lambda>secs.
     and_then (section_of subject_marker secs) (\<lambda>subject.
     and_then (section_of html_marker secs) (\<lambda>body_html.
     and_then (section_of text_marker secs) (\<lambda>body_text.
       Ok \<lparr>j2_subject = subject, j2_body_html = body_html, j2_body_text = body_text\<rparr>))))"

definition validate_j2_syntax :: "jinja \<Rightarrow> J2Sections \<Rightarrow> string list" where
  "validate_j2_syntax j s =
     List.map_filter (\<lambda>(name, src). case jinja_parse j EscapeNone src of Inl e \<Rightarrow> Some (name @ '': '' @ je_text e) | Inr _ \<Rightarrow> None)
       [(''subject'', j2_subject s), (''body_html'', j2_body_html s), (''body_text'', j2_body_text s)]"

section \<open>cmd/template.rs: the subcommands\<close>

datatype TemplateAction =
    TplList
  | TplShow string
  | TplActivate string string bool
  | TplFlush "string option"

fun template_request :: "TemplateAction \<Rightarrow> api_request" where
  "template_request TplList = GetTemplates"
| "template_request (TplShow ty) = GetTemplateOf ty"
| "template_request (TplActivate ty channel disable) =
     PatchTemplate ty (JObj [(''channel'', JStr channel), (''active'', JBool (\<not> disable))])"
| "template_request (TplFlush m) = (case m of Some ty \<Rightarrow> DeleteTemplateCacheOf ty | None \<Rightarrow> DeleteTemplateCache)"

text \<open>An entry that lacks a field of the listing is left out.\<close>

definition template_list_row :: "json \<Rightarrow> display_row option" where
  "template_list_row t =
     Option.bind (get_str ''event_type'' t) (\<lambda>ty.
     Option.bind (get_str ''channel'' t) (\<lambda>channel.
     Option.bind (get_str ''subject'' t) (\<lambda>subject.
     Option.bind (get_i64 ''version'' t) (\<lambda>version.
     Option.bind (get_bool ''active'' t) (\<lambda>active.
     Option.bind (get_str ''updated_at'' t) (\<lambda>updated_at.
       Some [(''Type'', ''event_type'', JStr ty), (''Channel'', ''channel'', JStr channel),
             (''Subject'', ''subject'', JStr (truncate_text subject 60)), (''Ver'', ''version'', JInt version),
             (''Active'', ''active'', JBool active), (''Updated'', ''updated_at'', JStr updated_at)]))))))"

definition box_line :: string where
  "box_line = [CHR 0xE2, CHR 0x94, CHR 0x80]"

definition new_line :: string where
  "new_line = [CHR 0x0A]"

definition template_show_lines :: "string \<Rightarrow> json \<Rightarrow> string list" where
  "template_show_lines event_type t =
     [box_line @ box_line @ '' '' @ event_type @ '' / '' @ or_default ''?'' (get_str ''channel'' t) @ ''  (v''
        @ int_to_string (or_default 0 (get_i64 ''version'' t)) @ '', active=''
        @ (if or_default False (get_bool ''active'' t) then ''true'' else ''false'') @ '') '' @ box_line @ box_line,
      ''Subject:'' @ new_line @ or_default [] (get_str ''subject'' t) @ new_line,
      ''HTML body:'' @ new_line @ or_default [] (get_str ''body_html'' t) @ new_line,
      ''Text body:'' @ new_line @ or_default [] (get_str ''body_text'' t),
      concat (replicate 60 box_line)]"

text \<open>The array under \<^verbatim>\<open>templates\<close>.\<close>

definition with_templates :: "json \<Rightarrow> (json list \<Rightarrow> string + 'a) \<Rightarrow> string + 'a" where
  "with_templates j k =
     (case Option.bind (json_get ''templates'' j) json_as_array of None \<Rightarrow> Err ''Unexpected response shape'' | Some ts \<Rightarrow> k ts)"

fun template_report :: "cli_env \<Rightarrow> OutputFormat \<Rightarrow> TemplateAction \<Rightarrow> response \<Rightarrow> string + cli_output list" where
  "template_report env fmt TplList r =
     (if \<not> is_success (rs_status r) then Err (http_failed env ''List'' r (response_text env r))
      else case rs_body r of
             None \<Rightarrow> Err ''Invalid JSON response''
           | Some j \<Rightarrow> with_templates j (\<lambda>ts. Ok [print_rows fmt (List.map_filter template_list_row ts)]))"
| "template_report env fmt (TplShow ty) r =
     (if rs_status r = 404 then Err (''No template found for event type '' @ quote ty)
      else if \<not> is_success (rs_status r) then Err (http_failed env ''Show'' r (response_text env r))
      else case rs_body r of
             None \<Rightarrow> Err ''Invalid JSON response''
           | Some j \<Rightarrow>
               (case fmt of
                  JsonFormat \<Rightarrow> Ok [PrintedJson j]
                | TableFormat \<Rightarrow> with_templates j (\<lambda>ts. Ok [Printed (concat (map (template_show_lines ty) ts))])))"
| "template_report env fmt (TplActivate ty channel disable) r =
     (if rs_status r = 404
      then Err (''No template found for '' @ quote ty @ '' ('' @ channel @ ''). Create it first with `anctl template create`.'')
      else if \<not> is_success (rs_status r) then Err (http_failed env ''Activate'' r (response_text env r))
      else Ok [Printed [check_mark @ '' Template '' @ (if disable then ''deactivated'' else ''activated'') @ '' (v''
             @ int_to_string (or_default 0 (get_i64 ''version'' (body_or_null r))) @ '', HTTP '' @ ce_status_text env (rs_status r) @ '')'']])"
| "template_report env fmt (TplFlush m) r =
     (if is_success (rs_status r)
      then Ok [Printed [check_mark @ '' Template cache flushed (HTTP '' @ ce_status_text env (rs_status r) @ '')'']]
      else Err (http_failed env ''Flush'' r (response_text env r)))"

definition template_run :: "cli_env \<Rightarrow> CliConfig \<Rightarrow> OutputFormat \<Rightarrow> TemplateAction \<Rightarrow> string + cli_output list" where
  "template_run env cfg fmt action = http_send env (api_base_url cfg) cfg (template_request action) (template_report env fmt action)"

subsection \<open>template create\<close>

record CreateArgs =
  ca_event_type :: string
  ca_file :: string
  ca_channel :: string
  ca_dry_run :: bool
  ca_yes :: bool
  ca_inactive :: bool

definition create_body :: "CreateArgs \<Rightarrow> J2Sections \<Rightarrow> json" where
  "create_body a s =
     JObj [(''event_type'', JStr (ca_event_type a)), (''channel'', JStr (ca_channel a)), (''subject'', JStr (j2_subject s)),
           (''body_html'', JStr (j2_body_html s)), (''body_text'', JStr (j2_body_text s)), (''active'', JBool (\<not> ca_inactive a))]"

text \<open>The sections as they are shown before the upload.\<close>

definition create_preview :: "CreateArgs \<Rightarrow> J2Sections \<Rightarrow> string list" where
  "create_preview a s =
     [''Event type : '' @ ca_event_type a, ''Channel    : '' @ ca_channel a,
      ''Active     : '' @ (if ca_inactive a then ''false'' else ''true''), ''File       : '' @ ca_file a, [],
      ''Subject :'', j2_subject s, [], ''HTML body :'', j2_body_html s, [], ''Text body :'', j2_body_text s,
      concat (replicate 60 box_line)]"

definition create_report :: "cli_env \<Rightarrow> CreateArgs \<Rightarrow> response \<Rightarrow> string + cli_output list" where
  "create_report env a r =
     (if is_success (rs_status r)
      then Ok [Printed [check_mark @ '' Template ''
             @ (if or_default False (get_bool ''inserted'' (body_or_null r)) then ''created'' else ''updated'') @ '' (v''
             @ int_to_string (or_default 0 (get_i64 ''version'' (body_or_null r))) @ '', ''
             @ (if ca_inactive a then ''inactive'' else ''active'') @ '', HTTP '' @ ce_status_text env (rs_status r) @ '')'']]
      else Err (http_failed env ''Create'' r (response_text env r)))"

text \<open>The file's content, or that it cannot be read; the answer to the prompt, or the error of reading it; \<^verbatim>\<open>to_lowercase\<close>.\<close>

record create_env =
  cr_content :: "string option"
  cr_answer :: "string + string"
  cr_lower :: "string \<Rightarrow> string"

definition upload :: "cli_env \<Rightarrow> CliConfig \<Rightarrow> CreateArgs \<Rightarrow> J2Sections \<Rightarrow> string + cli_output list" where
  "upload env cfg a s = http_send env (api_base_url cfg) cfg (PostTemplate (create_body a s)) (create_report env a)"

definition create_run :: "jinja \<Rightarrow> create_env \<Rightarrow> cli_env \<Rightarrow> CliConfig \<Rightarrow> CreateArgs \<Rightarrow> string + cli_output list" where
  "create_run j ce env cfg a =
     (case cr_content ce of
        None \<Rightarrow> Err (''Failed to read '' @ quote (ca_file a))
      | Some c \<Rightarrow>
          (case parse_j2 c of
             Inl _ \<Rightarrow> Err (''Failed to parse '' @ quote (ca_file a))
           | Inr s \<Rightarrow>
               (let shown = Printed (create_preview a s @ [check_mark @ '' Jinja2 syntax OK'']) in
                if validate_j2_syntax j s \<noteq> [] then Err (''Template has syntax errors '' @ em_dash @ '' aborting'')
                else if ca_dry_run a then Ok [shown, Printed [''(dry-run '' @ em_dash @ '' not sent)'']]
                else if ca_yes a then map_sum id (\<lambda>out. shown # out) (upload env cfg a s)
                else case cr_answer ce of
                       Inl e \<Rightarrow> Err e
                     | Inr input \<Rightarrow>
                         if cr_lower ce (trim input) \<in> {''y'', ''yes''} then map_sum id (\<lambda>out. shown # out) (upload env cfg a s)
                         else Ok [shown, Printed [''Aborted.'']])))"

section \<open>cmd/send.rs\<close>

record CliSendArgs =
  cs_event_type :: string
  cs_to :: "string list"
  cs_name :: "string list"
  cs_cc :: "string list"
  cs_bcc :: "string list"
  cs_payload :: string
  cs_from_email :: "string option"
  cs_from_name :: "string option"
  cs_attachment :: "string list"
  cs_source :: string
  cs_event_id :: "uuid option"
  cs_yes :: bool
  cs_subject :: "string option"
  cs_body_html :: "string option"
  cs_body_text :: "string option"

record send_env =
  sn_read_file :: "string \<Rightarrow> string option"
  sn_parse :: "string \<Rightarrow> json option"
  sn_now :: datetime
  sn_new_uuid :: uuid
  sn_formats :: text_formats
  sn_connect :: "string \<Rightarrow> bool"
  sn_create_channel :: bool
  sn_confirm_select :: bool
  sn_exchange_declare :: "string \<Rightarrow> bool"
  sn_basic_publish :: bool
  sn_confirmation :: "confirmation option"

definition cli_payload :: "send_env \<Rightarrow> string \<Rightarrow> string + json" where
  "cli_payload env payload =
     (if starts_with ''@'' payload
      then case sn_read_file env (tl payload) of
             None \<Rightarrow> Err (''Cannot read payload file: '' @ tl payload)
           | Some t \<Rightarrow> (case sn_parse env t of None \<Rightarrow> Err (''Invalid JSON in '' @ tl payload) | Some j \<Rightarrow> Ok j)
      else case sn_parse env payload of
             None \<Rightarrow> Err ''--payload must be valid JSON or @<path> to a JSON file''
           | Some j \<Rightarrow> Ok j)"

text \<open>Recipients with the names in the order of the addresses.\<close>

definition cli_recipients :: "CliSendArgs \<Rightarrow> Recipient list" where
  "cli_recipients a =
     map (\<lambda>(i, email). \<lparr>r_email = email, r_name = (if i < length (cs_name a) then Some (cs_name a ! i) else None)\<rparr>)
       (zip [0..<length (cs_to a)] (cs_to a))"

fun check_emails :: "string \<Rightarrow> string list \<Rightarrow> string + unit" where
  "check_emails message [] = Ok ()"
| "check_emails message (e # es) = (if is_valid_email e then check_emails message es else Err (message @ e))"

definition plain_recipients :: "string list \<Rightarrow> Recipient list" where
  "plain_recipients = map (\<lambda>e. \<lparr>r_email = e, r_name = None\<rparr>)"

definition cli_attachment :: "send_env \<Rightarrow> string \<Rightarrow> string + AttachmentRef" where
  "cli_attachment env raw =
     (case Option.bind (sn_parse env raw) (\<lambda>j. case dec_attachment j of Inl _ \<Rightarrow> None | Inr a \<Rightarrow> Some a) of
        None \<Rightarrow> Err (''Invalid attachment JSON: '' @ raw)
      | Some a \<Rightarrow> Ok a)"

fun check_cli_attachments :: "datetime \<Rightarrow> AttachmentRef list \<Rightarrow> string + unit" where
  "check_cli_attachments now [] = Ok ()"
| "check_cli_attachments now (a # as) =
     (case attachment_validate a now now of
        Inl e \<Rightarrow> Err (''Attachment validation failed: '' @ e)
      | Inr _ \<Rightarrow> check_cli_attachments now as)"

definition cli_from_override :: "CliSendArgs \<Rightarrow> string + FromOverride option" where
  "cli_from_override a =
     (case cs_from_email a of
        None \<Rightarrow> Ok None
      | Some email \<Rightarrow>
          if is_valid_email email then Ok (Some \<lparr>fo_email = email, fo_name = cs_from_name a\<rparr>)
          else Err (''Invalid --from-email address: '' @ email))"

definition cli_event :: "send_env \<Rightarrow> CliSendArgs \<Rightarrow> string + NotificationEvent" where
  "cli_event env a =
     and_then (cli_payload env (cs_payload a)) (\<lambda>payload.
     and_then (if cs_to a = [] then Err ''At least one --to address is required'' else Ok ()) (\<lambda>_.
     and_then (check_emails ''Invalid email address: '' (cs_to a)) (\<lambda>_.
     and_then (check_emails ''Invalid --cc address: '' (cs_cc a)) (\<lambda>_.
     and_then (check_emails ''Invalid --bcc address: '' (cs_bcc a)) (\<lambda>_.
     and_then (collect_results (cli_attachment env) (cs_attachment a)) (\<lambda>attachments.
     and_then (check_cli_attachments (sn_now env) attachments) (\<lambda>_.
     and_then (cli_from_override a) (\<lambda>from_override.
       let (event_type, payload) =
         (case (cs_subject a, cs_body_html a, cs_body_text a) of
            (Some subject, Some body_html, Some body_text) \<Rightarrow>
              (''GENERIC_HTML'', JObj [(''subject'', JStr subject), (''body_html'', JStr body_html), (''body_text'', JStr body_text)])
          | _ \<Rightarrow> (cs_event_type a, payload))
       in Ok \<lparr>ne_event_id = or_default (sn_new_uuid env) (cs_event_id a), ne_timestamp = sn_now env, ne_event_type = event_type,
              ne_payload = payload, ne_metadata = \<lparr>md_source = Some (cs_source a)\<rparr>,
              ne_channel_overrides = \<lparr>co_email = Some
                \<lparr>eo_send_mode = SendIndividual, eo_group_retry_mode = RetryWhole, eo_retry_policy = Retry,
                 eo_recipients = cli_recipients a, eo_cc = plain_recipients (cs_cc a), eo_bcc = plain_recipients (cs_bcc a),
                 eo_from_override = from_override, eo_attachments = attachments, eo_sender_account = None,
                 eo_send_at = None, eo_priority = None\<rparr>\<rparr>\<rparr>))))))))"

text \<open>The broker's steps; each error is reported by its context. A message that was handed over is returned
  with what came of its confirmation, which is awaited but not looked at.\<close>

definition cli_publish :: "send_env \<Rightarrow> McpAmqpConfig \<Rightarrow> json \<Rightarrow> (string + unit) \<times> mcp_message list" where
  "cli_publish env amqp body =
     (if \<not> sn_connect env (mq_url amqp) then (Err ''Failed to connect to RabbitMQ'', [])
      else if \<not> sn_create_channel env then (Err ''Failed to create AMQP channel'', [])
      else if \<not> sn_confirm_select env then (Err ''Failed to enable publisher confirms'', [])
      else if \<not> sn_exchange_declare env (mq_exchange amqp) then (Err ''exchange_declare failed'', [])
      else if \<not> sn_basic_publish env then (Err ''basic_publish failed'', [])
      else
        let confirmation = (case sn_confirmation env of None \<Rightarrow> Err ''Publisher confirm failed'' | Some c \<Rightarrow> Ok c)
        in (map_sum id (\<lambda>_. ()) confirmation,
            [\<lparr>mm_exchange = mq_exchange amqp, mm_routing_key = mq_routing_key amqp, mm_body = body, mm_confirmation = confirmation\<rparr>]))"

text \<open>The exit and the messages handed to the broker; \<^verbatim>\<open>None\<close> is the prompt answered with no.\<close>

definition send_run :: "cli_env \<Rightarrow> send_env \<Rightarrow> CliConfig \<Rightarrow> CliSendArgs \<Rightarrow> (string + uuid option) \<times> mcp_message list" where
  "send_run cenv env cfg a =
     (case cli_event env a of
        Inl e \<Rightarrow> (Err e, [])
      | Inr event \<Rightarrow>
          let publish = (case cli_publish env (cc_amqp cfg) (enc_event (sn_formats env) event) of
                           (Inl e, sent) \<Rightarrow> (Err e, sent)
                         | (Inr _, sent) \<Rightarrow> (Ok (Some (ne_event_id event)), sent))
          in if cs_yes a then publish
             else case ce_confirm cenv of
                    None \<Rightarrow> (Err ''Prompt failed'', [])
                  | Some ok \<Rightarrow> if ok then publish else (Ok None, []))"

section \<open>main.rs\<close>

datatype Command =
    Send CliSendArgs
  | Status uuid "string option"
  | RetryCommand uuid "string option" bool
  | Logs LogsArgs
  | OutboxCommand outbox_status int bool
  | Blocklist BlocklistAction
  | TemplateCommand TemplateAction
  | TemplateCreate CreateArgs
  | Health "string option" bool

text \<open>The world of a command: the environments above, the parser of templates, the databases and their faults.\<close>

record anctl_world =
  aw_env :: cli_env
  aw_send :: send_env
  aw_create :: create_env
  aw_jinja :: jinja
  aw_ilike :: "string \<Rightarrow> string \<Rightarrow> bool"
  aw_log_fault :: db_fault
  aw_outbox_fault :: db_fault
  aw_log :: log_db
  aw_outbox :: outbox_table

text \<open>What a command prints, with whether the process ends with success, and the messages it hands to the broker.\<close>

definition ends_well :: "string + cli_output list \<Rightarrow> string + cli_output list \<times> bool" where
  "ends_well = map_sum id (\<lambda>out. (out, True))"

fun anctl_main :: "anctl_world \<Rightarrow> CliConfig \<Rightarrow> OutputFormat \<Rightarrow> Command \<Rightarrow> (string + cli_output list \<times> bool) \<times> mcp_message list" where
  "anctl_main w cfg fmt (Send a) =
     (case send_run (aw_env w) (aw_send w) cfg a of
        (r, sent) \<Rightarrow>
          (map_sum id (\<lambda>published. ([Printed (case published of
               None \<Rightarrow> [''Aborted.'']
             | Some i \<Rightarrow> [check_mark @ '' Published event '' @ i, ''  Run `anctl status '' @ i @ ''` to track delivery.''])], True)) r, sent))"
| "anctl_main w cfg fmt (Status i email) = (ends_well (status_run (aw_env w) (aw_log_fault w) fmt i email (aw_log w)), [])"
| "anctl_main w cfg fmt (RetryCommand i email yes) = (ends_well (retry_run (aw_env w) cfg i email yes), [])"
| "anctl_main w cfg fmt (Logs a) = (ends_well (logs_run (aw_ilike w) (aw_env w) (aw_log_fault w) fmt a (aw_log w)), [])"
| "anctl_main w cfg fmt (OutboxCommand status limit full) =
     (ends_well (outbox_run (aw_env w) (aw_outbox_fault w) cfg fmt status limit full (aw_outbox w)), [])"
| "anctl_main w cfg fmt (Blocklist action) = (ends_well (blocklist_run (aw_env w) cfg fmt action), [])"
| "anctl_main w cfg fmt (TemplateCommand action) = (ends_well (template_run (aw_env w) cfg fmt action), [])"
| "anctl_main w cfg fmt (TemplateCreate a) = (ends_well (create_run (aw_jinja w) (aw_create w) (aw_env w) cfg a), [])"
| "anctl_main w cfg fmt (Health url check_ready) =
     (map_sum id (\<lambda>(lines, ok). ([Printed lines], ok)) (health_run (aw_env w) cfg url check_ready), [])"

text \<open>Only \<^verbatim>\<open>send\<close> talks to the broker, and with at most one message.\<close>

lemma anctl_messages:
  "length (snd (anctl_main w cfg fmt cmd)) \<le> 1 \<and> (snd (anctl_main w cfg fmt cmd) \<noteq> [] \<longrightarrow> (\<exists>a. cmd = Send a))"
  by (cases cmd) (auto simp: send_run_def cli_publish_def Let_def split: prod.splits sum.splits option.splits if_splits)

text \<open>The environment decides each key it sets; the exchange and routing key have built-in values.\<close>

lemma cli_load_precedence:
  assumes "cli_load file parse_u16 env path = Ok cfg"
  shows "(\<forall>v. env ''database.url'' = Some v \<longrightarrow> cc_database_url cfg = v) \<and> (\<forall>v. env ''api_url'' = Some v \<longrightarrow> cc_api_url cfg = Some v) \<and>
    (\<forall>v. env ''amqp.url'' = Some v \<longrightarrow> mq_url (cc_amqp cfg) = v) \<and> (\<forall>v. env ''http.port'' = Some v \<longrightarrow> parse_u16 v = Some (cc_http_port cfg))"
proof -
  obtain src where src: "load_layers file cli_defaults env path = Ok src"
    using assms by (auto simp: cli_load_def and_then_Inr_iff)
  then have "\<exists>m. src = m ++ env" by (cases path) (auto simp: load_given_file load_default_files)
  then have "src k = Some v" if "env k = Some v" for k v using that by auto
  with assms src show ?thesis by (auto simp: cli_load_def and_then_Inr_iff required_key_def split: option.splits)
qed

end
