(* ===== verification/Anctl_Props.thy ===== *)
theory Anctl_Props
  imports Anctl Api_Props "HOL-Library.Multiset"
begin

text \<open>
  The command line: a template file is read back as the sections it was written with, and the listing of
  the block list cannot read what the HTTP interface answers.
\<close>

section \<open>Template files\<close>

text \<open>A file with the given sections, each under its marker line.\<close>

definition j2_file :: "(string \<times> string) list \<Rightarrow> string" where
  "j2_file secs = concat (map (\<lambda>(m, c). m @ CHR 0x0A # c @ [CHR 0x0A]) secs)"

text \<open>Content that survives: no blank edge, no carriage return, no line that reads as a marker.\<close>

definition content_ok :: "string \<Rightarrow> bool" where
  "content_ok c \<longleftrightarrow> trim c = c \<and> CHR 0x0D \<notin> set c \<and> list_all (\<lambda>l. trim l \<notin> set markers) (split_str (CHR 0x0A) c)"

lemma split_str_append: "split_str c (a @ c # b) = split_str c a @ split_str c b"
  by (induction a) (auto split: list.splits)

lemma split_str_no_sep: "c \<notin> set a \<Longrightarrow> split_str c a = [a]"
  by (induction a) auto

lemma join_split_str: "concat (map (\<lambda>l. c # l) (split_str c s)) = c # s"
  by (induction s) (auto split: list.splits)

lemma strip_cr_id: "CHR 0x0D \<notin> set l \<Longrightarrow> strip_cr l = l"
  by (auto simp: strip_cr_def dest: last_in_set)

lemma marker_facts:
  assumes "m \<in> set markers"
  shows "trim m = m" "CHR 0x0A \<notin> set m" "CHR 0x0D \<notin> set m"
proof -
  have "list_all (\<lambda>m. trim m = m \<and> CHR 0x0A \<notin> set m \<and> CHR 0x0D \<notin> set m) markers" by code_simp
  with assms show "trim m = m" "CHR 0x0A \<notin> set m" "CHR 0x0D \<notin> set m" by (auto simp: list_all_iff)
qed

definition file_lines :: "(string \<times> string) list \<Rightarrow> string list" where
  "file_lines secs = concat (map (\<lambda>(m, c). m # split_str (CHR 0x0A) c) secs)"

definition sections_ok :: "(string \<times> string) list \<Rightarrow> bool" where
  "sections_ok secs \<longleftrightarrow> (\<forall>(m, c) \<in> set secs. m \<in> set markers \<and> content_ok c)"

lemma split_file:
  "sections_ok secs \<Longrightarrow> split_str (CHR 0x0A) (j2_file secs) = file_lines secs @ [[]]"
proof (induction secs)
  case (Cons sec secs)
  obtain m c where sec: "sec = (m, c)" by fastforce
  with Cons.prems have m: "CHR 0x0A \<notin> set m" by (auto simp: sections_ok_def marker_facts)
  have "j2_file (sec # secs) = m @ CHR 0x0A # (c @ CHR 0x0A # j2_file secs)" by (simp add: j2_file_def sec)
  then have "split_str (CHR 0x0A) (j2_file (sec # secs)) = [m] @ split_str (CHR 0x0A) c @ split_str (CHR 0x0A) (j2_file secs)"
    by (simp only: split_str_append split_str_no_sep [OF m])
  with Cons show ?case by (simp add: sec file_lines_def sections_ok_def)
qed (simp add: j2_file_def file_lines_def)

lemma lines_file: "sections_ok secs \<Longrightarrow> str_lines (j2_file secs) = file_lines secs"
proof -
  assume ok: "sections_ok secs"
  have "strip_cr l = l" if "l \<in> set (file_lines secs)" for l
  proof -
    from that obtain m c where mc: "(m, c) \<in> set secs" "l = m \<or> l \<in> set (split_str (CHR 0x0A) c)"
      by (auto simp: file_lines_def)
    with ok have "m \<in> set markers" "CHR 0x0D \<notin> set c" by (auto simp: sections_ok_def content_ok_def)
    with mc(2) split_str_parts [of l "CHR 0x0A" c] marker_facts(3) show ?thesis by (auto intro: strip_cr_id)
  qed
  then have "map strip_cr (file_lines secs) = file_lines secs" by (simp add: map_idI)
  with ok show ?thesis by (simp add: str_lines_def split_file)
qed

subsection \<open>Reading the lines of a section\<close>

lemma strip_prefixes_length: "length (strip_prefixes n ps s) \<le> length s"
proof (induction n arbitrary: s)
  case (Suc n)
  show ?case by (auto split: list.splits intro: order_trans [OF Suc.IH])
qed simp

lemma trimmed_no_leading_newline: "trim (CHR 0x0A # s) \<noteq> CHR 0x0A # s"
proof
  assume eq: "trim (CHR 0x0A # s) = CHR 0x0A # s"
  let ?a = "strip_prefixes (length s) white_space_seqs s"
  have "filter (\<lambda>p. starts_with p (CHR 0x0A # s)) white_space_seqs = [[CHR 0x0A]]"
    by (simp add: white_space_seqs_def)
  then have "strip_prefixes (length (CHR 0x0A # s)) white_space_seqs (CHR 0x0A # s) = ?a" by simp
  then have "length (trim (CHR 0x0A # s)) \<le> length ?a"
    using strip_prefixes_length [of "length ?a" "map rev white_space_seqs" "rev ?a"] by (simp add: trim_def Let_def)
  also have "\<dots> \<le> length s" by (rule strip_prefixes_length)
  finally show False by (simp add: eq)
qed

lemma push_lines: "buf \<noteq> [] \<Longrightarrow> foldl push_line buf ls = buf @ concat (map (\<lambda>l. CHR 0x0A # l) ls)"
  by (induction ls arbitrary: buf) (simp_all add: push_line_def)

lemma push_content:
  assumes "trim c = c"
  shows "foldl push_line [] (split_str (CHR 0x0A) c) = c"
proof (cases "split_str (CHR 0x0A) c")
  case (Cons l ls)
  have "CHR 0x0A # c = (CHR 0x0A # l) @ concat (map (\<lambda>l. CHR 0x0A # l) ls)"
    using join_split_str [of "CHR 0x0A" c] Cons by simp
  then have c: "c = l @ concat (map (\<lambda>l. CHR 0x0A # l) ls)" by simp
  have "ls = []" if "l = []"
  proof (cases ls)
    case (Cons l' ls')
    with that c have "c = CHR 0x0A # (l' @ concat (map (\<lambda>l. CHR 0x0A # l) ls'))" by simp
    with trimmed_no_leading_newline assms show ?thesis by metis
  qed simp
  with Cons c push_lines [of l ls] show ?thesis by (cases "l = []") (simp_all add: push_line_def)
qed simp

lemma parse_section_lines:
  assumes "list_all (\<lambda>l. trim l \<notin> set markers) ls" "js_current st \<noteq> None"
  shows "parse_j2_lines (ls @ rest) st = parse_j2_lines rest (st\<lparr>js_buf := foldl push_line (js_buf st) ls\<rparr>)"
  using assms by (induction ls arbitrary: st) (simp_all add: Let_def)

lemma parse_file_lines:
  assumes "close_section st = Ok before" "sections_ok secs" "distinct (map fst (before @ secs))"
  shows "parse_j2_lines (file_lines secs) st = Ok (before @ secs)"
  using assms
proof (induction secs arbitrary: st before)
  case Nil
  then show ?case by (simp add: file_lines_def)
next
  case (Cons sec secs)
  obtain m c where sec: "sec = (m, c)" by fastforce
  let ?st = "\<lparr>js_sections = before, js_current = Some m, js_buf = []\<rparr>"
  have m: "m \<in> set markers" "trim c = c" "list_all (\<lambda>l. trim l \<notin> set markers) (split_str (CHR 0x0A) c)" "sections_ok secs"
    using Cons.prems(2) by (auto simp: sec sections_ok_def content_ok_def)
  have "parse_j2_lines (file_lines (sec # secs)) st = parse_j2_lines (split_str (CHR 0x0A) c @ file_lines secs) ?st"
    using Cons.prems(1) m(1) by (simp add: sec file_lines_def marker_facts Let_def)
  also have "\<dots> = parse_j2_lines (file_lines secs) (?st\<lparr>js_buf := c\<rparr>)"
    using parse_section_lines [OF m(3), of ?st] m(2) by (simp add: push_content)
  also have "\<dots> = Ok ((before @ [sec]) @ secs)"
  proof (rule Cons.IH)
    have "map_of before m = None" using Cons.prems(3) by (simp add: sec map_of_eq_None_iff)
    then show "close_section (?st\<lparr>js_buf := c\<rparr>) = Ok (before @ [sec])"
      by (simp add: close_section_def store_section_def m(2) sec)
  qed (use m Cons.prems in auto)
  finally show ?case by simp
qed

text \<open>The sections of a file, by their markers.\<close>

definition sections_of :: "(string \<times> string) list \<Rightarrow> J2Sections" where
  "sections_of secs =
     \<lparr>j2_subject = the (map_of secs subject_marker), j2_body_html = the (map_of secs html_marker),
      j2_body_text = the (map_of secs text_marker)\<rparr>"

definition template_file :: "(string \<times> string) list \<Rightarrow> bool" where
  "template_file secs \<longleftrightarrow> sections_ok secs \<and> distinct (map fst secs) \<and> set (map fst secs) = set markers"

lemma parse_template_file:
  assumes "template_file secs"
  shows "parse_j2 (j2_file secs) = Ok (sections_of secs)"
proof -
  have ok: "sections_ok secs" "distinct (map fst secs)" "set (map fst secs) = set markers"
    using assms by (simp_all add: template_file_def)
  have "parse_j2_lines (str_lines (j2_file secs)) \<lparr>js_sections = [], js_current = None, js_buf = []\<rparr> = Ok secs"
    using parse_file_lines [of "\<lparr>js_sections = [], js_current = None, js_buf = []\<rparr>" "[]" secs] ok
    by (simp add: lines_file close_section_def)
  moreover have "\<exists>c. map_of secs m = Some c" if "m \<in> set markers" for m
    using that ok(3) by (metis map_of_eq_None_iff not_None_eq set_map)
  from this [of subject_marker] this [of html_marker] this [of text_marker]
  obtain a b c where "map_of secs subject_marker = Some a" "map_of secs html_marker = Some b" "map_of secs text_marker = Some c"
    by (auto simp: markers_def)
  ultimately show ?thesis by (simp add: parse_j2_def section_of_def sections_of_def)
qed

section \<open>Upload\<close>

text \<open>What the commands rely on: a service that answers under the base URL.\<close>

locale http_service =
  fixes env :: cli_env and base :: string and answer :: "string option \<Rightarrow> api_request \<Rightarrow> response"
  assumes reached: "ce_http env base auth req = Some (answer auth req)"
begin

lemma send_answered: "http_send env base cfg req k = k (answer (cli_authorization cfg) req)"
  by (simp add: http_send_def reached)

lemma upload_succeeded:
  "api_base_url cfg = base \<Longrightarrow> upload env cfg a sec = Ok out \<Longrightarrow>
   is_success (rs_status (answer (cli_authorization cfg) (PostTemplate (create_body a sec))))"
  by (auto simp: upload_def send_answered create_report_def split: if_splits)

lemma templates_listed:
  assumes "api_base_url cfg = base"
    and "answer (cli_authorization cfg) GetTemplates = json_response 200 (JObj [(''templates'', JArr ts)])"
  shows "template_run env cfg fmt TplList = Ok [print_rows fmt (List.map_filter template_list_row ts)]"
  by (simp add: template_run_def assms(1) send_answered assms(2) json_response_def is_success_def with_templates_def)

lemma object_not_listed:
  assumes "api_base_url cfg = base" "answer (cli_authorization cfg) GetBlocklist = json_response 200 (JObj kvs)"
  shows "blocklist_run env cfg fmt BlList = Err ''Failed to parse response''"
  by (simp add: blocklist_run_def assms(1) send_answered assms(2) json_response_def is_success_def)

end

text \<open>The running service behind every base URL.\<close>

definition service_env :: "router_env \<Rightarrow> ('t, 'b) api_env \<Rightarrow> ('t, 'b) ApiState \<Rightarrow> cli_env \<Rightarrow> cli_env" where
  "service_env re api s env = env\<lparr>ce_http := \<lambda>base auth req. Some (fst (build_router re api auth req s))\<rparr>"

interpretation running: http_service "service_env re api s env" base "\<lambda>auth req. fst (build_router re api auth req s)"
  by unfold_locales (simp add: service_env_def)

lemma content_trim: "template_file secs \<Longrightarrow> m \<in> set markers \<Longrightarrow> trim (the (map_of secs m)) = the (map_of secs m)"
proof -
  assume f: "template_file secs" "m \<in> set markers"
  then have "m \<in> set (map fst secs)" by (simp add: template_file_def)
  then obtain c where "map_of secs m = Some c" by (metis map_of_eq_None_iff not_None_eq set_map)
  then have "map_of secs m = Some c" "(m, c) \<in> set secs" by (auto dest: map_of_SomeD)
  with f show ?thesis by (auto simp: template_file_def sections_ok_def content_ok_def)
qed

text \<open>A success of the upload is an upsert of the sections that succeeded.\<close>

lemma into_response_failure: "\<not> is_success (rs_status (into_response e))"
  by (cases e rule: into_response.cases) (auto simp: json_response_def is_success_def)

lemma created_upsert:
  assumes "is_success (rs_status (fst (build_router re api auth (PostTemplate body) s)))"
  obtains a res t where "upsert_args body = Ok a"
    "template_upsert (ae_templates api) (ae_fault api (as_tick s)) (ae_now api (as_tick s)) (ua_event_type a) (ua_channel a)
       (ua_subject a) (ua_body_html a) (ua_body_text a) (ua_active a) (as_template_store s) = (Ok res, t)"
    "as_template_store (snd (build_router re api auth (PostTemplate body) s)) = t"
proof -
  have b: "build_router re api auth (PostTemplate body) s = into_reply (upsert_template api body s)"
    using assms by (auto simp: build_router_def bearer_auth_def json_response_def is_success_def split: option.splits if_splits)
  then obtain r s' where u: "upsert_template api body s = (Ok r, s')"
    using assms by (cases "upsert_template api body s"; cases "fst (upsert_template api body s)")
      (auto simp: into_reply_def respond_def into_response_failure)
  with b that show ?thesis
    by (auto simp: upsert_template_def template_update_def into_reply_def split: sum.splits prod.splits)
qed

lemma create_body_args:
  assumes "upsert_args (create_body a sec) = Ok ua"
  shows "ua = \<lparr>ua_event_type = trim (ca_event_type a), ua_channel = trim (ca_channel a), ua_subject = trim (j2_subject sec),
    ua_body_html = trim (j2_body_html sec), ua_body_text = trim (j2_body_text sec), ua_active = (\<not> ca_inactive a)\<rparr>"
  using assms
  by (auto simp: upsert_args_def create_body_def required_str_def get_str_def get_bool_def or_default_def
      and_then_Inr_iff guard_def Let_def split: if_splits)

text \<open>
  C20. A template file is what gets delivered: take any file with the three sections under their markers, in any order, each without blank
  edges, carriage returns or a line that reads as a marker. When \<^verbatim>\<open>anctl template create --yes\<close> on it, against a running service, ends without an
  error, then the next delivery in that service resolves the event type to exactly the file's subject and bodies (to the unknown-type
  error if the template was uploaded inactive), whatever the cache held before. The service's requests are taken one at a time here: no resolution of the
  same event type is between its SELECT and its insertion when the upload runs.
\<close>

theorem uploaded_file_is_resolved:
  assumes "template_file secs" "cr_content ce = Some (j2_file secs)" "create_run j ce (service_env re api s env) cfg a = Ok out"
    and "ca_yes a" "\<not> ca_dry_run a" "trim (ca_channel a) = CHANNEL_EMAIL"
    and "moka_cache (ae_templates api)" "template_inv (ae_templates api) (as_template_store s)"
  shows "let sec = sections_of secs; ty = trim (ca_event_type a);
      s' = snd (build_router re api (cli_authorization cfg) (PostTemplate (create_body a sec)) s)
    in template_inv (ae_templates api) (as_template_store s') \<and>
       fst (template_resolve (ae_templates api) None now ty CHANNEL_EMAIL (as_template_store s')) =
         (if ca_inactive a then Err (unknown_template ty CHANNEL_EMAIL)
          else Ok \<lparr>t_subject = j2_subject sec, t_body_html = j2_body_html sec, t_body_text = j2_body_text sec\<rparr>)"
proof -
  let ?sec = "sections_of secs"
  have tr: "trim (j2_subject ?sec) = j2_subject ?sec" "trim (j2_body_html ?sec) = j2_body_html ?sec"
    "trim (j2_body_text ?sec) = j2_body_text ?sec"
    using content_trim [OF assms(1)] by (simp_all add: sections_of_def markers_def)
  have "\<exists>out. upload (service_env re api s env) cfg a ?sec = Ok out"
    using assms(2-5) parse_template_file [OF assms(1)]
    by (cases "upload (service_env re api s env) cfg a ?sec") (auto simp: create_run_def Let_def split: if_splits)
  then have "is_success (rs_status (fst (build_router re api (cli_authorization cfg) (PostTemplate (create_body a ?sec)) s)))"
    using running.upload_succeeded [OF refl] by blast
  then obtain ua res t where u: "upsert_args (create_body a ?sec) = Ok ua"
    "template_upsert (ae_templates api) (ae_fault api (as_tick s)) (ae_now api (as_tick s)) (ua_event_type ua) (ua_channel ua)
       (ua_subject ua) (ua_body_html ua) (ua_body_text ua) (ua_active ua) (as_template_store s) = (Ok res, t)"
    "as_template_store (snd (build_router re api (cli_authorization cfg) (PostTemplate (create_body a ?sec)) s)) = t"
    by (rule created_upsert)
  from upsert_resolves [OF assms(7,8)] u(2,3) create_body_args [OF u(1)] tr assms(6) show ?thesis
    by (auto simp: Let_def)
qed

definition sample_sections :: "(string \<times> string) list" where
  "sample_sections = [(text_marker, ''Hi'' @ [CHR 0x0A, CHR 0x0A] @ ''bye''), (subject_marker, ''Hello''), (html_marker, [])]"

definition sample_cli_env :: cli_env where
  "sample_cli_env =
     service_env sample_router sample_api_env (sample_api_state empty_db)
       \<lparr>ce_http = (\<lambda>_ _ _. None), ce_confirm = Some True, ce_status_text = nat_to_string, ce_json_text = (\<lambda>_. []), ce_format_time = (\<lambda>_. [])\<rparr>"

definition sample_cli_config :: CliConfig where
  "sample_cli_config =
     \<lparr>cc_database_url = ''db'', cc_amqp = \<lparr>mq_url = ''amqp'', mq_exchange = ''x'', mq_routing_key = ''k''\<rparr>, cc_http_port = 8080,
      cc_http_api_key = Some ''key'', cc_outbox_database_url = None, cc_api_url = None\<rparr>"

definition sample_create :: CreateArgs where
  "sample_create = \<lparr>ca_event_type = ''T'', ca_file = ''t.j2'', ca_channel = ''email'', ca_dry_run = False, ca_yes = True, ca_inactive = False\<rparr>"

definition plain_jinja :: jinja where
  "plain_jinja = \<lparr>jinja_parse = (\<lambda>_ _. Ok ()), jinja_render = (\<lambda>_ t _. Ok t)\<rparr>"

theorem uploaded_file_is_resolved_witness:
  "let ce = \<lparr>cr_content = Some (j2_file sample_sections), cr_answer = Err [], cr_lower = id\<rparr>;
       s' = snd (build_router sample_router sample_api_env (cli_authorization sample_cli_config)
              (PostTemplate (create_body sample_create (sections_of sample_sections))) (sample_api_state empty_db))
   in is_ok (create_run plain_jinja ce sample_cli_env sample_cli_config sample_create) \<and>
      fst (template_resolve (ae_templates sample_api_env) None 9 ''T'' CHANNEL_EMAIL (as_template_store s')) =
        Ok \<lparr>t_subject = ''Hello'', t_body_html = [], t_body_text = ''Hi'' @ [CHR 0x0A, CHR 0x0A] @ ''bye''\<rparr>"
proof -
  let ?ce = "\<lparr>cr_content = Some (j2_file sample_sections), cr_answer = Err [], cr_lower = id\<rparr>"
  have f: "template_file sample_sections"
    unfolding template_file_def sections_ok_def content_ok_def by code_simp
  let ?resp = "fst (build_router sample_router sample_api_env (cli_authorization sample_cli_config)
    (PostTemplate (create_body sample_create (sections_of sample_sections))) (sample_api_state empty_db))"
  have "rs_status ?resp = 201" by code_simp
  then have "\<exists>out. upload sample_cli_env sample_cli_config sample_create (sections_of sample_sections) = Ok out"
    by (simp add: upload_def http_send_def create_report_def is_success_def sample_cli_env_def service_env_def)
  moreover have "validate_j2_syntax plain_jinja (sections_of sample_sections) = []"
    by (simp add: validate_j2_syntax_def plain_jinja_def List.map_filter_def)
  ultimately obtain out where out: "create_run plain_jinja ?ce sample_cli_env sample_cli_config sample_create = Ok out"
    using parse_template_file [OF f] by (auto simp: create_run_def Let_def sample_create_def)
  have c: "trim (ca_channel sample_create) = CHANNEL_EMAIL" "trim (ca_event_type sample_create) = ''T''" by code_simp+
  have inv: "template_inv (ae_templates sample_api_env) (as_template_store (sample_api_state empty_db))"
    using sample_api_inv [OF log_inv_empty] by (simp add: api_inv_def)
  show ?thesis
    using uploaded_file_is_resolved [OF f _ out [unfolded sample_cli_env_def] _ _ c(1) sample_api_caches(1) inv, of 9] c(2) out
    by (auto simp: is_ok_def sample_create_def Let_def sections_of_def sample_sections_def subject_marker_def html_marker_def text_marker_def)
qed

section \<open>Listings\<close>

text \<open>The line of a template in the listing.\<close>

definition listed_template :: "text_formats \<Rightarrow> TemplateRow \<Rightarrow> display_row" where
  "listed_template tf r =
     [(''Type'', ''event_type'', JStr (tr_event_type r)), (''Channel'', ''channel'', JStr (tr_channel r)),
      (''Subject'', ''subject'', JStr (truncate_text (tr_subject r) 60)), (''Ver'', ''version'', JInt (tr_version r)),
      (''Active'', ''active'', JBool (tr_active r)), (''Updated'', ''updated_at'', enc_datetime tf (tr_updated_at r))]"

lemma template_list_row_summary:
  "- (2 ^ 63) \<le> tr_version r \<Longrightarrow> tr_version r < 2 ^ 63 \<Longrightarrow>
   template_list_row (template_summary_json tf r) = Some (listed_template tf r)"
  by (simp add: template_list_row_def template_summary_json_def listed_template_def get_str_def get_i64_def get_bool_def enc_datetime_def)

lemma map_filter_all: "\<forall>x \<in> set xs. f (g x) = Some (h x) \<Longrightarrow> List.map_filter f (map g xs) = map h xs"
  by (induction xs) (simp_all add: List.map_filter_def)

text \<open>With the service's own key, or with none on both sides, a request reaches its handler.\<close>

lemma authorised_call:
  assumes "as_api_key s = cc_http_api_key cfg" "\<not> is_probe req" "\<not> is_document req" "\<not> is_retry req"
  shows "build_router re api (cli_authorization cfg) req s = call_handler re api req s"
  using assms by (auto simp: build_router_def bearer_auth_def cli_authorization_def strip_prefix_def starts_with_iff split: option.splits)

text \<open>
  C24. The two listings of the command line, against a running service with a working database and the service's own key: \<^verbatim>\<open>anctl template list\<close>
  shows every template of the table once, in the service's order; \<^verbatim>\<open>anctl blocklist list\<close> never shows anything, for any block list and output format: it
  expects an array where the service answers an object with the entries, and ends with an error.
\<close>

theorem cli_listings:
  assumes "as_api_key s = cc_http_api_key cfg" "ae_fault api (as_tick s) = None"
    and "\<forall>r \<in> set (ts_rows (as_template_store s)). - (2 ^ 63) \<le> tr_version r \<and> tr_version r < 2 ^ 63"
  shows "\<exists>rows. template_list (ae_rank api) None (as_template_store s) = Ok rows \<and> mset rows = mset (ts_rows (as_template_store s)) \<and>
      template_run (service_env re api s env) cfg fmt TplList = Ok [print_rows fmt (map (listed_template (ae_formats api)) rows)] \<and>
      (\<exists>entries. fst (build_router re api (cli_authorization cfg) GetBlocklist s) = json_response 200 (JObj [(''entries'', JArr entries)])) \<and>
      blocklist_run (service_env re api s env) cfg fmt BlList = Err ''Failed to parse response''"
proof -
  let ?rows = "sort_key (ae_rank api \<circ> tr_event_type) (sort_key (ae_rank api \<circ> tr_channel) (ts_rows (as_template_store s)))"
  have rows: "template_list (ae_rank api) None (as_template_store s) = Ok ?rows" by (simp add: template_list_def)
  have m: "List.map_filter template_list_row (map (template_summary_json (ae_formats api)) ?rows) = map (listed_template (ae_formats api)) ?rows"
    using assms(3) by (intro map_filter_all) (simp add: template_list_row_summary)
  have "fst (build_router re api (cli_authorization cfg) GetTemplates s) =
      json_response 200 (JObj [(''templates'', JArr (map (template_summary_json (ae_formats api)) ?rows))])"
    using assms(2) by (simp add: authorised_call [OF assms(1)] list_templates_def template_read_def rows into_reply_def respond_def)
  from running.templates_listed [OF refl this] have t: "template_run (service_env re api s env) cfg fmt TplList = Ok [print_rows fmt (map (listed_template (ae_formats api)) ?rows)]"
    by (simp only: m)
  obtain entries where b: "fst (build_router re api (cli_authorization cfg) GetBlocklist s) = json_response 200 (JObj [(''entries'', JArr entries)])"
    using assms(2) by (auto simp: authorised_call [OF assms(1)] list_blocklist_def block_list_read_def list_entries_def into_reply_def respond_def)
  from running.object_not_listed [OF refl b] rows t b show ?thesis by (intro exI [of _ ?rows]) auto
qed

theorem cli_listings_witness:
  "blocklist_run sample_cli_env sample_cli_config TableFormat BlList = Err ''Failed to parse response'' \<and>
   template_run sample_cli_env sample_cli_config TableFormat TplList = Ok [Printed [''(no results)'']]"
proof -
  have "as_api_key (sample_api_state empty_db) = cc_http_api_key sample_cli_config" "ts_rows (as_template_store (sample_api_state empty_db)) = []"
    "ae_fault sample_api_env n = None" for n
    by (simp_all add: sample_api_state_def sample_cli_config_def sample_api_env_def in_process_stores_def)
  with cli_listings [of "sample_api_state empty_db" sample_cli_config sample_api_env] show ?thesis
    by (auto simp: sample_cli_env_def template_list_def print_rows_def print_table_def)
qed

end
