(* ===== verification/Cli_Routes.thy ===== *)
theory Cli_Routes
  imports Anctl
begin

text \<open>
  From the URL that a command of \<^verbatim>\<open>anctl\<close> builds to the endpoint that \<^verbatim>\<open>crates/api/src/routes.rs\<close> selects for it: the table of routes as axum matches it
  (a fixed segment before a capture, then the method), and the paths as the commands format them. The \<^verbatim>\<open>url\<close> crate's
  treatment of a path is modelled for printable ASCII texts without percent signs, backslashes and dot segments; what it encodes of
  these (a brace, say) the service's extractor decodes again.
\<close>

section \<open>The table of routes\<close>

datatype http_method = GET | POST | PATCH | DELETE

datatype route_result = Routed api_request | MethodNotAllowed | NoSuchRoute | BadPathParameter

text \<open>The handlers of one path, by method.\<close>

definition by_method :: "(http_method \<times> api_request) list \<Rightarrow> http_method \<Rightarrow> route_result" where
  "by_method handlers m = (case map_of handlers m of Some r \<Rightarrow> Routed r | None \<Rightarrow> MethodNotAllowed)"

text \<open>A captured segment is decoded by the handler's extractor, which runs only when the method has a handler.\<close>

definition capture :: "'a option \<Rightarrow> http_method list \<Rightarrow> http_method \<Rightarrow> ('a \<Rightarrow> route_result) \<Rightarrow> route_result" where
  "capture v ms m k = (if m \<notin> set ms then MethodNotAllowed else case v of None \<Rightarrow> BadPathParameter | Some x \<Rightarrow> k x)"

definition is_digit :: "char \<Rightarrow> bool" where
  "is_digit c \<longleftrightarrow> 48 \<le> (of_char c :: nat) \<and> (of_char c :: nat) \<le> 57"

definition parse_digits :: "string \<Rightarrow> nat option" where
  "parse_digits s = (if s \<noteq> [] \<and> list_all is_digit s then Some (foldl (\<lambda>a c. 10 * a + (of_char c - 48)) 0 s) else None)"

text \<open>\<^verbatim>\<open>i64::from_str\<close>: an optional sign and digits, in range.\<close>

definition parse_i64 :: "string \<Rightarrow> int option" where
  "parse_i64 s =
     Option.bind
       (case s of
          [] \<Rightarrow> None
        | c # r \<Rightarrow> if c = CHR ''-'' then map_option (\<lambda>n. - int n) (parse_digits r)
                   else if c = CHR ''+'' then map_option int (parse_digits r) else map_option int (parse_digits s))
       (\<lambda>i. if - (2 ^ 63) \<le> i \<and> i < 2 ^ 63 then Some i else None)"

definition route :: "text_formats \<Rightarrow> http_method \<Rightarrow> string list \<Rightarrow> json \<Rightarrow> route_result" where
  "route tf m path body =
     (case path of
        [a] \<Rightarrow>
          if a = ''health'' then by_method [(GET, GetHealth)] m
          else if a = ''ready'' then by_method [(GET, GetReady)] m
          else if a = ''templates'' then by_method [(GET, GetTemplates), (POST, PostTemplate body)] m
          else if a = ''template-cache'' then by_method [(DELETE, DeleteTemplateCache)] m
          else if a = ''docs'' then by_method [(GET, GetDocs)] m
          else if a = ''openapi.yaml'' then by_method [(GET, GetOpenapi)] m
          else if a = ''asyncapi.yaml'' then by_method [(GET, GetAsyncapi)] m
          else NoSuchRoute
      | [a, b] \<Rightarrow>
          if a = ''emails'' then
            if b = ''send'' then by_method [(POST, PostSend body)] m
            else capture (parse_uuid tf b) [GET] m (\<lambda>ev. Routed (GetEmail ev))
          else if a = ''templates'' then by_method [(GET, GetTemplateOf b), (PATCH, PatchTemplate b body)] m
          else if a = ''template-cache'' then by_method [(DELETE, DeleteTemplateCacheOf b)] m
          else if a = ''admin'' \<and> b = ''blocklist'' then by_method [(GET, GetBlocklist), (POST, PostBlocklist body)] m
          else NoSuchRoute
      | [a, b, c] \<Rightarrow>
          if a = ''emails'' \<and> c = ''retry'' then capture (parse_uuid tf b) [POST] m (\<lambda>ev. Routed (PostRetryEvent ev))
          else if a = ''admin'' \<and> b = ''blocklist'' then
            if c = ''cache'' then by_method [(DELETE, DeleteBlocklistCache), (POST, PostBlocklistCache)] m
            else capture (parse_i64 c) [DELETE] m (\<lambda>i. Routed (DeleteBlocklistEntry i))
          else NoSuchRoute
      | [a, b, c, d] \<Rightarrow>
          if a = ''emails'' \<and> c = ''recipients'' then capture (parse_uuid tf b) [GET] m (\<lambda>ev. Routed (GetEmailRecipient ev d))
          else NoSuchRoute
      | [a, b, c, d, e] \<Rightarrow>
          if a = ''emails'' \<and> c = ''recipients'' \<and> e = ''retry''
          then capture (parse_uuid tf b) [POST] m (\<lambda>ev. Routed (PostRetryRecipient ev d))
          else NoSuchRoute
      | _ \<Rightarrow> NoSuchRoute)"

section \<open>Paths\<close>

text \<open>Bytes of a path that arrive as they are: as themselves, or encoded by the \<^verbatim>\<open>url\<close> crate and decoded by axum.\<close>

definition path_char :: "char \<Rightarrow> bool" where
  "path_char c \<longleftrightarrow> 33 \<le> (of_char c :: nat) \<and> (of_char c :: nat) \<le> 126 \<and> c \<notin> set ''/?#%'' \<and> c \<noteq> CHR 0x5C"

definition plain_segment :: "string \<Rightarrow> bool" where
  "plain_segment s \<longleftrightarrow> s \<noteq> [] \<and> s \<noteq> ''.'' \<and> s \<noteq> ''..'' \<and> list_all path_char s"

text \<open>The segments of the path of a URL, up to its query or fragment; \<open>None\<close> is a path outside the model.\<close>

definition path_segments :: "string \<Rightarrow> string list option" where
  "path_segments url =
     (let p = takeWhile (\<lambda>c. c \<noteq> CHR ''?'' \<and> c \<noteq> CHR ''#'') url; segs = tl (split_str (CHR ''/'') p)
      in if list_all (\<lambda>s. list_all path_char s \<and> s \<noteq> ''.'' \<and> s \<noteq> ''..'') segs then Some segs else None)"

section \<open>The calls of the commands\<close>

datatype cli_call =
    CallBlocklist BlocklistAction
  | CallTemplate TemplateAction
  | CallCreate json
  | CallRetry uuid "string option"
  | CallHealth
  | CallReady

fun call_request :: "cli_call \<Rightarrow> api_request" where
  "call_request (CallBlocklist a) = blocklist_request a"
| "call_request (CallTemplate a) = template_request a"
| "call_request (CallCreate body) = PostTemplate body"
| "call_request (CallRetry ev email) = retry_request ev email"
| "call_request CallHealth = GetHealth"
| "call_request CallReady = GetReady"

fun call_method :: "cli_call \<Rightarrow> http_method" where
  "call_method (CallBlocklist a) =
     (case a of BlList \<Rightarrow> GET | BlAdd _ _ _ \<Rightarrow> POST | BlRemove _ \<Rightarrow> DELETE | BlFlush \<Rightarrow> DELETE | BlReload \<Rightarrow> POST)"
| "call_method (CallTemplate a) = (case a of TplList \<Rightarrow> GET | TplShow _ \<Rightarrow> GET | TplActivate _ _ _ \<Rightarrow> PATCH | TplFlush _ \<Rightarrow> DELETE)"
| "call_method (CallCreate _) = POST"
| "call_method (CallRetry _ _) = POST"
| "call_method CallHealth = GET"
| "call_method CallReady = GET"

fun call_body :: "cli_call \<Rightarrow> json" where
  "call_body (CallBlocklist (BlAdd kind v reason)) = JObj [(''kind'', JStr kind), (''value'', JStr v), (''reason'', enc_option JStr reason)]"
| "call_body (CallTemplate (TplActivate ty channel disable)) = JObj [(''channel'', JStr channel), (''active'', JBool (\<not> disable))]"
| "call_body (CallCreate body) = body"
| "call_body _ = JNull"

text \<open>The URL behind the base, as it is formatted: arguments are inserted without encoding.\<close>

fun call_path :: "cli_call \<Rightarrow> string" where
  "call_path (CallBlocklist a) =
     (case a of
        BlList \<Rightarrow> ''/admin/blocklist''
      | BlAdd _ _ _ \<Rightarrow> ''/admin/blocklist''
      | BlRemove i \<Rightarrow> ''/admin/blocklist/'' @ int_to_string i
      | BlFlush \<Rightarrow> ''/admin/blocklist/cache''
      | BlReload \<Rightarrow> ''/admin/blocklist/cache'')"
| "call_path (CallTemplate a) =
     (case a of
        TplList \<Rightarrow> ''/templates''
      | TplShow ty \<Rightarrow> ''/templates/'' @ ty
      | TplActivate ty _ _ \<Rightarrow> ''/templates/'' @ ty
      | TplFlush (Some ty) \<Rightarrow> ''/template-cache/'' @ ty
      | TplFlush None \<Rightarrow> ''/template-cache'')"
| "call_path (CallCreate _) = ''/templates''"
| "call_path (CallRetry ev email) =
     (case email of Some e \<Rightarrow> ''/emails/'' @ ev @ ''/recipients/'' @ e @ ''/retry'' | None \<Rightarrow> ''/emails/'' @ ev @ ''/retry'')"
| "call_path CallHealth = ''/health''"
| "call_path CallReady = ''/ready''"

definition call_route :: "text_formats \<Rightarrow> cli_call \<Rightarrow> route_result option" where
  "call_route tf c = map_option (\<lambda>segs. route tf (call_method c) segs (call_body c)) (path_segments (call_path c))"

text \<open>The texts that reach a path, and what the handlers' extractors need.\<close>

fun call_texts :: "cli_call \<Rightarrow> string list" where
  "call_texts (CallTemplate (TplShow ty)) = [ty]"
| "call_texts (CallTemplate (TplActivate ty _ _)) = [ty]"
| "call_texts (CallTemplate (TplFlush (Some ty))) = [ty]"
| "call_texts (CallRetry ev email) = ev # (case email of Some e \<Rightarrow> [e] | None \<Rightarrow> [])"
| "call_texts _ = []"

fun call_numbers_ok :: "text_formats \<Rightarrow> cli_call \<Rightarrow> bool" where
  "call_numbers_ok tf (CallBlocklist (BlRemove i)) \<longleftrightarrow> - (2 ^ 63) \<le> i \<and> i < 2 ^ 63"
| "call_numbers_ok tf (CallRetry ev _) \<longleftrightarrow> parse_uuid tf ev = Some ev"
| "call_numbers_ok tf _ \<longleftrightarrow> True"

section \<open>Numbers in a path\<close>

lemma of_digit_char: "d < 10 \<Longrightarrow> (of_char (digit_char d) :: nat) = 48 + d"
  by (simp add: digit_char_def)

lemma is_digit_char: "d < 10 \<Longrightarrow> is_digit (digit_char d)"
  by (simp add: is_digit_def of_digit_char)

lemma nat_to_string_digits: "list_all is_digit (nat_to_string n)"
proof (induction n rule: nat_to_string.induct)
  case (1 n)
  then show ?case by (subst nat_to_string.simps) (auto simp: is_digit_char)
qed

lemma parse_nat_to_string: "parse_digits (nat_to_string n) = Some n"
proof -
  have "foldl (\<lambda>a c. 10 * a + (of_char c - 48)) 0 (nat_to_string n) = n"
  proof (induction n rule: nat_to_string.induct)
    case (1 n)
    then show ?case by (subst nat_to_string.simps) (auto simp: of_digit_char)
  qed
  then show ?thesis by (simp add: parse_digits_def nat_to_string_digits)
qed

lemma digit_not_sign: "is_digit c \<Longrightarrow> c \<noteq> CHR ''-'' \<and> c \<noteq> CHR ''+''"
  by (auto simp: is_digit_def)

lemma parse_i64_to_string: "- (2 ^ 63) \<le> i \<Longrightarrow> i < 2 ^ 63 \<Longrightarrow> parse_i64 (int_to_string i) = Some i"
proof (cases "i < 0")
  case False
  assume r: "- (2 ^ 63) \<le> i" "i < 2 ^ 63"
  obtain c s where cs: "nat_to_string (nat i) = c # s" by (metis list.exhaust nat_to_string_nonempty)
  with nat_to_string_digits [of "nat i"] have "c \<noteq> CHR ''-'' \<and> c \<noteq> CHR ''+''" by (simp add: digit_not_sign)
  with parse_nat_to_string [of "nat i"] cs False r show ?thesis by (simp add: parse_i64_def int_to_string_def)
qed (simp add: parse_i64_def int_to_string_def parse_nat_to_string)

section \<open>From the call to the endpoint\<close>

fun call_segments :: "cli_call \<Rightarrow> string list" where
  "call_segments (CallBlocklist a) =
     [''admin'', ''blocklist''] @ (case a of BlRemove i \<Rightarrow> [int_to_string i] | BlFlush \<Rightarrow> [''cache''] | BlReload \<Rightarrow> [''cache''] | _ \<Rightarrow> [])"
| "call_segments (CallTemplate a) =
     (case a of
        TplList \<Rightarrow> [''templates''] | TplShow ty \<Rightarrow> [''templates'', ty] | TplActivate ty _ _ \<Rightarrow> [''templates'', ty]
      | TplFlush m \<Rightarrow> ''template-cache'' # (case m of Some ty \<Rightarrow> [ty] | None \<Rightarrow> []))"
| "call_segments (CallCreate _) = [''templates'']"
| "call_segments (CallRetry ev email) = [''emails'', ev] @ (case email of Some e \<Rightarrow> [''recipients'', e] | None \<Rightarrow> []) @ [''retry'']"
| "call_segments CallHealth = [''health'']"
| "call_segments CallReady = [''ready'']"

definition joined_path :: "string list \<Rightarrow> string" where
  "joined_path segs = concat (map (\<lambda>s. CHR ''/'' # s) segs)"

lemma call_path_segments: "call_path c = joined_path (call_segments c)"
  by (cases c rule: call_path.cases) (auto simp: joined_path_def split: BlocklistAction.split TemplateAction.split option.split)

lemma split_joined: "list_all (\<lambda>s. c \<notin> set s) segs \<Longrightarrow> split_str c (concat (map (\<lambda>s. c # s) segs)) = [] # segs"
proof (induction segs)
  case (Cons s segs)
  have "split_str c (s @ concat (map (\<lambda>s. c # s) segs)) = s # segs" if "c \<notin> set s"
    using that by (induction s) (use Cons in \<open>auto simp: case_prod_beta split: list.splits\<close>)
  with Cons.prems show ?case by simp
qed simp

lemma path_char_facts [simp]: "\<not> path_char (CHR ''/'')" "\<not> path_char (CHR ''?'')" "\<not> path_char (CHR ''#'')"
  by (simp_all add: path_char_def)

lemma plain_not_special: "plain_segment s \<Longrightarrow> CHR ''/'' \<notin> set s \<and> CHR ''?'' \<notin> set s \<and> CHR ''#'' \<notin> set s"
  by (auto simp: plain_segment_def list_all_iff)

lemma path_segments_joined:
  assumes "list_all plain_segment segs" "rest = [] \<or> hd rest = CHR ''?'' \<or> hd rest = CHR ''#''"
  shows "path_segments (joined_path segs @ rest) = Some segs"
proof -
  have p: "list_all (\<lambda>s. CHR ''/'' \<notin> set s) segs" "list_all (\<lambda>s. list_all path_char s \<and> s \<noteq> ''.'' \<and> s \<noteq> ''..'') segs"
    using assms(1) plain_not_special by (auto simp: list_all_iff plain_segment_def)
  have "CHR ''?'' \<notin> set s \<and> CHR ''#'' \<notin> set s" if "s \<in> set segs" for s
    using assms(1) that plain_not_special by (auto simp: list_all_iff)
  then have "\<forall>c \<in> set (joined_path segs). c \<noteq> CHR ''?'' \<and> c \<noteq> CHR ''#''" by (auto simp: joined_path_def)
  then have "takeWhile (\<lambda>c. c \<noteq> CHR ''?'' \<and> c \<noteq> CHR ''#'') (joined_path segs @ rest) = joined_path segs"
    using assms(2) by (cases rest) auto
  with split_joined [OF p(1)] p(2) show ?thesis by (simp add: path_segments_def joined_path_def)
qed

lemma int_to_string_plain: "plain_segment (int_to_string i)"
proof -
  have d: "path_char c" if "is_digit c" for c using that by (auto simp: path_char_def is_digit_def)
  have "list_all path_char (nat_to_string n)" for n
    using nat_to_string_digits [of n] d by (auto simp: list_all_iff)
  moreover have "nat_to_string n \<noteq> CHR ''.'' # s" for n s
    using nat_to_string_digits [of n] by (auto simp: is_digit_def)
  ultimately show ?thesis by (simp add: plain_segment_def int_to_string_def path_char_def)
qed

lemma fixed_segments_plain:
  "list_all plain_segment [''admin'', ''blocklist'', ''cache'', ''templates'', ''template-cache'', ''emails'', ''recipients'', ''retry'', ''health'', ''ready'']"
  by code_simp

lemma call_segments_plain: "list_all plain_segment (call_texts c) \<Longrightarrow> list_all plain_segment (call_segments c)"
  using fixed_segments_plain
  by (cases c rule: call_texts.cases) (auto simp: int_to_string_plain split: BlocklistAction.split TemplateAction.split option.splits)

lemma call_segments_route:
  assumes "call_numbers_ok tf c"
  shows "route tf (call_method c) (call_segments c) (call_body c) = Routed (call_request c)"
proof (cases "\<exists>i. c = CallBlocklist (BlRemove i)")
  case True
  then obtain i where c: "c = CallBlocklist (BlRemove i)" by blast
  with assms have i: "parse_i64 (int_to_string i) = Some i" by (simp add: parse_i64_to_string)
  have "parse_i64 ''cache'' = None" by code_simp
  with i have "int_to_string i \<noteq> ''cache''" by auto
  with i c show ?thesis by (simp add: route_def capture_def)
next
  case False
  with assms show ?thesis
    by (cases c rule: call_body.cases)
      (auto simp: route_def by_method_def capture_def retry_request_def split: BlocklistAction.split TemplateAction.split option.split)
qed

text \<open>A captured recipient is a segment of the path.\<close>

lemma routed_recipient_chars:
  assumes "call_route tf c = Some (Routed (PostRetryRecipient ev e))"
  shows "list_all path_char e"
proof -
  from assms obtain segs where segs: "path_segments (call_path c) = Some segs" "route tf (call_method c) segs (call_body c) = Routed (PostRetryRecipient ev e)"
    by (auto simp: call_route_def)
  then have "e \<in> set segs" by (auto simp: route_def by_method_def capture_def split: list.splits if_splits option.splits)
  moreover have "list_all (list_all path_char) segs" using segs(1) by (auto simp: path_segments_def Let_def list_all_iff split: if_splits)
  ultimately show ?thesis by (auto simp: list_all_iff)
qed

text \<open>
  C21. Every call of the command line reaches its endpoint: for every command, the URL that it formats and the method it uses select, in the service's table of routes,
  exactly the endpoint with the arguments that the command means, as long as the texts inserted into the path are plain segments.
  They are not encoded, though, and an address may hold a slash, a question mark or a number sign. A retry for such a recipient never reaches the
  endpoint of that recipient. What follows a question mark or a number sign is not part of the path, so the call is
  answered with 405, and one slash more gives 404; but an address that continues with \<^verbatim>\<open>/retry?\<close> or \<^verbatim>\<open>/retry#\<close> after a plain part is routed to the retry of that part,
  another recipient.
\<close>

theorem cli_calls_reach_endpoints:
  assumes "list_all plain_segment (call_texts c)" "call_numbers_ok tf c" "list_all plain_segment [ev, a]" "parse_uuid tf ev = Some ev"
    and "q = CHR ''?'' \<or> q = CHR ''#''" "CHR ''/'' \<in> set addr \<or> CHR ''?'' \<in> set addr \<or> CHR ''#'' \<in> set addr"
  shows "call_route tf c = Some (Routed (call_request c)) \<and>
    call_route tf (CallRetry ev0 (Some addr)) \<noteq> Some (Routed (PostRetryRecipient ev' addr)) \<and>
    call_route tf (CallRetry ev (Some (a @ q # b))) = Some MethodNotAllowed \<and>
    call_route tf (CallRetry ev (Some (a @ ''/retry'' @ q # b))) = Some (Routed (PostRetryRecipient ev a)) \<and>
    (plain_segment b \<longrightarrow> call_route tf (CallRetry ev (Some (a @ CHR ''/'' # b))) = Some NoSuchRoute)"
proof -
  have "path_segments (call_path c) = Some (call_segments c)"
    using path_segments_joined [OF call_segments_plain [OF assms(1)], of "[]"] by (simp add: call_path_segments)
  then have 1: "call_route tf c = Some (Routed (call_request c))" by (simp add: call_route_def call_segments_route [OF assms(2)])
  have 2: "call_route tf (CallRetry ev0 (Some addr)) \<noteq> Some (Routed (PostRetryRecipient ev' addr))"
    using routed_recipient_chars [of tf "CallRetry ev0 (Some addr)" ev' addr] assms(6) path_char_facts unfolding list_all_iff by blast
  have "path_segments (joined_path [''emails'', ev, ''recipients'', a] @ q # b @ ''/retry'') = Some [''emails'', ev, ''recipients'', a]"
    by (rule path_segments_joined) (use assms(3,5) fixed_segments_plain in auto)
  then have 3: "call_route tf (CallRetry ev (Some (a @ q # b))) = Some MethodNotAllowed"
    by (simp add: call_route_def joined_path_def route_def capture_def)
  have "path_segments (joined_path [''emails'', ev, ''recipients'', a, ''retry''] @ q # b @ ''/retry'') = Some [''emails'', ev, ''recipients'', a, ''retry'']"
    by (rule path_segments_joined) (use assms(3,5) fixed_segments_plain in auto)
  then have 4: "call_route tf (CallRetry ev (Some (a @ ''/retry'' @ q # b))) = Some (Routed (PostRetryRecipient ev a))"
    using assms(4) by (simp add: call_route_def joined_path_def route_def capture_def)
  have 5: "call_route tf (CallRetry ev (Some (a @ CHR ''/'' # b))) = Some NoSuchRoute" if "plain_segment b"
  proof -
    have "path_segments (joined_path [''emails'', ev, ''recipients'', a, b, ''retry''] @ []) = Some [''emails'', ev, ''recipients'', a, b, ''retry'']"
      by (rule path_segments_joined) (use assms(3) that fixed_segments_plain in auto)
    then show ?thesis by (simp add: call_route_def joined_path_def route_def)
  qed
  from 1 2 3 4 5 show ?thesis by blast
qed

theorem cli_calls_reach_endpoints_witness:
  "is_valid_email ''a{b@x.org'' \<and> is_valid_email ''a/b@x.org'' \<and> is_valid_email ''a/retry?b@x.org'' \<and>
   call_route sample_formats (CallRetry ''e1'' (Some ''a{b@x.org'')) = Some (Routed (PostRetryRecipient ''e1'' ''a{b@x.org'')) \<and>
   call_route sample_formats (CallRetry ''e1'' (Some ''a/b@x.org'')) = Some NoSuchRoute \<and>
   call_route sample_formats (CallRetry ''e1'' (Some ''a/retry?b@x.org'')) = Some (Routed (PostRetryRecipient ''e1'' ''a''))"
proof -
  have p: "list_all plain_segment (call_texts (CallRetry ''e1'' (Some ''a{b@x.org'')))" "list_all plain_segment [''e1'', ''a'']" "plain_segment ''b@x.org''"
    and v: "is_valid_email ''a{b@x.org''" "is_valid_email ''a/b@x.org''" "is_valid_email ''a/retry?b@x.org''"
    by code_simp+
  have u: "call_numbers_ok sample_formats (CallRetry ''e1'' (Some ''a{b@x.org''))" "parse_uuid sample_formats ''e1'' = Some ''e1''"
    by (simp_all add: sample_formats_def)
  have "call_route sample_formats (CallRetry ''e1'' (Some ''a{b@x.org'')) = Some (Routed (retry_request ''e1'' (Some ''a{b@x.org'')))"
    "call_route sample_formats (CallRetry ''e1'' (Some (''a'' @ CHR ''/'' # ''b@x.org''))) = Some NoSuchRoute"
    "call_route sample_formats (CallRetry ''e1'' (Some (''a'' @ ''/retry'' @ CHR ''?'' # ''b@x.org''))) = Some (Routed (PostRetryRecipient ''e1'' ''a''))"
    using cli_calls_reach_endpoints [OF p(1) u(1) p(2) u(2), of "CHR ''?''" "''/''" _ _ "''b@x.org''"] p(3) by simp_all
  with v show ?thesis by (simp add: retry_request_def)
qed

end
