(* ===== verification/Spec2Isabelle.thy ===== *)
theory Spec2Isabelle
  imports Concurrent_Delivery Outbox_Worker Api_Props Runner Service_Main Anctl_Props Cli_Routes
begin

text \<open>
  Verification library of anvil-notify, a notification service: business services write events to an
  outbox table or post them to an HTTP interface, the events travel through RabbitMQ, and a consumer
  renders a template and mails every recipient, with a delivery log in PostgreSQL.

  \<^bold>\<open>Parts and theories.\<close> One theory per component, in the order of the calls.
    \<^item> \<^verbatim>\<open>Prelude\<close>: strings, Rust integer operations, result lists, and the proof collections.
    \<^item> \<^verbatim>\<open>Common\<close>, \<^verbatim>\<open>Email_Validation\<close>, \<^verbatim>\<open>Json\<close>, \<^verbatim>\<open>Events\<close>: \<^verbatim>\<open>crates/common\<close>, that is
      the errors, statuses and modes, the address validator, serde's decoding rules and the two
      event envelopes with their wire format.
    \<^item> \<^verbatim>\<open>Recipient_Filter\<close>, \<^verbatim>\<open>Rate_Limiter\<close>, \<^verbatim>\<open>Mailer\<close>, \<^verbatim>\<open>Fetcher\<close>, \<^verbatim>\<open>Backoff\<close>: the crates of
      the same names; \<^verbatim>\<open>Backoff\<close> is the contract that every retry delay meets.
    \<^item> \<^verbatim>\<open>Notification_Log\<close>, \<^verbatim>\<open>Log_Invariants\<close>, \<^verbatim>\<open>Ttl_Cache\<close>, \<^verbatim>\<open>Template_Store\<close>, \<^verbatim>\<open>Block_List_Store\<close>, \<^verbatim>\<open>Cli_Queries\<close>:
      \<^verbatim>\<open>crates/store\<close>. A table is the list of its rows, an SQL statement a function on it; the
      caches are an interface (locale) with the laws of a TTL cache, and a cached read is a look-up, a SELECT and an insertion that
      other operations may come between; the last one holds the reports.
    \<^item> \<^verbatim>\<open>Processor\<close>, \<^verbatim>\<open>Processor_Props\<close>, \<^verbatim>\<open>Delivery\<close>, \<^verbatim>\<open>Delivery_Props\<close>, \<^verbatim>\<open>Runner\<close>: \<^verbatim>\<open>crates/consumer\<close>,
      from one recipient over one delivery to the connection and its queues.
    \<^item> \<^verbatim>\<open>Step_Machines\<close>, \<^verbatim>\<open>Delivery_Tasks\<close>, \<^verbatim>\<open>Concurrent_Delivery\<close>: the same recipient and group loops as machines that make one interaction per
      step, proved equal to the loops, and the system in which any number of them interleave with crashes and other log operations, of
      which every delivery is a run.
    \<^item> \<^verbatim>\<open>Broker\<close>, \<^verbatim>\<open>Outbox\<close>, \<^verbatim>\<open>Outbox_Props\<close>, \<^verbatim>\<open>Outbox_Worker\<close>: \<^verbatim>\<open>crates/outbox\<close>; a poll is a machine that makes one interaction (fetch, publish with its
      confirmation, UPDATE) per step, so polls, reapers and crashes interleave in a step relation, and the
      reconnecting worker, whose polls a shutdown can drop at any step, refines it.
    \<^item> \<^verbatim>\<open>Api\<close>, \<^verbatim>\<open>Api_Routes\<close>, \<^verbatim>\<open>Api_Props\<close>: \<^verbatim>\<open>crates/api\<close>, the handlers, publisher, served documents, router and middleware.
    \<^item> \<^verbatim>\<open>Mcp\<close>, \<^verbatim>\<open>Mcp_Props\<close>: \<^verbatim>\<open>crates/mcp\<close>, the tools, what they can change, and the block list as service and MCP server share it.
    \<^item> \<^verbatim>\<open>Service\<close>, \<^verbatim>\<open>Service_Props\<close>: \<^verbatim>\<open>src/main.rs\<close>, \<^verbatim>\<open>src/config.rs\<close> and the variables of \<^verbatim>\<open>src/outbox_worker.rs\<close>: checks of the
      configuration, start-up, the reaper task and the router with both interfaces.
    \<^item> \<^verbatim>\<open>Syslog\<close>, \<^verbatim>\<open>Service_Tasks\<close>: \<^verbatim>\<open>src/syslog_layer.rs\<close>, and what else the binaries do: log sinks, defaults and debug output of the
      configuration, the final join, the starts of the outbox worker and of the stand-alone MCP server.
    \<^item> \<^verbatim>\<open>Service_Main\<close>: \<^verbatim>\<open>AppConfig::load\<close> from its sources and the process from its log sink to its exit.
    \<^item> \<^verbatim>\<open>Config_Layers\<close>, \<^verbatim>\<open>Anctl\<close>, \<^verbatim>\<open>Anctl_Props\<close>, \<^verbatim>\<open>Cli_Routes\<close>: \<^verbatim>\<open>crates/anctl\<close>, every command from its parsed arguments to
      its output, and the way of its requests through the table of routes of \<^verbatim>\<open>crates/api\<close>.
    \<^item> this theory: the properties that span outbox, interfaces, command line and consumer.

  \<^bold>\<open>State and effects.\<close> Every component's state is a record that its operations take and return.
  What the world answers (a failing statement, the clock, the mail server, the broker, cancelled
  sleeps, generated ids) is a field of an environment record, indexed by the count of interactions, so a
  theorem holds for every behaviour of the world. Errors are values of \<^verbatim>\<open>AppError\<close> (texts and tool errors at
  the edges) in a sum type, one
  branch per raise and early return. Machine integers are words where they can wrap (retry
  counters, delays, ages), row counters carry the bound of the database type.

  \<^bold>\<open>Loops.\<close> The retry loops of the consumer have no bound of their own and are partial functions in
  the option monad: \<open>None\<close> means that the loop never returns, and both its returning and its not
  returning are theorems. The worker, reaper and poll loops run over a script of what happens to them, one entry per
  turn, and \<open>None\<close> is that the script is too short; that they return when the script has a shutdown is a
  theorem. All other loops are structural. No fuel is used.

  \<^bold>\<open>What is shown.\<close> Safety: in every interleaving of deliveries, redeliveries, crashes, retries and reapers an event is mailed at most
  once to an address (in group mode: to the first of the To line), never
  without a row, never to an invalid address, nor in individual mode to a blocked one; the log stays consistent and never forgets; a
  published outbox row was confirmed and its message decodes to its event; an unauthorised
  request to the API changes nothing (the probes and the documents are open to everyone); no request breaks the stores and each tool changes only its own; a service
  that starts is configured soundly. Function: acknowledgement decision, filter
  policy, wire round trip, caches that show a write of their process from its invalidation on, unless a read of the old row was under way, and any write within the time to live
  and the latency of a read, topology, priorities, delays, reports
  that agree, template files that are delivered as they were written, commands with plain arguments that reach their endpoints, log lines that read
  back. Termination and
  liveness: which runs return, exactly for a recipient's loop in a working service, and on every shutdown for the outbox worker. And the places where the code departs from its
  intent: a transient failure and an operator's retry are never sent but spin, a group with
  a blocked first recipient mails it, the legacy envelope is never promoted, a published row is
  reopened by a stalled worker and sent again, a read under way puts an outdated template or block list into the cache after its invalidation, the retry of an address with
  a slash or question mark misses its recipient and can hit another, an unconfirmed deferral is delivered twice, the shutdown can skip the drain, the MCP endpoint asks for no
  token, a reaper interval of zero kills the reaper, the command line cannot list the block list, a tab breaks a log line.

  \<^bold>\<open>Interfaces.\<close> \<open>delivery_log\<close>, \<open>moka_cache\<close>, \<open>template_cache\<close>, \<open>block_list_cache\<close>, \<open>expiring_cache\<close>, \<open>block_list_age\<close>, \<open>lowercase\<close>,
  \<open>address_policy\<close>, \<open>json_codec\<close>, \<open>backoff\<close>, \<open>turn_machine\<close>, \<open>outbox_others\<close>, \<open>minting\<close>, \<open>api_stores\<close> and \<open>http_service\<close> are locales; each is interpreted on the
  definitions of the component that provides it.

  \<^bold>\<open>Not modelled.\<close> The libraries (sqlx, lapin, lettre, reqwest, minijinja, governor, moka, axum, rmcp, config,
  chrono, uuid, hmac) are parameters with the behaviour the code relies on as hypotheses.
  In \<^verbatim>\<open>Delivery\<close> the recipient tasks of a delivery run in spawn order; \<^verbatim>\<open>Concurrent_Delivery\<close> lifts this to every order. Left out: the formats of
  configuration files and values, metrics, argument parsing, the layout of tables and the percent-encoding of URLs (a segment of printable
  ASCII characters without slash, backslash, question mark, number sign and percent sign arrives as it is). Statements of the database are atomic, and one that leaves the order of equal rows open
  keeps that of the table (two statements may see different tables with the same rows where a theorem compares them).
\<close>

section \<open>Wire\<close>

text \<open>A message whose parsed text is the encoding of an event decodes to that event.\<close>

lemma decode_encoded_event:
  "event_text_ok (dv_formats dv) e \<Longrightarrow> dv_parse dv data = Some (enc_event (dv_formats dv) e) \<Longrightarrow> decode_event dv data = Some e"
  by (simp add: decode_event_def dec_enc_event)

text \<open>
  C9. From the outbox to the consumer: in every reachable state of the outbox, a published row
  has a positively confirmed message that the consumer decodes to the event
  built from this row, with the row's event id and with email options, so it is not skipped; the text formats of ids
  and times are assumed to round-trip.
\<close>

theorem published_event_reaches_consumer:
  assumes "system_reachable (dv_formats dv) maxf s" "r \<in> set (ow_table (os_world s))" "ob_status r = ObPublished"
    and "\<forall>e. outbox_event (dv_formats dv) (claim_of r) = Ok e \<longrightarrow> event_text_ok (dv_formats dv) e"
  shows "\<exists>body e opts. (ob_id r, body, Confirmed ConfirmAck) \<in> set (ow_sent (os_world s)) \<and>
    outbox_event (dv_formats dv) (claim_of r) = Ok e \<and> ne_event_id e = ob_event_id r \<and>
    co_email (ne_channel_overrides e) = Some opts \<and>
    (\<forall>data. dv_parse dv data = Some body \<longrightarrow> decode_event dv data = Some e)"
proof -
  let ?tf = "dv_formats dv"
  from system_reachable_inv [OF assms(1)] assms(2,3) obtain e where
    e: "outbox_event ?tf (claim_of r) = Ok e" "(ob_id r, enc_event ?tf e, Confirmed ConfirmAck) \<in> set (ow_sent (os_world s))"
    by (auto simp: system_inv_def table_inv_def row_ok_def)
  from e(1) have "ne_event_id e = ob_event_id r" and "co_email (ne_channel_overrides e) \<noteq> None"
    by (auto simp: outbox_event_def Let_def claim_of_def split: sum.splits)
  moreover have "\<forall>data. dv_parse dv data = Some (enc_event ?tf e) \<longrightarrow> decode_event dv data = Some e"
    using decode_encoded_event assms(4) e(1) by blast
  ultimately show ?thesis using e by blast
qed

definition sample_delivery_env :: "json \<Rightarrow> delivery_env" where
  "sample_delivery_env body =
     \<lparr>dv_parse = (\<lambda>s. if s = ''m'' then Some body else None), dv_formats = sample_formats, dv_utc_now = 9,
      dv_publish = (\<lambda>_. Confirmed ConfirmAck), dv_status_text = (\<lambda>_. ''?''), dv_fetch_now = (\<lambda>_. 9),
      dv_fetch_cancelled = (\<lambda>_. True), dv_fetch_envs = (\<lambda>_. sample_fetch_env)\<rparr>"

theorem published_event_reaches_consumer_witness:
  "\<exists>e. decode_event (sample_delivery_env sample_body) ''m'' = Some e \<and> ne_event_id e = ''e1''"
proof -
  let ?dv = "sample_delivery_env sample_body"
  have f: "dv_formats ?dv = sample_formats" "dv_parse ?dv ''m'' = Some sample_body" by (simp_all add: sample_delivery_env_def)
  have "event_text_ok sample_formats e" if "outbox_event sample_formats (claim_of (published 5)) = Ok e" for e
    using that by (auto simp: outbox_event_def Let_def claim_of_def published_def sample_row_def deserialize_optional_def
        event_text_ok_def datetime_text_ok_def sample_formats_def split: sum.splits)
  then show ?thesis
    using published_event_reaches_consumer [of ?dv 5, unfolded f(1), OF sample_run, of "published 5"] f(2)
    by (fastforce simp: published_def sample_row_def)
qed

section \<open>Direct sends\<close>

lemma guard_Ok [simp]: "guard b e = Inr u \<longleftrightarrow> b"
  by (simp add: guard_def)

lemma check_addresses_Ok [simp]: "check_addresses what rs = Inr u \<longleftrightarrow> (\<forall>r \<in> set rs. is_valid_email (r_email r))"
  by (induction rs) auto

lemma check_send_request_Ok:
  "check_send_request n now req = Inr u \<Longrightarrow>
   eo_recipients (sr_email req) \<noteq> [] \<and> length (eo_recipients (sr_email req)) \<le> n \<and>
   (\<forall>r \<in> set (eo_recipients (sr_email req) @ eo_cc (sr_email req) @ eo_bcc (sr_email req)). is_valid_email (r_email r))"
  by (auto simp: check_send_request_def Let_def and_then_Inr_iff)

lemma publisher_publish_Ok:
  assumes "publisher_publish env body s = (Inr u, s')"
  shows "\<exists>c. last (pb_sent (as_publisher s')) = (body, Confirmed c) \<and> pb_sent (as_publisher s') \<noteq> []"
proof -
  obtain ms where ms: "pb_sent (as_publisher s') = pb_sent (as_publisher s) @ map (Pair body) ms" "ms \<noteq> []" "\<exists>c. last ms = Confirmed c"
    using publish_attempts_outcome [OF assms [unfolded publisher_publish_def]] by (auto simp: publish_outcome_def is_ok_def)
  then show ?thesis by (auto simp: last_map)
qed

text \<open>
  C10. An accepted send is processed: when the send endpoint answers with success, the last message handed to the
  broker is confirmed, and a consumer with at least the same recipient limit neither rejects nor
  skips it: it decodes to an event with the request's email options, which is due or deferred to its
  send time, and every To, CC and BCC address of it is valid.
\<close>

theorem accepted_send_is_processed:
  assumes "send_email env req s = (Ok resp, s')" "ae_formats env = dv_formats dv"
    and "as_max_recipients s \<le> cf_max_recipients_per_event cfg"
    and "event_text_ok (dv_formats dv)
      (send_event (or_default (ae_new_uuid env (as_tick s)) (sr_event_id req)) (ae_now env (as_tick s)) req)"
  shows "rs_status resp = 202 \<and>
    (\<exists>body c. last (pb_sent (as_publisher s')) = (body, Confirmed c) \<and>
      (\<forall>data. dv_parse dv data = Some body \<longrightarrow>
         (\<exists>event. due dv cfg data event (sr_email req)) \<or> (\<exists>t. deferred dv cfg data (sr_email req) t))) \<and>
    (\<forall>r \<in> set (eo_recipients (sr_email req) @ eo_cc (sr_email req) @ eo_bcc (sr_email req)). is_valid_email (r_email r))"
proof -
  let ?now = "ae_now env (as_tick s)" and ?i = "or_default (ae_new_uuid env (as_tick s)) (sr_event_id req)"
  let ?ev = "send_event ?i ?now req"
  from assms(1) obtain u u' where ok: "check_send_request (as_max_recipients s) ?now req = Inr u"
    and pub: "publisher_publish env (enc_event (ae_formats env) ?ev) s = (Inr u', s')" and st: "rs_status resp = 202"
    by (auto simp: send_email_def Let_def json_response_def split: sum.splits prod.splits)
  note c = check_send_request_Ok [OF ok]
  have "due dv cfg data ?ev (sr_email req) \<or> (\<exists>t. deferred dv cfg data (sr_email req) t)"
    if "dv_parse dv data = Some (enc_event (ae_formats env) ?ev)" for data
  proof -
    have "decode_event dv data = Some ?ev" using decode_encoded_event [OF assms(4)] that assms(2) by simp
    with c assms(3) show ?thesis by (fastforce simp: due_def deferred_def send_event_def not_le)
  qed
  with publisher_publish_Ok [OF pub] st c show ?thesis by blast
qed

definition sample_request :: SendEmailRequest where
  "sample_request =
     \<lparr>sr_event_id = None, sr_event_type = ''T'', sr_payload = JObj [],
      sr_email = to_all [''a@x.org''], sr_source = None\<rparr>"

theorem accepted_send_is_processed_witness:
  "\<exists>resp s' body c. send_email sample_api_env sample_request (sample_api_state empty_db) = (Ok resp, s') \<and>
     last (pb_sent (as_publisher s')) = (body, Confirmed c) \<and>
     (\<exists>event. due (sample_delivery_env body) consumer_config_default ''m'' event (sr_email sample_request))"
proof -
  let ?run = "send_email sample_api_env sample_request (sample_api_state empty_db)"
  obtain r s' where run: "?run = (r, s')" by fastforce
  have "is_ok (fst ?run)" by code_simp
  with run obtain resp where resp: "r = Ok resp" by (cases r) (simp_all add: is_ok_def)
  let ?body = "fst (last (pb_sent (as_publisher s')))"
  let ?dv = "sample_delivery_env ?body"
  have f: "dv_formats ?dv = sample_formats" "dv_parse ?dv ''m'' = Some ?body" by (simp_all add: sample_delivery_env_def)
  have e: "event_text_ok (dv_formats ?dv) (send_event (or_default (ae_new_uuid sample_api_env (as_tick (sample_api_state empty_db)))
      (sr_event_id sample_request)) (ae_now sample_api_env (as_tick (sample_api_state empty_db))) sample_request)"
    by (simp add: f event_text_ok_def send_event_def sample_request_def sample_api_env_def in_process_stores_def or_default_def
        sample_formats_def datetime_text_ok_def to_all_def)
  have m: "as_max_recipients (sample_api_state empty_db) \<le> cf_max_recipients_per_event consumer_config_default"
    by (simp add: sample_api_state_def consumer_config_default_def)
  have "ae_formats sample_api_env = dv_formats ?dv" by (simp add: f sample_api_env_def in_process_stores_def)
  from accepted_send_is_processed [OF run [unfolded resp] this m e]
  obtain body c where b: "last (pb_sent (as_publisher s')) = (body, Confirmed c)"
    "(\<exists>event. due ?dv consumer_config_default ''m'' event (sr_email sample_request)) \<or>
     (\<exists>t. deferred ?dv consumer_config_default ''m'' (sr_email sample_request) t)"
    using f(2) by auto
  moreover have "\<not> deferred ?dv consumer_config_default ''m'' (sr_email sample_request) t" for t
    by (simp add: deferred_def sample_request_def to_all_def)
  ultimately show ?thesis using run resp by auto
qed

section \<open>Sends by the MCP server\<close>

text \<open>
  C18. A send by the MCP tool reaches the consumer: when the tool answers that the event is published, exactly one message was handed to the configured
  exchange under the configured routing key, the recipient's address is valid, and the consumer decodes the message to an event
  that is due at once for that one recipient. Two departures are part of the statement: any confirmation counts as published, a refusal by the
  broker included, and an event id that is not a UUID is silently replaced by a fresh one, so that the call is not idempotent.
\<close>

theorem mcp_send_is_processed:
  assumes "tool_send_email env a s = (Ok reply, s')" "me_formats env = dv_formats dv"
    and "event_text_ok (dv_formats dv) (mcp_event env (ns_tick s) a)" "1 \<le> cf_max_recipients_per_event cfg"
  shows "is_valid_email (sa_to a) \<and>
    (\<exists>msg c. ns_sent s' = ns_sent s @ [msg] \<and> mm_confirmation msg = Ok c \<and> mm_exchange msg = mq_exchange (mc_amqp (ns_cfg s)) \<and>
      mm_routing_key msg = mq_routing_key (mc_amqp (ns_cfg s)) \<and>
      (\<forall>data. dv_parse dv data = Some (mm_body msg) \<longrightarrow>
         (\<exists>opts. due dv cfg data (mcp_event env (ns_tick s) a) opts \<and> map r_email (eo_recipients opts) = [sa_to a]))) \<and>
    (\<forall>t. sa_event_id a = Some t \<longrightarrow>
       ne_event_id (mcp_event env (ns_tick s) a) = or_default (me_new_uuid env (ns_tick s)) (parse_uuid (me_formats env) t))"
proof -
  let ?ev = "mcp_event env (ns_tick s) a"
  let ?body = "enc_event (me_formats env) ?ev"
  have valid: "is_valid_email (sa_to a)" using assms(1) by (auto simp: tool_send_email_def split: if_splits)
  with assms(1) have pub: "mcp_publish env ?body s = (Inr (), s')"
    by (auto simp: tool_send_email_def Let_def split: prod.splits sum.splits)
  then obtain c where c: "me_confirmation env (ns_tick s) = Inr c"
    by (cases "me_confirmation env (ns_tick s)") (auto simp: mcp_publish_def Let_def split: sum.splits)
  let ?msg = "\<lparr>mm_exchange = mq_exchange (mc_amqp (ns_cfg s)), mm_routing_key = mq_routing_key (mc_amqp (ns_cfg s)),
    mm_body = ?body, mm_confirmation = Ok c\<rparr>"
  have sent: "ns_sent s' = ns_sent s @ [?msg]" using pub c by (auto simp: mcp_publish_def Let_def split: sum.splits)
  have "\<exists>opts. due dv cfg data ?ev opts \<and> map r_email (eo_recipients opts) = [sa_to a]" if "dv_parse dv data = Some ?body" for data
  proof -
    have "decode_event dv data = Some ?ev" using decode_encoded_event [OF assms(3)] that assms(2) by simp
    with assms(4) show ?thesis by (auto simp: due_def mcp_event_def)
  qed
  with valid sent show ?thesis by (force simp: mcp_event_def)
qed

definition sample_send_args :: SendEmailArgs where
  "sample_send_args =
     \<lparr>sa_event_type = ''T'', sa_to = ''a@x.org'', sa_name = None, sa_payload = ''{}'', sa_from_email = None, sa_from_name = None,
      sa_subject = None, sa_body_html = None, sa_body_text = None, sa_event_id = Some ''not-a-uuid''\<rparr>"

theorem mcp_send_is_processed_witness:
  "\<exists>reply s' msg opts. tool_send_email sample_mcp_env sample_send_args sample_server = (Ok reply, s') \<and> ns_sent s' = [msg] \<and>
     mm_confirmation msg = Ok ConfirmNack \<and>
     due (sample_delivery_env (mm_body msg)) consumer_config_default ''m'' (mcp_event sample_mcp_env 0 sample_send_args) opts"
proof -
  let ?run = "tool_send_email sample_mcp_env sample_send_args sample_server"
  obtain r s' where run: "?run = (r, s')" by fastforce
  have nack: "is_ok (fst ?run) \<and> map mm_confirmation (ns_sent (snd ?run)) = [Ok ConfirmNack]" by code_simp
  with run obtain reply where reply: "r = Ok reply" by (cases r) (simp_all add: is_ok_def)
  let ?dv = "sample_delivery_env (mm_body (hd (ns_sent s')))"
  have f: "dv_formats ?dv = sample_formats" "dv_parse ?dv ''m'' = Some (mm_body (hd (ns_sent s')))" by (simp_all add: sample_delivery_env_def)
  have z: "ns_tick sample_server = 0" "ns_sent sample_server = []" by (simp_all add: sample_server_def)
  have e: "event_text_ok (dv_formats ?dv) (mcp_event sample_mcp_env (ns_tick sample_server) sample_send_args)"
    by (simp add: f event_text_ok_def mcp_event_def sample_send_args_def sample_mcp_env_def or_default_def
        sample_formats_def datetime_text_ok_def z)
  have g: "me_formats sample_mcp_env = dv_formats ?dv" "1 \<le> cf_max_recipients_per_event consumer_config_default"
    by (simp_all add: f sample_mcp_env_def consumer_config_default_def)
  from mcp_send_is_processed [OF run [unfolded reply] g(1) e g(2)] z obtain msg opts where
    msg: "ns_sent s' = [msg]" "due ?dv consumer_config_default ''m'' (mcp_event sample_mcp_env 0 sample_send_args) opts"
    using f(2) by (auto simp only: append_Nil list.sel)
  with run reply nack show ?thesis by (intro exI [of _ reply] exI [of _ s'] exI [of _ msg] exI [of _ opts]) simp
qed

section \<open>Sends by the command line\<close>

lemma check_emails_Ok [simp]: "check_emails message es = Inr u \<longleftrightarrow> (\<forall>e \<in> set es. is_valid_email e)"
  by (induction es) auto

lemma cli_recipients_emails: "map r_email (cli_recipients a) = cs_to a"
  by (rule nth_equalityI) (simp_all add: cli_recipients_def)

lemma cli_recipient_email: "r \<in> set (cli_recipients a) \<Longrightarrow> r_email r \<in> set (cs_to a)"
  by (metis cli_recipients_emails image_eqI set_map)

text \<open>What the checks of \<^verbatim>\<open>anctl send\<close> leave.\<close>

lemma cli_event_facts:
  assumes "cli_event env a = Ok ev"
  shows "\<exists>opts. co_email (ne_channel_overrides ev) = Some opts \<and> map r_email (eo_recipients opts) = cs_to a \<and> cs_to a \<noteq> [] \<and>
    eo_send_at opts = None \<and> ne_event_id ev = or_default (sn_new_uuid env) (cs_event_id a) \<and>
    (\<forall>r \<in> set (eo_recipients opts @ eo_cc opts @ eo_bcc opts). is_valid_email (r_email r)) \<and>
    (\<forall>f. eo_from_override opts = Some f \<longrightarrow> is_valid_email (fo_email f))"
proof -
  have "\<forall>f. cli_from_override a = Inr (Some f) \<longrightarrow> is_valid_email (fo_email f)"
    by (auto simp: cli_from_override_def split: option.splits if_splits)
  then show ?thesis
    using assms unfolding cli_event_def
    by (auto dest!: cli_recipient_email simp: and_then_Inr_iff cli_recipients_emails plain_recipients_def Let_def split: if_splits prod.splits option.splits)
qed

text \<open>
  C22. A send of the command line: when \<^verbatim>\<open>anctl send\<close> reports an event as published, it has handed exactly one message to the configured exchange under the
  configured routing key; every address in it is valid, and the consumer decodes it to the event with the reported id and processes it for exactly the given
  recipients, as long as these are no more than its limit, which the command does not check. A refusal by the broker counts as published, too.
\<close>

theorem cli_send_is_processed:
  assumes "send_run cenv env cfg a = (Ok (Some i), msgs)" "cli_event env a = Ok ev" "sn_formats env = dv_formats dv"
    and "event_text_ok (dv_formats dv) ev"
  shows "ne_event_id ev = i \<and> (\<exists>msg c opts. msgs = [msg] \<and> mm_confirmation msg = Ok c \<and> mm_exchange msg = mq_exchange (cc_amqp cfg) \<and>
    mm_routing_key msg = mq_routing_key (cc_amqp cfg) \<and> map r_email (eo_recipients opts) = cs_to a \<and>
    (\<forall>r \<in> set (eo_recipients opts @ eo_cc opts @ eo_bcc opts). is_valid_email (r_email r)) \<and>
    (\<forall>data. dv_parse dv data = Some (mm_body msg) \<longrightarrow>
       (due dv ccfg data ev opts \<longleftrightarrow> length (cs_to a) \<le> cf_max_recipients_per_event ccfg)))"
proof -
  obtain opts where opts: "co_email (ne_channel_overrides ev) = Some opts" "map r_email (eo_recipients opts) = cs_to a" "cs_to a \<noteq> []"
    "eo_send_at opts = None" "\<forall>r \<in> set (eo_recipients opts @ eo_cc opts @ eo_bcc opts). is_valid_email (r_email r)"
    using cli_event_facts [OF assms(2)] by auto
  have len: "length (eo_recipients opts) = length (cs_to a)" using opts(2) by (metis length_map)
  have "due dv ccfg data ev opts \<longleftrightarrow> length (cs_to a) \<le> cf_max_recipients_per_event ccfg"
    if "dv_parse dv data = Some (enc_event (sn_formats env) ev)" for data
    using that decode_encoded_event [OF assms(4)] assms(3) opts len by (auto simp: due_def)
  moreover have "cli_publish env (cc_amqp cfg) (enc_event (sn_formats env) ev) = (Inr (), msgs) \<and> ne_event_id ev = i"
    using assms(1,2) by (auto simp: send_run_def Let_def split: prod.splits sum.splits if_splits option.splits)
  then obtain c where "ne_event_id ev = i" "msgs = [\<lparr>mm_exchange = mq_exchange (cc_amqp cfg), mm_routing_key = mq_routing_key (cc_amqp cfg),
      mm_body = enc_event (sn_formats env) ev, mm_confirmation = Ok c\<rparr>]"
    by (auto simp: cli_publish_def Let_def split: if_splits option.splits)
  ultimately show ?thesis using opts(2,5) by (simp add: exI [of _ opts])
qed

definition sample_cli_send :: CliSendArgs where
  "sample_cli_send =
     \<lparr>cs_event_type = ''T'', cs_to = [''a@x.org'', ''b@x.org''], cs_name = [''A''], cs_cc = [], cs_bcc = [''c@x.org''], cs_payload = ''{}'',
      cs_from_email = None, cs_from_name = None, cs_attachment = [], cs_source = ''anctl'', cs_event_id = None, cs_yes = True,
      cs_subject = None, cs_body_html = None, cs_body_text = None\<rparr>"

definition sample_send_env :: send_env where
  "sample_send_env =
     \<lparr>sn_read_file = (\<lambda>_. None), sn_parse = (\<lambda>_. Some (JObj [])), sn_now = 7, sn_new_uuid = ''u1'', sn_formats = sample_formats,
      sn_connect = (\<lambda>_. True), sn_create_channel = True, sn_confirm_select = True, sn_exchange_declare = (\<lambda>_. True),
      sn_basic_publish = True, sn_confirmation = Some ConfirmNack\<rparr>"

theorem cli_send_is_processed_witness:
  "\<exists>msg ev opts. send_run sample_cli_env sample_send_env sample_cli_config sample_cli_send = (Ok (Some ''u1''), [msg]) \<and>
     mm_confirmation msg = Ok ConfirmNack \<and> map r_email (eo_recipients opts) = [''a@x.org'', ''b@x.org''] \<and>
     due (sample_delivery_env (mm_body msg)) consumer_config_default ''m'' ev opts"
proof -
  let ?run = "send_run sample_cli_env sample_send_env sample_cli_config sample_cli_send"
  have "is_ok (cli_event sample_send_env sample_cli_send)" by code_simp
  then obtain ev where ev: "cli_event sample_send_env sample_cli_send = Ok ev" by (auto simp: is_ok_def split: sum.splits)
  have r: "fst ?run = Ok (Some ''u1'')" "map mm_confirmation (snd ?run) = [Ok ConfirmNack]" by code_simp+
  then obtain msg where run: "?run = (Ok (Some ''u1''), [msg])" "mm_confirmation msg = Ok ConfirmNack"
    by (cases ?run) auto
  let ?dv = "sample_delivery_env (mm_body msg)"
  have f: "dv_formats ?dv = sample_formats" "dv_parse ?dv ''m'' = Some (mm_body msg)" by (simp_all add: sample_delivery_env_def)
  have "ne_event_id ev = ''u1''" "ne_timestamp ev = 7"
    using ev by (auto simp: cli_event_def and_then_Inr_iff Let_def sample_send_env_def sample_cli_send_def or_default_def)
  with cli_event_facts [OF ev] have e: "event_text_ok (dv_formats ?dv) ev"
    by (auto simp: f event_text_ok_def sample_formats_def datetime_text_ok_def)
  have g: "sn_formats sample_send_env = dv_formats ?dv" by (simp add: f sample_send_env_def)
  have "length (cs_to sample_cli_send) \<le> cf_max_recipients_per_event consumer_config_default"
    by (simp add: sample_cli_send_def consumer_config_default_def)
  with cli_send_is_processed [OF run(1) ev g e, of consumer_config_default] f(2) obtain opts where
    o: "map r_email (eo_recipients opts) = cs_to sample_cli_send" "due ?dv consumer_config_default ''m'' ev opts" by auto
  have "cs_to sample_cli_send = [''a@x.org'', ''b@x.org'']" by (simp add: sample_cli_send_def)
  with o run show ?thesis by metis
qed

section \<open>Operator retries\<close>

lemma collect_results_set: "collect_results f xs = Inr ys \<Longrightarrow> y \<in> set ys \<Longrightarrow> \<exists>x \<in> set xs. f x = Inr y"
  by (induction xs arbitrary: ys) (auto split: sum.splits)

lemma recipients_for_event_emails:
  assumes "get_recipients_for_event fault ev (Some [email]) db = Ok logs" "l \<in> set logs"
  shows "l_recipient_email l = email"
proof -
  have "collect_results (to_log db) (take 500 (filter (\<lambda>r. coalesced_email db r \<in> {email}) (event_rows db ev))) = Inr logs"
    using assms(1) by (auto simp: get_recipients_for_event_def Let_def split: option.splits if_splits)
  from collect_results_set [OF this assms(2)] obtain r where
    "coalesced_email db r = email" "to_log db r = Inr l" by (fastforce dest: in_set_takeD)
  then show ?thesis by (auto simp: to_log_def Let_def split: sum.splits)
qed

text \<open>The replayed event of one recipient: it has recipients, and all of them are that address.\<close>

lemma replay_event_recipients:
  assumes "replay_event de_text lower flt now ev only logs detail = Ok event" "\<forall>l \<in> set logs. l_recipient_email l = email"
    and "\<forall>es. only = Some es \<longrightarrow> email \<in> set es"
  shows "ne_event_id event = ev \<and> (\<exists>opts. co_email (ne_channel_overrides event) = Some opts \<and> eo_recipients opts \<noteq> [] \<and>
    (\<forall>r \<in> set (eo_recipients opts). r_email r = email) \<and> eo_send_at opts = None)"
proof -
  have "replay_recipients only logs \<noteq> []" if "\<not> list_all (\<lambda>l. l_status l = Skipped) logs"
    using that assms(2,3) by (cases only) (auto simp: replay_recipients_def list_all_iff filter_empty_conv)
  moreover have "\<forall>r \<in> set (replay_recipients only logs). r_email r = email"
    using assms(2) by (auto simp: replay_recipients_def)
  ultimately show ?thesis
    using assms(1) by (auto simp: replay_event_def Let_def and_then_Inr_iff guard_def split: if_splits)
qed

lemma reset_for_retry_pending:
  assumes "log_inv db" "reset_for_retry f now ev email db = (Ok u, db')"
  shows "non_terminal_row db' ev email"
proof -
  let ?P = "\<lambda>r. row_key ev email r \<and> (n_status r = ''FAILED'' \<or> n_status r = ''BLOCKED'')"
  have n: "rows_affected ?P db \<noteq> 0" and db': "db' = update_where ?P (retry_update now) db"
    using assms(2) by (auto simp: reset_for_retry_def update_key_def split: option.splits if_splits)
  from n obtain r where r: "r \<in> set (notification_log db)" "?P r" by (auto simp: rows_affected_def filter_empty_conv)
  with find_row_eq [OF assms(1)] have "find_row db ev email = Some r" by blast
  with r(2) have "find_row db' ev email = Some (retry_update now r)" unfolding db' by (simp add: find_row_update_where)
  moreover have "status_try_from (n_status (retry_update now r)) = Ok Pending"
    by (simp add: retry_update_def status_try_from_def)
  ultimately show ?thesis unfolding non_terminal_row_def by blast
qed

lemma republish_event_Ok:
  assumes "republish_event env ev (Some [email]) s = (Ok u, s')"
  obtains event opts c where "last (pb_sent (as_publisher s')) = (enc_event (ae_formats env) event, Confirmed c)"
    "ne_event_id event = ev" "co_email (ne_channel_overrides event) = Some opts" "eo_recipients opts \<noteq> []"
    "\<forall>r \<in> set (eo_recipients opts). r_email r = email" "eo_send_at opts = None"
proof -
  from assms obtain logs s1 detail s2 event where
    logs: "log_read env (\<lambda>f. get_recipients_for_event f ev (Some [email])) s = (Inr logs, s1)"
    and ev: "replay_event (ae_de_text env) (ae_lower env) (as_filter s2) (ae_now env (as_tick s2)) ev (Some [email]) logs detail = Inr event"
    and pub: "publisher_publish env (enc_event (ae_formats env) event) s2 = (Inr u, s')"
    by (auto simp: republish_event_def split: prod.splits sum.splits)
  have "\<forall>l \<in> set logs. l_recipient_email l = email"
    using logs recipients_for_event_emails by (auto simp: log_read_def)
  with replay_event_recipients [OF ev] publisher_publish_Ok [OF pub] that show thesis by fastforce
qed

lemma retry_recipient_Ok:
  assumes "retry_recipient env ev email s = (Ok resp, s')" "log_inv (as_log s)"
  obtains event opts c where "is_valid_email email" "non_terminal_row (as_log s') ev email"
    "last (pb_sent (as_publisher s')) = (enc_event (ae_formats env) event, Confirmed c)"
    "ne_event_id event = ev" "co_email (ne_channel_overrides event) = Some opts" "eo_recipients opts \<noteq> []"
    "\<forall>r \<in> set (eo_recipients opts). r_email r = email" "eo_send_at opts = None"
proof -
  obtain r1 s1 where reset: "log_write env (\<lambda>f n. reset_for_retry f n ev email) s = (r1, s1)" by fastforce
  obtain r2 s2 where pub: "republish_event env ev (Some [email]) s1 = (r2, s2)" by fastforce
  have v: "is_valid_email email" and r1: "\<exists>u. r1 = Inr u"
    using assms(1) reset by (cases r1; simp add: retry_recipient_def split: if_splits)+
  have "\<exists>u. r2 = Inr u" and s2: "s2 = s'"
    using assms(1) reset pub v r1 by (cases r2; auto simp: retry_recipient_def republish_or_revert_def)+
  with pub r1 obtain u u' where r1: "r1 = Inr u" and pub: "republish_event env ev (Some [email]) s1 = (Inr u', s')" by blast
  from reset have "reset_for_retry (ae_fault env (as_tick s)) (ae_now env (as_tick s)) ev email (as_log s) = (Inr u, as_log s1)"
    unfolding r1 by (auto simp: log_write_def split: prod.splits)
  then have "non_terminal_row (as_log s') ev email"
    using reset_for_retry_pending [OF assms(2)] republish_event_log [OF pub] by simp
  with v republish_event_Ok [OF pub] that show thesis by metis
qed

lemma filter_copies_log: "filter_copies env ctx rs w = (kept, w') \<Longrightarrow> w_log w' = w_log w"
  by (induction env ctx rs w arbitrary: kept w' rule: filter_copies.induct)
    (auto split: prod.splits dest: cc_bcc_allowed_effect simp: apfst_def map_prod_def)

lemma dispatch_stuck:
  assumes "attachments_of dv cfg event opts = Inr atts" "dependable env ctx event opts" "eo_send_mode opts = SendIndividual"
    and "eo_recipients opts = r # rs" "is_valid_email (r_email r)" "non_terminal_row (w_log w) (ne_event_id event) (r_email r)"
  shows "Delivery.dispatch env dv ctx cfg event opts w = None"
proof -
  obtain cc w1 bcc w2 where c: "filter_copies env ctx (eo_cc opts) w = (cc, w1)" "filter_copies env ctx (eo_bcc opts) w1 = (bcc, w2)"
    by (metis surj_pair)
  then have "w_log w2 = w_log w" using filter_copies_log by metis
  with assms(6) have "non_terminal_row (w_log w2) (ne_event_id event) (r_email r)" by simp
  from stuck_loop_never_returns [OF assms(2,5) this]
  have "process_recipients env ctx event opts (r # rs) atts \<lparr>ec_cc = cc, ec_bcc = bcc\<rparr> cfg w2 = None"
    by (simp add: process_one_recipient_def)
  with assms(1,3,4) c show ?thesis by (simp add: dispatch_def attachments_of_def Let_def)
qed

text \<open>
  C5. An accepted retry never sends: when the operator's retry of one recipient is answered with success, the
  message it published makes the consumer spin. The retry sets the row to PENDING and
  the consumer takes a PENDING row for a duplicate: with a working database and template, in individual
  mode and once its attachments are fetched, the delivery of that message never returns, so it is
  neither sent nor acknowledged.
\<close>

theorem accepted_retry_never_sends:
  assumes "retry_recipient env ev email s = (Ok resp, s')" "log_inv (as_log s)" "ae_formats env = dv_formats dv"
    and "parse_uuid (dv_formats dv) ev = Some ev" "\<forall>d. datetime_text_ok (dv_formats dv) d"
    and "dv_parse dv data = Some (fst (last (pb_sent (as_publisher s'))))"
    and "due dv cfg data event opts" "eo_send_mode opts = SendIndividual" "attachments_of dv cfg event opts = Ok atts"
    and "dependable cenv ctx event opts" "w_log w = as_log s'"
  shows "handle_delivery cenv dv ctx cfg data w = None"
proof -
  from retry_recipient_Ok [OF assms(1,2)] obtain e o' c where e: "is_valid_email email" "non_terminal_row (as_log s') ev email"
    "last (pb_sent (as_publisher s')) = (enc_event (ae_formats env) e, Confirmed c)" "ne_event_id e = ev"
    "co_email (ne_channel_overrides e) = Some o'" "eo_recipients o' \<noteq> []" "\<forall>r \<in> set (eo_recipients o'). r_email r = email"
    "eo_send_at o' = None" by metis
  then have "event_text_ok (dv_formats dv) e" using assms(4,5) by (simp add: event_text_ok_def)
  then have "decode_event dv data = Some e" using decode_encoded_event e(3) assms(3,6) by simp
  with assms(7) e(5) have eq: "event = e" "opts = o'" by (auto simp: due_def)
  obtain r rs where r: "eo_recipients opts = r # rs" using e(6) eq by (cases "eo_recipients opts") auto
  have "Delivery.dispatch cenv dv ctx cfg event opts w = None"
    by (rule dispatch_stuck [OF assms(9,10,8) r]) (use e eq r assms(11) in auto)
  then show ?thesis using handle_delivery_due [OF assms(7)] by simp
qed

definition total_formats :: text_formats where
  "total_formats =
     \<lparr>parse_uuid = Some,
      parse_datetime = (\<lambda>s. Some (case s of [] \<Rightarrow> 0 | c # cs \<Rightarrow> if c = CHR ''-'' then - int (length s) else int (length s))),
      format_datetime = (\<lambda>d. if d < 0 then replicate (nat (- d)) (CHR ''-'') else replicate (nat d) (CHR ''+''))\<rparr>"

lemma total_formats_ok: "datetime_text_ok total_formats d"
proof -
  have "\<exists>k. nat x = Suc k" if "0 < x" for x :: int using that by (intro exI [of _ "nat x - 1"]) simp
  from this [of d] this [of "- d"] show ?thesis
    by (cases d "0 :: int" rule: linorder_cases) (auto simp: datetime_text_ok_def total_formats_def)
qed

definition failed_db :: log_db where
  "failed_db = snd (mark_failed None 20 ''e1'' ''a@x.org'' ''smtp down'' True
     (snd (insert_pending None 10 (sample_args\<lparr>p_payload := JObj []\<rparr>) empty_db)))"

definition replayed_opts :: EmailOptions where
  "replayed_opts =
     \<lparr>eo_send_mode = SendIndividual, eo_group_retry_mode = RetryWhole, eo_retry_policy = Retry,
      eo_recipients = [\<lparr>r_email = ''a@x.org'', r_name = None\<rparr>], eo_cc = [], eo_bcc = [], eo_from_override = None,
      eo_attachments = [], eo_sender_account = None, eo_send_at = None, eo_priority = None\<rparr>"

definition replayed_event :: NotificationEvent where
  "replayed_event =
     \<lparr>ne_event_id = ''e1'', ne_timestamp = 0, ne_event_type = ''T'', ne_payload = JObj [],
      ne_metadata = \<lparr>md_source = None\<rparr>, ne_channel_overrides = \<lparr>co_email = Some replayed_opts\<rparr>\<rparr>"

abbreviation retried ::
  "(AppError + response) \<times> ((string \<times> NotificationTemplate \<times> datetime) list, (string \<times> BlockListSnapshot \<times> datetime) list) ApiState" where
  "retried \<equiv> retry_recipient (sample_api_env\<lparr>ae_formats := total_formats\<rparr>) ''e1'' ''a@x.org'' (sample_api_state failed_db)"

abbreviation retry_delivery_env :: delivery_env where
  "retry_delivery_env \<equiv> (sample_delivery_env (fst (last (pb_sent (as_publisher (snd retried))))))\<lparr>dv_formats := total_formats\<rparr>"

lemma retried_ok: "is_ok (fst retried)"
  by code_simp

lemma retried_decodes: "dec_event total_formats (fst (last (pb_sent (as_publisher (snd retried))))) = Ok replayed_event"
  by code_simp

lemma failed_db_inv: "log_inv failed_db"
  unfolding failed_db_def by (intro mark_failed_inv insert_pending_inv log_inv_empty)

lemma replayed_dependable: "dependable (sample_env (\<lambda>_ _ _. Ok ())) sample_ctx replayed_event replayed_opts"
  by (simp add: dependable_def prepare_def sample_env_def replayed_opts_def resolve_from_override_def sample_ctx_def echo_jinja_def
      render_all_templates_def render_template_def render_html_template_def render_with_env_def)

theorem accepted_retry_never_sends_witness:
  "is_ok (fst retried) \<and>
   handle_delivery (sample_env (\<lambda>_ _ _. Ok ())) retry_delivery_env sample_ctx consumer_config_default ''m''
     (sample_world\<lparr>w_log := as_log (snd retried)\<rparr>) = None"
proof -
  let ?env = "sample_api_env\<lparr>ae_formats := total_formats\<rparr>" and ?dv = retry_delivery_env
  obtain r s' where run: "retried = (r, s')" by fastforce
  with retried_ok obtain resp where resp: "r = Ok resp" by (cases r) (simp_all add: is_ok_def)
  have f: "dv_formats ?dv = total_formats" "dv_parse ?dv ''m'' = Some (fst (last (pb_sent (as_publisher s'))))"
    by (simp_all add: sample_delivery_env_def run)
  have inv: "log_inv (as_log (sample_api_state failed_db))" using failed_db_inv by (simp add: sample_api_state_def)
  have u: "parse_uuid (dv_formats ?dv) ''e1'' = Some ''e1''" "\<forall>d. datetime_text_ok (dv_formats ?dv) d"
    using total_formats_ok by (simp_all add: total_formats_def)
  have "decode_event ?dv ''m'' = Some replayed_event" using retried_decodes f by (simp add: decode_event_def run)
  then have "due ?dv consumer_config_default ''m'' replayed_event replayed_opts"
    by (simp add: due_def replayed_event_def replayed_opts_def consumer_config_default_def)
  moreover have "eo_send_mode replayed_opts = SendIndividual"
    "attachments_of ?dv consumer_config_default replayed_event replayed_opts = Ok []"
    by (simp_all add: replayed_opts_def attachments_of_def)
  moreover have "ae_formats ?env = dv_formats ?dv" by simp
  ultimately show ?thesis
    using accepted_retry_never_sends [OF run [unfolded resp] inv _ u f(2) _ _ _ replayed_dependable,
        of consumer_config_default "[]" "sample_world\<lparr>w_log := as_log s'\<rparr>"] retried_ok run
    by simp
qed

end
